(* ===== verification/Os_String.thy ===== *)
theory Os_String
  imports Outboard_Prelude
begin

text \<open>
  The parts of Rust's standard library that the sources use on strings, OS strings and Unix paths:
  UTF-8 validation (\<open>OsStr::to_str\<close>), lossy decoding (\<open>to_string_lossy\<close>, \<open>from_utf8_lossy\<close>),
  splitting, ASCII case mapping, path components, \<open>Path\<close> equality, \<open>file_name\<close>, \<open>join\<close> and
  \<open>env::split_paths\<close>. Paths are those of Unix: byte strings with \<open>/\<close> as the separator.
\<close>

section \<open>Bytes\<close>

abbreviation byte :: "char \<Rightarrow> nat" where
  "byte c \<equiv> of_char c"

definition as_bytes :: "os_string \<Rightarrow> bytes" where
  "as_bytes s = map (\<lambda>c. word_of_nat (byte c)) s"

definition from_vec :: "bytes \<Rightarrow> os_string" where
  "from_vec b = map (\<lambda>w. char_of (unat w)) b"

definition is_ascii :: "string \<Rightarrow> bool" where
  "is_ascii s = list_all (\<lambda>c. byte c < 128) s"

section \<open>UTF-8\<close>

definition is_cont :: "char \<Rightarrow> bool" where
  "is_cont c = (128 \<le> byte c \<and> byte c \<le> 191)"

text \<open>The second byte a three- or four-byte sequence may have after its first byte.\<close>

definition second_ok :: "nat \<Rightarrow> nat \<Rightarrow> bool" where
  "second_ok n m =
     (if n = 224 then 160 \<le> m \<and> m \<le> 191
      else if n = 237 then 128 \<le> m \<and> m \<le> 159
      else if n = 240 then 144 \<le> m \<and> m \<le> 191
      else if n = 244 then 128 \<le> m \<and> m \<le> 143
      else 128 \<le> m \<and> m \<le> 191)"

definition utf8_width :: "nat \<Rightarrow> nat" where
  "utf8_width n =
     (if n < 128 then 1
      else if 194 \<le> n \<and> n \<le> 223 then 2
      else if 224 \<le> n \<and> n \<le> 239 then 3
      else if 240 \<le> n \<and> n \<le> 244 then 4
      else 0)"

text \<open>How many continuation bytes follow, at most \<open>k\<close>.\<close>

fun conts :: "nat \<Rightarrow> string \<Rightarrow> nat" where
  "conts 0 s = 0"
| "conts (Suc k) [] = 0"
| "conts (Suc k) (c # s) = (if is_cont c then Suc (conts k s) else 0)"

text \<open>The chunk at the head of a non-empty byte string: the bytes after the first that belong to
  it and whether it is one valid character. An invalid chunk is a maximal prefix of a valid
  character, which lossy decoding replaces by one U+FFFD.\<close>

definition utf8_chunk :: "char \<Rightarrow> string \<Rightarrow> bool \<times> nat" where
  "utf8_chunk b s =
     (let w = utf8_width (byte b) in
      if w = 0 then (False, 0)
      else if w = 1 then (True, 0)
      else if w = 2 then (conts 1 s = 1, conts 1 s)
      else (case s of
              [] \<Rightarrow> (False, 0)
            | c # s' \<Rightarrow>
                if second_ok (byte b) (byte c)
                then (conts (w - 2) s' = w - 2, Suc (conts (w - 2) s'))
                else (False, 0)))"

definition replacement_char :: string where
  "replacement_char = [char_of (239::nat), char_of (191::nat), char_of (189::nat)]"

function valid_utf8 :: "string \<Rightarrow> bool" where
  "valid_utf8 [] = True"
| "valid_utf8 (b # s) =
     (fst (utf8_chunk b s) \<and> valid_utf8 (drop (snd (utf8_chunk b s)) s))"
  by pat_completeness auto
termination
  by (relation "measure length") auto

function to_string_lossy :: "os_string \<Rightarrow> string" where
  "to_string_lossy [] = []"
| "to_string_lossy (b # s) =
     (let k = snd (utf8_chunk b s) in
      (if fst (utf8_chunk b s) then b # take k s else replacement_char)
        @ to_string_lossy (drop k s))"
  by pat_completeness auto
termination
  by (relation "measure length") auto

text \<open>\<open>OsStr::to_str\<close>.\<close>

definition to_str :: "os_string \<Rightarrow> string option" where
  "to_str s = (if valid_utf8 s then Some s else None)"

section \<open>Strings\<close>

definition ascii_upper :: "char \<Rightarrow> char" where
  "ascii_upper c = (if CHR ''a'' \<le> c \<and> c \<le> CHR ''z'' then char_of (byte c - 32) else c)"

definition ascii_lower :: "char \<Rightarrow> char" where
  "ascii_lower c = (if CHR ''A'' \<le> c \<and> c \<le> CHR ''Z'' then char_of (byte c + 32) else c)"

definition to_ascii_uppercase :: "string \<Rightarrow> string" where
  "to_ascii_uppercase s = map ascii_upper s"

definition to_ascii_lowercase :: "string \<Rightarrow> string" where
  "to_ascii_lowercase s = map ascii_lower s"

definition replace_char :: "char \<Rightarrow> char \<Rightarrow> string \<Rightarrow> string" where
  "replace_char a b s = map (\<lambda>c. if c = a then b else c) s"

definition strip_prefix :: "string \<Rightarrow> string \<Rightarrow> string option" where
  "strip_prefix p s = (if take (length p) s = p then Some (drop (length p) s) else None)"

definition starts_with :: "string \<Rightarrow> char \<Rightarrow> bool" where
  "starts_with s c = (case s of [] \<Rightarrow> False | x # _ \<Rightarrow> x = c)"

definition ends_with :: "string \<Rightarrow> char \<Rightarrow> bool" where
  "ends_with s c = starts_with (rev s) c"

fun split_on :: "char \<Rightarrow> string \<Rightarrow> string list" where
  "split_on c [] = [[]]"
| "split_on c (x # s) =
     (if x = c then [] # split_on c s
      else (case split_on c s of [] \<Rightarrow> [[x]] | p # ps \<Rightarrow> (x # p) # ps))"

fun split_once :: "char \<Rightarrow> string \<Rightarrow> (string \<times> string) option" where
  "split_once c [] = None"
| "split_once c (x # s) =
     (if x = c then Some ([], s)
      else (case split_once c s of None \<Rightarrow> None | Some (a, b) \<Rightarrow> Some (x # a, b)))"

fun join_with :: "string \<Rightarrow> string list \<Rightarrow> string" where
  "join_with sep [] = []"
| "join_with sep [x] = x"
| "join_with sep (x # y # ys) = x @ sep @ join_with sep (y # ys)"

section \<open>Paths\<close>

datatype path_comp = RootDir | CurDir | ParentDir | Normal os_string

definition seg_comp :: "os_string \<Rightarrow> path_comp list" where
  "seg_comp s = (if s = '''' \<or> s = ''.'' then [] else if s = ''..'' then [ParentDir] else [Normal s])"

definition path_components :: "os_string \<Rightarrow> path_comp list" where
  "path_components p =
     (if starts_with p (CHR ''/'') then RootDir # concat (map seg_comp (split_on (CHR ''/'') p))
      else (case split_on (CHR ''/'') p of
              [] \<Rightarrow> []
            | s # ss \<Rightarrow> (if s = ''.'' then [CurDir] else seg_comp s) @ concat (map seg_comp ss)))"

text \<open>\<open>Path == Path\<close> compares components: \<open>a/./b/\<close> equals \<open>a/b\<close>.\<close>

definition path_eq :: "os_string \<Rightarrow> os_string \<Rightarrow> bool" where
  "path_eq a b = (path_components a = path_components b)"

definition file_name :: "os_string \<Rightarrow> os_string option" where
  "file_name p = (case rev (path_components p) of Normal s # _ \<Rightarrow> Some s | _ \<Rightarrow> None)"

definition path_join :: "os_string \<Rightarrow> os_string \<Rightarrow> os_string" where
  "path_join d n =
     (if starts_with n (CHR ''/'') then n
      else if d = '''' \<or> ends_with d (CHR ''/'') then d @ n
      else d @ ''/'' @ n)"

text \<open>A name a directory entry can have.\<close>

definition entry_name :: "os_string \<Rightarrow> bool" where
  "entry_name n = (n \<noteq> '''' \<and> n \<noteq> ''.'' \<and> n \<noteq> ''..'' \<and> CHR ''/'' \<notin> set n)"

definition split_paths :: "os_string \<Rightarrow> os_string list" where
  "split_paths v = split_on (CHR '':'') v"

section \<open>Lemmas on bytes and UTF-8\<close>

lemma from_vec_as_bytes [simp]: "from_vec (as_bytes s) = s"
proof -
  have "unat (word_of_nat (byte c) :: u8) = byte c" for c
    by (simp add: unat_of_nat)
  then show ?thesis by (simp add: from_vec_def as_bytes_def comp_def)
qed

lemma as_bytes_from_vec [simp]: "as_bytes (from_vec b) = b"
proof -
  have "word_of_nat (byte (char_of (unat w))) = w" for w :: u8
    using unsigned_less[of w, where ?'a = nat] by simp
  then show ?thesis by (simp add: from_vec_def as_bytes_def comp_def)
qed

lemma utf8_chunk_ascii [simp]: "byte b < 128 \<Longrightarrow> utf8_chunk b s = (True, 0)"
  by (simp add: utf8_chunk_def utf8_width_def)

lemma valid_utf8_ascii: "is_ascii s \<Longrightarrow> valid_utf8 s"
  by (induction s) (simp_all add: is_ascii_def)

lemma to_string_lossy_valid: "valid_utf8 s \<Longrightarrow> to_string_lossy s = s"
  by (induction s rule: valid_utf8.induct) (simp_all add: Let_def)

lemma to_string_lossy_ascii:
  "is_ascii (to_string_lossy s) \<Longrightarrow> valid_utf8 s"
proof (induction s rule: valid_utf8.induct)
  case 1
  then show ?case by simp
next
  case (2 b s)
  have "fst (utf8_chunk b s)"
    using "2.prems" by (auto simp: Let_def is_ascii_def replacement_char_def split: if_splits)
  with "2" show ?case by (auto simp: Let_def is_ascii_def)
qed

text \<open>Matching a lossily decoded OS string against an ASCII literal is exact: replacement
  characters are never ASCII.\<close>

lemma to_string_lossy_eq_ascii:
  assumes "is_ascii t"
  shows "to_string_lossy s = t \<longleftrightarrow> s = t"
  using assms to_string_lossy_ascii to_string_lossy_valid valid_utf8_ascii by metis

section \<open>Lemmas on strings\<close>

lemma strip_prefix_append [simp]: "strip_prefix p (p @ s) = Some s"
  by (simp add: strip_prefix_def)

lemma strip_prefix_Some: "strip_prefix p s = Some r \<longleftrightarrow> s = p @ r"
  by (auto simp: strip_prefix_def) (metis append_take_drop_id)

lemma ends_with_snoc [simp]: "ends_with (s @ [x]) c \<longleftrightarrow> x = c"
  by (simp add: ends_with_def starts_with_def)

lemma starts_with_Cons [simp]: "starts_with (x # s) c \<longleftrightarrow> x = c"
  by (simp add: starts_with_def)

lemma starts_with_Nil [simp]: "\<not> starts_with [] c"
  by (simp add: starts_with_def)

lemma starts_with_append [simp]: "s \<noteq> [] \<Longrightarrow> starts_with (s @ t) c \<longleftrightarrow> starts_with s c"
  by (cases s) simp_all

lemma starts_with_mem: "starts_with s c \<Longrightarrow> c \<in> set s"
  by (cases s) simp_all

lemma ends_with_last: "s \<noteq> [] \<Longrightarrow> ends_with s c \<longleftrightarrow> last s = c"
  by (cases s rule: rev_cases) simp_all

lemma split_on_not_Nil [simp]: "split_on c s \<noteq> []"
  by (induction s) (auto split: list.splits)

lemma split_on_absent: "c \<notin> set s \<Longrightarrow> split_on c s = [s]"
  by (induction s) auto

lemma split_on_append:
  "split_on c (s @ c # t) = split_on c s @ split_on c t"
  by (induction s) (auto split: list.splits)

lemma split_once_append: "c \<notin> set s \<Longrightarrow> split_once c (s @ c # t) = Some (s, t)"
  by (induction s) auto

lemma split_once_Some: "split_once c s = Some (a, b) \<longleftrightarrow> s = a @ c # b \<and> c \<notin> set a"
proof (induction s arbitrary: a)
  case Nil
  then show ?case by simp
next
  case (Cons x s)
  have "split_once c (x # s) = Some (a, b)
      \<longleftrightarrow> (if x = c then a = [] \<and> b = s else (\<exists>a'. a = x # a' \<and> split_once c s = Some (a', b)))"
    by (auto split: option.splits)
  also have "\<dots> \<longleftrightarrow> x # s = a @ c # b \<and> c \<notin> set a"
    by (auto simp: Cons.IH Cons_eq_append_conv)
  finally show ?case .
qed

lemma split_once_None: "split_once c s = None \<longleftrightarrow> c \<notin> set s"
  by (induction s) (auto split: option.splits)

section \<open>Lemmas on paths\<close>

lemma seg_comp_entry [simp]: "entry_name n \<Longrightarrow> seg_comp n = [Normal n]"
  by (simp add: seg_comp_def entry_name_def)

lemma path_components_snoc:
  assumes "entry_name n"
  shows "path_components (d @ CHR ''/'' # n) =
      (if d = '''' then [RootDir] else path_components d) @ [Normal n]"
proof -
  have n: "split_on (CHR ''/'') n = [n]"
    using assms by (simp add: split_on_absent entry_name_def)
  show ?thesis
  proof (cases d)
    case Nil
    then show ?thesis using assms n
      by (simp add: path_components_def seg_comp_def entry_name_def)
  next
    case (Cons x xs)
    show ?thesis
      using assms n unfolding Cons path_components_def split_on_append
      by (auto simp: starts_with_append[of "x # xs"] split: list.splits)
  qed
qed

lemma path_components_entry: "entry_name n \<Longrightarrow> path_components n = [Normal n]"
  using starts_with_mem[of n "CHR ''/''"]
  by (auto simp: path_components_def split_on_absent entry_name_def seg_comp_def)

lemma file_name_join:
  assumes n: "entry_name n"
  shows "file_name (path_join d n) = Some n"
proof -
  have rel: "\<not> starts_with n (CHR ''/'')"
    using n starts_with_mem by (auto simp: entry_name_def)
  consider "d = ''''" | d' where "d = d' @ ''/''" | "d \<noteq> ''''" "\<not> ends_with d (CHR ''/'')"
    by (metis append_butlast_last_id ends_with_last)
  then show ?thesis
  proof cases
    case 1
    then show ?thesis using n rel by (simp add: path_join_def file_name_def path_components_entry)
  next
    case (2 d')
    then show ?thesis using n rel
      by (simp add: path_join_def file_name_def path_components_snoc)
  next
    case 3
    then show ?thesis using n rel
      by (simp add: path_join_def file_name_def path_components_snoc)
  qed
qed

lemma path_eq_refl [simp]: "path_eq a a"
  by (simp add: path_eq_def)

lemma path_eq_sym: "path_eq a b \<Longrightarrow> path_eq b a"
  by (simp add: path_eq_def)

end
