(* ===== verification/Process.thy ===== *)
theory Process
  imports Os_String
begin

text \<open>
  Running a control command with a time limit: \<open>src/crates/outboard-core/src/process.rs\<close>. What the
  operating system does with the child is the record \<open>child\<close>: what each poll of \<open>try_wait\<close>
  returns, how long each round takes beyond its sleep, and what the three pipe threads return, which
  for a killed child may differ from one that exits. A thread that drains a pipe ends once the pipe is
  closed; a descendant of the child that keeps it open is not modelled. \<open>thread::sleep\<close> lasts at
  least as long as it is asked to. Times are in milliseconds.
\<close>

section \<open>Data\<close>

text \<open>\<open>ExitStatus\<close>: the exit code, \<open>None\<close> where a signal ended the process.\<close>

datatype exit_status = ExitStatus (exit_code: "i32 option")

definition exit_success :: "exit_status \<Rightarrow> bool" where
  "exit_success s = (exit_code s = Some 0)"

record captured_output =
  co_status :: exit_status
  co_stdout :: bytes
  co_stderr :: bytes

datatype process_error =
    PSpawn io_error
  | PWait io_error
  | PTimeout duration bytes bytes
  | PReaderPanicked
  | PStdin io_error

definition captured_stdout :: "process_error \<Rightarrow> bytes option" where
  "captured_stdout e = (case e of PTimeout _ out _ \<Rightarrow> Some out | _ \<Rightarrow> None)"

definition captured_stderr :: "process_error \<Rightarrow> bytes option" where
  "captured_stderr e = (case e of PTimeout _ _ err \<Rightarrow> Some err | _ \<Rightarrow> None)"

text \<open>What joining a thread gives: \<open>None\<close> if the thread panicked.\<close>

type_synonym 'a joined = "(io_error + 'a) option"

record child =
  ch_try_wait :: "nat \<Rightarrow> io_error + exit_status option"
  ch_first_delay :: duration
  ch_delay :: "nat \<Rightarrow> duration"
  ch_stdout :: "bool \<Rightarrow> bytes joined"
  ch_stderr :: "bool \<Rightarrow> bytes joined"
  ch_stdin :: "bytes \<Rightarrow> unit joined"

record command =
  cmd_program :: os_string
  cmd_args :: "os_string list"
  cmd_stdin_piped :: bool

type_synonym spawner = "command \<Rightarrow> io_error + child"

text \<open>What is done to the child, in order. A child is reaped when \<open>try_wait\<close> reports its status or
  \<open>wait\<close> is called.\<close>

datatype child_event = EvSpawned | EvReaped | EvKilled | EvJoined

section \<open>Operations\<close>

datatype wait_end = Exited exit_status | Deadline

text \<open>The polling loop from poll \<open>k\<close> at time \<open>now\<close> after the start: the number of the last poll and
  how the loop ended.\<close>

function wait_loop :: "child \<Rightarrow> duration \<Rightarrow> nat \<Rightarrow> duration \<Rightarrow> nat \<times> (io_error + wait_end)" where
  "wait_loop c timeout k now =
     (case ch_try_wait c k of
        Inl e \<Rightarrow> (k, Inl e)
      | Inr (Some st) \<Rightarrow> (k, Inr (Exited st))
      | Inr None \<Rightarrow>
          if timeout \<le> now then (k, Inr Deadline)
          else wait_loop c timeout (Suc k) (now + 5 + ch_delay c k))"
  by pat_completeness auto
termination
  by (relation "measure (\<lambda>(c, timeout, k, now). timeout - now)") auto

declare wait_loop.simps [simp del]

definition join_pipe :: "bytes joined \<Rightarrow> process_error + bytes" where
  "join_pipe j =
     (case j of None \<Rightarrow> Inl PReaderPanicked | Some r \<Rightarrow> res_map_err PWait r)"

definition run_child ::
    "child \<Rightarrow> bytes option \<Rightarrow> duration \<Rightarrow> (process_error + captured_output) \<times> child_event list" where
  "run_child c input timeout =
     (case snd (wait_loop c timeout 0 (ch_first_delay c)) of
        Inl e \<Rightarrow> (Inl (PWait e), [EvSpawned])
      | Inr Deadline \<Rightarrow>
          (res_bind (join_pipe (ch_stdout c True)) (\<lambda>out.
             res_bind (join_pipe (ch_stderr c True)) (\<lambda>err.
               Inl (PTimeout timeout out err))),
           [EvSpawned, EvKilled, EvReaped, EvJoined])
      | Inr (Exited st) \<Rightarrow>
          (res_bind
             (case input of
                None \<Rightarrow> Inr ()
              | Some b \<Rightarrow>
                  (case ch_stdin c b of None \<Rightarrow> Inl PReaderPanicked | Some r \<Rightarrow> res_map_err PStdin r))
             (\<lambda>_. res_bind (join_pipe (ch_stdout c False)) (\<lambda>out.
                res_bind (join_pipe (ch_stderr c False)) (\<lambda>err.
                  Inr \<lparr>co_status = st, co_stdout = out, co_stderr = err\<rparr>))),
           [EvSpawned, EvReaped, EvJoined]))"

definition run_capture ::
    "spawner \<Rightarrow> command \<Rightarrow> bytes option \<Rightarrow> duration
     \<Rightarrow> (process_error + captured_output) \<times> child_event list" where
  "run_capture S cmd input timeout =
     (case S (cmd\<lparr>cmd_stdin_piped := (input \<noteq> None)\<rparr>) of
        Inl e \<Rightarrow> (Inl (PSpawn e), [])
      | Inr c \<Rightarrow> run_child c input timeout)"

definition run_capture_args ::
    "spawner \<Rightarrow> os_string \<Rightarrow> os_string list \<Rightarrow> bytes option \<Rightarrow> duration
     \<Rightarrow> process_error + captured_output" where
  "run_capture_args S program args input timeout =
     fst (run_capture S \<lparr>cmd_program = program, cmd_args = args, cmd_stdin_piped = False\<rparr> input timeout)"

section \<open>Lemmas on the polling loop\<close>

lemma wait_loop_polls: "k \<le> fst (wait_loop c t k now)"
proof (induction c t k now rule: wait_loop.induct)
  case (1 c t k now)
  then show ?case by (subst wait_loop.simps) (force split: sum.splits option.splits)
qed

lemma wait_loop_bound: "5 * fst (wait_loop c t k now) \<le> 5 * k + (t + 4 - now)"
proof (induction c t k now rule: wait_loop.induct)
  case (1 c t k now)
  have IH: "5 * fst (wait_loop c t (Suc k) (now + 5 + ch_delay c k))
      \<le> 5 * Suc k + (t + 4 - (now + 5 + ch_delay c k))"
    if "ch_try_wait c k = Inr None" "\<not> t \<le> now"
    using 1[OF that(1) refl that(2)] .
  show ?case
    by (subst wait_loop.simps) (use IH in \<open>fastforce split: sum.splits option.splits\<close>)
qed

text \<open>The poll at which the loop ends is the first that finds the child gone or failing, or the
  deadline.\<close>

lemma wait_loop_running:
  "k \<le> j \<Longrightarrow> j < fst (wait_loop c t k now) \<Longrightarrow> ch_try_wait c j = Inr None"
proof (induction c t k now rule: wait_loop.induct)
  case (1 c t k now)
  show ?case
  proof (cases "ch_try_wait c k = Inr None \<and> \<not> t \<le> now")
    case True
    then have "wait_loop c t k now = wait_loop c t (Suc k) (now + 5 + ch_delay c k)"
      by (subst wait_loop.simps) simp
    then show ?thesis using True 1 by (cases "j = k") (auto simp: le_Suc_eq)
  next
    case False
    then have "fst (wait_loop c t k now) = k"
      by (subst wait_loop.simps) (auto split: sum.splits option.splits)
    then show ?thesis using 1 by simp
  qed
qed

lemma wait_loop_end:
  "case snd (wait_loop c t k now) of
     Inl e \<Rightarrow> ch_try_wait c (fst (wait_loop c t k now)) = Inl e
   | Inr (Exited st) \<Rightarrow> ch_try_wait c (fst (wait_loop c t k now)) = Inr (Some st)
   | Inr Deadline \<Rightarrow> ch_try_wait c (fst (wait_loop c t k now)) = Inr None"
proof (induction c t k now rule: wait_loop.induct)
  case (1 c t k now)
  show ?case
  proof (cases "ch_try_wait c k = Inr None \<and> \<not> t \<le> now")
    case True
    then have eq: "wait_loop c t k now = wait_loop c t (Suc k) (now + 5 + ch_delay c k)"
      by (subst wait_loop.simps) simp
    show ?thesis unfolding eq by (rule 1) (use True in simp_all)
  next
    case False
    then show ?thesis
      by (auto simp: wait_loop.simps[of c t k now] split: sum.splits option.splits)
  qed
qed

text \<open>The time at poll \<open>k\<close>.\<close>

fun elapsed_at :: "child \<Rightarrow> nat \<Rightarrow> duration" where
  "elapsed_at c 0 = ch_first_delay c"
| "elapsed_at c (Suc k) = elapsed_at c k + 5 + ch_delay c k"

lemma wait_loop_reaches:
  assumes "\<forall>i < j. ch_try_wait c i = Inr None \<and> elapsed_at c i < t" and "k \<le> j"
  shows "wait_loop c t k (elapsed_at c k) = wait_loop c t j (elapsed_at c j)"
  using assms(2)
proof (induction rule: inc_induct)
  case base
  then show ?case by simp
next
  case (step n)
  then have "ch_try_wait c n = Inr None" "elapsed_at c n < t" using assms(1) by auto
  then have "wait_loop c t n (elapsed_at c n) = wait_loop c t (Suc n) (elapsed_at c (Suc n))"
    by (subst wait_loop.simps) simp
  with step show ?case by simp
qed

lemma wait_loop_exit:
  assumes "\<forall>i < j. ch_try_wait c i = Inr None \<and> elapsed_at c i < t" "ch_try_wait c j = Inr (Some st)"
  shows "wait_loop c t 0 (ch_first_delay c) = (j, Inr (Exited st))"
  using wait_loop_reaches[OF assms(1), of 0] assms(2) by (simp add: wait_loop.simps[of c t j])

section \<open>Properties\<close>


text \<open>A child that exits in time is captured whole: if it is still running at every poll before
  the \<open>j\<close>-th, each within the limit, has exited with \<open>st\<close> at the \<open>j\<close>-th, and its pipes were drained
  and fed without error, the call returns that status and all it wrote.\<close>

theorem run_child_captures:
  assumes "\<forall>i < j. ch_try_wait c i = Inr None \<and> elapsed_at c i < t"
    and "ch_try_wait c j = Inr (Some st)"
    and "ch_stdout c False = Some (Inr out)" "ch_stderr c False = Some (Inr err)"
    and "\<forall>b. ch_stdin c b = Some (Inr ())"
  shows "run_child c input t =
    (Inr \<lparr>co_status = st, co_stdout = out, co_stderr = err\<rparr>, [EvSpawned, EvReaped, EvJoined])"
  using assms(3-5)
  by (simp add: run_child_def wait_loop_exit[OF assms(1,2)] join_pipe_def split: option.splits)

definition sample_child :: child where
  "sample_child =
     \<lparr>ch_try_wait = (\<lambda>k. if k < 2 then Inr None else Inr (Some (ExitStatus (Some 0)))),
      ch_first_delay = 0, ch_delay = (\<lambda>_. 1), ch_stdout = (\<lambda>_. Some (Inr [1, 2])),
      ch_stderr = (\<lambda>_. Some (Inr [])), ch_stdin = (\<lambda>_. Some (Inr ()))\<rparr>"

theorem run_child_captures_witness:
  "run_child sample_child None 50 =
    (Inr \<lparr>co_status = ExitStatus (Some 0), co_stdout = [1, 2], co_stderr = []\<rparr>,
     [EvSpawned, EvReaped, EvJoined])"
proof (rule run_child_captures[of 2])
  show "\<forall>i<2. ch_try_wait sample_child i = Inr None \<and> elapsed_at sample_child i < 50"
    by (auto simp: sample_child_def less_2_cases_iff)
qed (simp_all add: sample_child_def)

end
