(* ===== verification/Identifier.thy ===== *)
theory Identifier
  imports Os_String
begin

text \<open>
  Identifiers: \<open>src/crates/outboard-core/src/id.rs\<close>. The macro \<open>id_newtype!\<close> makes five newtypes
  over \<open>String\<close> that differ in their name and in whether a dot is allowed; here they are one type
  \<open>'k ident\<close> with a tag, and \<open>id_new\<close> takes the macro's two arguments. The locale
  \<open>identifier_type\<close> is what every such newtype promises its clients, and each of the five is an
  interpretation of it.
\<close>

section \<open>Data\<close>

record identifier_error =
  ie_kind :: string
  ie_value :: string
  ie_reason :: string

datatype 'k ident = Ident (as_str: string)

datatype namespace_tag = NamespaceTag
datatype kind_tag = KindTag
datatype name_tag = NameTag
datatype interface_tag = InterfaceTag
datatype capability_tag = CapabilityTag

type_synonym namespace = "namespace_tag ident"
type_synonym plugin_kind = "kind_tag ident"
type_synonym plugin_name = "name_tag ident"
type_synonym interface_id = "interface_tag ident"
type_synonym capability_id = "capability_tag ident"

datatype plugin_id =
  PluginId (pid_namespace: namespace) (pid_kind: plugin_kind) (pid_name: plugin_name)

section \<open>Operations\<close>

definition is_ascii_alphanumeric :: "char \<Rightarrow> bool" where
  "is_ascii_alphanumeric b =
     (CHR ''0'' \<le> b \<and> b \<le> CHR ''9'' \<or> CHR ''A'' \<le> b \<and> b \<le> CHR ''Z''
      \<or> CHR ''a'' \<le> b \<and> b \<le> CHR ''z'')"

definition identifier_byte :: "bool \<Rightarrow> char \<Rightarrow> bool" where
  "identifier_byte allow_dot b =
     (is_ascii_alphanumeric b \<or> b = CHR ''-'' \<or> b = CHR ''_'' \<or> (allow_dot \<and> b = CHR ''.''))"

definition validate_identifier :: "string \<Rightarrow> string \<Rightarrow> bool \<Rightarrow> identifier_error + unit" where
  "validate_identifier kind v allow_dot =
     (if v = '''' then
        Inl \<lparr>ie_kind = kind, ie_value = v, ie_reason = ''must not be empty''\<rparr>
      else if starts_with v (CHR ''-'') \<or> ends_with v (CHR ''-'') then
        Inl \<lparr>ie_kind = kind, ie_value = v,
          ie_reason = ''must not start or end with '' @ [CHR 0x27, CHR ''-'', CHR 0x27]\<rparr>
      else if \<not> list_all (identifier_byte allow_dot) v then
        Inl \<lparr>ie_kind = kind, ie_value = v,
          ie_reason = ''contains characters outside [A-Za-z0-9_-] (and '' @
            [CHR 0x27, CHR ''.'', CHR 0x27] @ '' where allowed)''\<rparr>
      else Inr ())"

text \<open>The constructor \<open>new\<close> of the macro; \<open>FromStr\<close> and the two \<open>TryFrom\<close> are the same call.\<close>

definition id_new :: "string \<Rightarrow> bool \<Rightarrow> string \<Rightarrow> identifier_error + 'k ident" where
  "id_new kind dot v = res_bind (validate_identifier kind v dot) (\<lambda>_. Inr (Ident v))"

definition namespace_new :: "string \<Rightarrow> identifier_error + namespace" where
  "namespace_new = id_new ''namespace'' False"

definition plugin_kind_new :: "string \<Rightarrow> identifier_error + plugin_kind" where
  "plugin_kind_new = id_new ''plugin kind'' False"

definition plugin_name_new :: "string \<Rightarrow> identifier_error + plugin_name" where
  "plugin_name_new = id_new ''plugin name'' False"

definition interface_id_new :: "string \<Rightarrow> identifier_error + interface_id" where
  "interface_id_new = id_new ''interface'' True"

definition capability_id_new :: "string \<Rightarrow> identifier_error + capability_id" where
  "capability_id_new = id_new ''capability'' True"

definition plugin_id_new :: "string \<Rightarrow> string \<Rightarrow> string \<Rightarrow> identifier_error + plugin_id" where
  "plugin_id_new n k m =
     res_bind (namespace_new n) (\<lambda>n'.
     res_bind (plugin_kind_new k) (\<lambda>k'.
     res_bind (plugin_name_new m) (\<lambda>m'. Inr (PluginId n' k' m'))))"

definition executable_name :: "plugin_id \<Rightarrow> string" where
  "executable_name p =
     as_str (pid_namespace p) @ ''-'' @ as_str (pid_kind p) @ ''-'' @ as_str (pid_name p)"

definition selector :: "plugin_id \<Rightarrow> string" where
  "selector p = as_str (pid_kind p) @ '':'' @ as_str (pid_name p)"

definition plugin_id_to_string :: "plugin_id \<Rightarrow> string" where
  "plugin_id_to_string p =
     as_str (pid_namespace p) @ ''/'' @ as_str (pid_kind p) @ ''/'' @ as_str (pid_name p)"

section \<open>The derived orders\<close>

text \<open>\<open>derive(PartialOrd, Ord)\<close>: a newtype compares its string, a struct its fields in order.\<close>

instantiation ident :: (type) linorder
begin

definition less_eq_ident :: "'a ident \<Rightarrow> 'a ident \<Rightarrow> bool" where
  "less_eq_ident x y = (as_str x \<le> as_str y)"

definition less_ident :: "'a ident \<Rightarrow> 'a ident \<Rightarrow> bool" where
  "less_ident x y = (as_str x < as_str y)"

instance
  by standard (auto simp: less_eq_ident_def less_ident_def intro: ident.expand)

end

instantiation plugin_id :: linorder
begin

definition plugin_id_key :: "plugin_id \<Rightarrow> namespace \<times> plugin_kind \<times> plugin_name" where
  "plugin_id_key p = (pid_namespace p, pid_kind p, pid_name p)"

definition less_eq_plugin_id :: "plugin_id \<Rightarrow> plugin_id \<Rightarrow> bool" where
  "less_eq_plugin_id p q = (plugin_id_key p \<le> plugin_id_key q)"

definition less_plugin_id :: "plugin_id \<Rightarrow> plugin_id \<Rightarrow> bool" where
  "less_plugin_id p q = (plugin_id_key p < plugin_id_key q)"

instance
  by standard
    (auto simp: less_eq_plugin_id_def less_plugin_id_def plugin_id_key_def intro: plugin_id.expand)

end

section \<open>Well-formed identifiers\<close>

definition ident_ok :: "bool \<Rightarrow> string \<Rightarrow> bool" where
  "ident_ok dot v =
     (v \<noteq> '''' \<and> hd v \<noteq> CHR ''-'' \<and> last v \<noteq> CHR ''-'' \<and> list_all (identifier_byte dot) v)"

definition plugin_id_ok :: "plugin_id \<Rightarrow> bool" where
  "plugin_id_ok p =
     (ident_ok False (as_str (pid_namespace p)) \<and> ident_ok False (as_str (pid_kind p))
      \<and> ident_ok False (as_str (pid_name p)))"

lemma validate_identifier_ok:
  "validate_identifier k v d = Inr () \<longleftrightarrow> ident_ok d v"
  by (cases v) (auto simp: validate_identifier_def ident_ok_def ends_with_last)

lemma validate_identifier_error:
  "validate_identifier k v d = Inl e \<Longrightarrow> ie_kind e = k \<and> ie_value e = v"
  by (auto simp: validate_identifier_def split: if_splits)

lemma id_new_eq_Inr: "id_new k d v = Inr x \<longleftrightarrow> x = Ident v \<and> ident_ok d v"
  by (auto simp: id_new_def res_simps validate_identifier_ok)

lemma id_new_eq_Inl: "id_new k d v = Inl e \<Longrightarrow> ie_kind e = k \<and> ie_value e = v \<and> \<not> ident_ok d v"
  using validate_identifier_ok[of k v d]
  by (auto simp: id_new_def res_simps dest: validate_identifier_error)

lemma identifier_byte_ascii: "identifier_byte d b \<Longrightarrow> byte b < 128"
  by (auto simp: identifier_byte_def is_ascii_alphanumeric_def less_eq_char_def)

lemma identifier_byte_separators [simp]:
  "\<not> identifier_byte d (CHR ''/'')" "\<not> identifier_byte d (CHR '':'')"
  "\<not> identifier_byte False (CHR ''.'')"
  by (simp_all add: identifier_byte_def is_ascii_alphanumeric_def)

lemma ident_ok_chars:
  assumes "ident_ok d v"
  shows "CHR ''/'' \<notin> set v" and "CHR '':'' \<notin> set v" and "is_ascii v"
  using assms by (auto simp: ident_ok_def list_all_iff is_ascii_def identifier_byte_ascii
      intro: identifier_byte_ascii)

section \<open>The interface of the identifier newtypes\<close>

locale identifier_type =
  fixes new :: "string \<Rightarrow> identifier_error + 'k ident"
    and kind_name :: string
    and dot :: bool
  assumes new_ok: "new v = Inr x \<longleftrightarrow> x = Ident v \<and> ident_ok dot v"
    and new_error: "new v = Inl e \<Longrightarrow> ie_kind e = kind_name \<and> ie_value e = v"
begin

lemma new_as_str: "ident_ok dot (as_str x) \<Longrightarrow> new (as_str x) = Inr x"
  by (simp add: new_ok)

lemma new_inject: "new v = Inr x \<Longrightarrow> new w = Inr x \<Longrightarrow> v = w"
  by (simp add: new_ok)

lemma new_total: "is_ok (new v) \<longleftrightarrow> ident_ok dot v"
  by (auto simp: is_ok_iff new_ok)

lemma new_idempotent: "new v = Inr x \<Longrightarrow> new (as_str x) = Inr x"
  by (simp add: new_ok)

lemma new_safe_chars:
  "new v = Inr x \<Longrightarrow> v \<noteq> '''' \<and> is_ascii v \<and> CHR ''/'' \<notin> set v \<and> CHR '':'' \<notin> set v"
  using ident_ok_chars[of dot v] by (auto simp: new_ok ident_ok_def)

end

lemma identifier_type_id_new: "identifier_type (id_new k d) k d"
  by unfold_locales (auto simp: id_new_eq_Inr dest: id_new_eq_Inl)

interpretation namespace_id: identifier_type namespace_new "''namespace''" False
  unfolding namespace_new_def by (rule identifier_type_id_new)

interpretation kind_id: identifier_type plugin_kind_new "''plugin kind''" False
  unfolding plugin_kind_new_def by (rule identifier_type_id_new)

interpretation name_id: identifier_type plugin_name_new "''plugin name''" False
  unfolding plugin_name_new_def by (rule identifier_type_id_new)

interpretation interface_id: identifier_type interface_id_new "''interface''" True
  unfolding interface_id_new_def by (rule identifier_type_id_new)

interpretation capability_id: identifier_type capability_id_new "''capability''" True
  unfolding capability_id_new_def by (rule identifier_type_id_new)

section \<open>Plugin identities\<close>

lemma plugin_id_new_eq_Inr:
  "plugin_id_new n k m = Inr p \<longleftrightarrow> p = PluginId (Ident n) (Ident k) (Ident m) \<and> plugin_id_ok p"
  by (auto simp: plugin_id_new_def plugin_id_ok_def res_simps namespace_id.new_ok kind_id.new_ok
      name_id.new_ok)

lemma plugin_id_new_fields:
  "is_ok (plugin_id_new (as_str (pid_namespace p)) (as_str (pid_kind p)) (as_str (pid_name p)))
   \<longleftrightarrow> plugin_id_ok p"
  by (auto simp: is_ok_iff plugin_id_new_eq_Inr plugin_id_ok_def)

lemma plugin_id_ok_chars:
  assumes "plugin_id_ok p"
  shows "CHR ''/'' \<notin> set (as_str (pid_namespace p))" "CHR ''/'' \<notin> set (as_str (pid_kind p))"
    "CHR ''/'' \<notin> set (as_str (pid_name p))" "CHR '':'' \<notin> set (as_str (pid_kind p))"
    "is_ascii (as_str (pid_namespace p))" "is_ascii (as_str (pid_kind p))"
    "is_ascii (as_str (pid_name p))"
  using assms ident_ok_chars unfolding plugin_id_ok_def by blast+

lemma executable_name_entry:
  assumes "plugin_id_ok p"
  shows "entry_name (executable_name p)" and "is_ascii (executable_name p)"
proof -
  show "is_ascii (executable_name p)"
    using plugin_id_ok_chars[OF assms] by (simp add: executable_name_def is_ascii_def)
  have "CHR ''/'' \<notin> set (executable_name p)" "CHR ''-'' \<in> set (executable_name p)"
    using plugin_id_ok_chars[OF assms] by (simp_all add: executable_name_def)
  then show "entry_name (executable_name p)" by (auto simp: entry_name_def)
qed

lemma executable_name_prefix:
  "strip_prefix (as_str n @ ''-'' @ as_str k @ ''-'') (executable_name (PluginId n k m)) = Some (as_str m)"
  unfolding strip_prefix_Some by (simp add: executable_name_def)

lemma plugin_id_to_string_inject:
  assumes "plugin_id_ok p" "plugin_id_ok q" "plugin_id_to_string p = plugin_id_to_string q"
  shows "p = q"
proof -
  have once: "split_once (CHR ''/'') (plugin_id_to_string r) =
      Some (as_str (pid_namespace r), as_str (pid_kind r) @ CHR ''/'' # as_str (pid_name r))"
    if "plugin_id_ok r" for r
    using plugin_id_ok_chars[OF that] by (simp add: plugin_id_to_string_def split_once_append)
  have twice: "split_once (CHR ''/'') (as_str (pid_kind r) @ CHR ''/'' # as_str (pid_name r)) =
      Some (as_str (pid_kind r), as_str (pid_name r))" if "plugin_id_ok r" for r
    using plugin_id_ok_chars[OF that] by (simp add: split_once_append)
  have "as_str (pid_namespace p) = as_str (pid_namespace q)"
    and rest: "as_str (pid_kind p) @ CHR ''/'' # as_str (pid_name p) =
     as_str (pid_kind q) @ CHR ''/'' # as_str (pid_name q)"
    using once[OF assms(1)] once[OF assms(2)] assms(3) by simp_all
  moreover have "as_str (pid_kind p) = as_str (pid_kind q)" "as_str (pid_name p) = as_str (pid_name q)"
    using twice[OF assms(1)] twice[OF assms(2)] unfolding rest by simp_all
  ultimately show ?thesis
    by (cases p; cases q) (simp add: ident.expand)
qed

end
