(* ===== verification/Discovery.thy ===== *)
theory Discovery
  imports Identifier "HOL-Library.Sublist"
begin

text \<open>
  Finding plugin executables: \<open>src/crates/outboard-core/src/discovery.rs\<close> on Unix. The file system
  and the environment are the record \<open>system\<close>, an argument of the definitions that read them:
  \<open>fs::read_dir\<close> (each entry may fail on its own), \<open>fs::metadata\<close>, \<open>Path::canonicalize\<close> and
  \<open>env::var_os\<close>. A modification time is in nanoseconds from the Unix epoch, \<open>None\<close> where the
  platform has none. \<open>sys_hash\<close> is the \<open>DefaultHasher\<close> of the standard library on a byte string,
  whose algorithm is not specified.
\<close>

section \<open>The operating system\<close>

record file_meta =
  fm_is_file :: bool
  fm_mode :: u32
  fm_len :: u64
  fm_modified :: "int option"

record system =
  sys_read_dir :: "os_string \<Rightarrow> io_error + (io_error + os_string) list"
  sys_metadata :: "os_string \<Rightarrow> io_error + file_meta"
  sys_canonicalize :: "os_string \<Rightarrow> io_error + os_string"
  sys_var_os :: "string \<Rightarrow> os_string option"
  sys_hash :: "bytes \<Rightarrow> u64"

section \<open>Data\<close>

datatype discovery_source = Override | ExplicitPath | Environment string | SourcePath

record search_root =
  sr_path :: os_string
  sr_source :: discovery_source

record plugin_candidate =
  c_id :: plugin_id
  c_path :: os_string
  c_source :: discovery_source
  c_precedence :: nat

definition candidate_explicit :: "plugin_id \<Rightarrow> os_string \<Rightarrow> plugin_candidate" where
  "candidate_explicit i p = \<lparr>c_id = i, c_path = p, c_source = Override, c_precedence = 0\<rparr>"

record discovery_set =
  ds_selected :: "plugin_candidate list"
  ds_shadowed :: "(plugin_id, plugin_candidate list) btree"
  ds_roots :: "search_root list"

definition selected_by_name :: "discovery_set \<Rightarrow> plugin_name \<Rightarrow> plugin_candidate option" where
  "selected_by_name d n = find (\<lambda>c. pid_name (c_id c) = n) (ds_selected d)"

definition all_for :: "discovery_set \<Rightarrow> plugin_id \<Rightarrow> plugin_candidate list" where
  "all_for d i =
     filter (\<lambda>c. c_id c = i) (ds_selected d)
     @ (case bt_get (ds_shadowed d) i of None \<Rightarrow> [] | Some cs \<Rightarrow> cs)"

section \<open>Operations\<close>

definition same_file :: "system \<Rightarrow> os_string \<Rightarrow> os_string \<Rightarrow> bool" where
  "same_file F a b =
     (case (sys_canonicalize F a, sys_canonicalize F b) of
        (Inr a', Inr b') \<Rightarrow> path_eq a' b'
      | _ \<Rightarrow> path_eq a b)"

definition executable_file_name :: "os_string \<Rightarrow> string option" where
  "executable_file_name p = Option.bind (file_name p) to_str"

definition is_executable :: "system \<Rightarrow> os_string \<Rightarrow> bool" where
  "is_executable F p =
     (case sys_metadata F p of
        Inl _ \<Rightarrow> False
      | Inr m \<Rightarrow> fm_is_file m \<and> and (fm_mode m) 73 \<noteq> 0)"

record discovery_maps =
  dm_selected :: "(plugin_id, plugin_candidate) btree"
  dm_shadowed :: "(plugin_id, plugin_candidate list) btree"

definition discover_insert ::
    "system \<Rightarrow> plugin_candidate \<Rightarrow> discovery_maps \<Rightarrow> discovery_maps" where
  "discover_insert F c s =
     (case bt_get (dm_selected s) (c_id c) of
        Some existing \<Rightarrow>
          if same_file F (c_path existing) (c_path c) then s
          else s\<lparr>dm_shadowed := bt_insert (c_id c)
                  ((case bt_get (dm_shadowed s) (c_id c) of None \<Rightarrow> [] | Some cs \<Rightarrow> cs) @ [c])
                  (dm_shadowed s)\<rparr>
      | None \<Rightarrow> s\<lparr>dm_selected := bt_insert (c_id c) c (dm_selected s)\<rparr>)"

fun insert_overrides ::
    "system \<Rightarrow> namespace \<Rightarrow> plugin_kind \<Rightarrow> (plugin_name \<times> os_string) list
     \<Rightarrow> discovery_maps \<times> nat \<Rightarrow> discovery_maps \<times> nat" where
  "insert_overrides F ns kd [] st = st"
| "insert_overrides F ns kd ((name, path) # ovs) (s, n) =
     insert_overrides F ns kd ovs
       (discover_insert F \<lparr>c_id = PluginId ns kd name, c_path = path, c_source = Override,
                           c_precedence = n\<rparr> s, Suc n)"

text \<open>The name a directory entry gives, \<open>None\<close> where the loop body runs into one of its
  \<open>continue\<close>s: not executable, not UTF-8, another prefix, no valid name.\<close>

definition entry_plugin_name ::
    "system \<Rightarrow> namespace \<Rightarrow> plugin_kind \<Rightarrow> os_string \<Rightarrow> plugin_name option" where
  "entry_plugin_name F ns kd path =
     (if \<not> is_executable F path then None
      else
        (case executable_file_name path of
           None \<Rightarrow> None
         | Some stem \<Rightarrow>
             (case strip_prefix (as_str ns @ ''-'' @ as_str kd @ ''-'') stem of
                None \<Rightarrow> None
              | Some name \<Rightarrow> (case plugin_name_new name of Inl _ \<Rightarrow> None | Inr m \<Rightarrow> Some m))))"

fun scan_entries ::
    "system \<Rightarrow> namespace \<Rightarrow> plugin_kind \<Rightarrow> search_root \<Rightarrow> os_string list
     \<Rightarrow> discovery_maps \<times> nat \<Rightarrow> discovery_maps \<times> nat" where
  "scan_entries F ns kd root [] st = st"
| "scan_entries F ns kd root (e # es) (s, n) =
     (let path = path_join (sr_path root) e in
      case entry_plugin_name F ns kd path of
        None \<Rightarrow> scan_entries F ns kd root es (s, n)
      | Some m \<Rightarrow>
          scan_entries F ns kd root es
            (discover_insert F \<lparr>c_id = PluginId ns kd m, c_path = path, c_source = sr_source root,
                                c_precedence = n\<rparr> s, Suc n))"

definition dir_entries :: "(io_error + os_string) list \<Rightarrow> os_string list" where
  "dir_entries es = sort (List.map_filter (\<lambda>e. case e of Inl _ \<Rightarrow> None | Inr x \<Rightarrow> Some x) es)"

fun scan_roots ::
    "system \<Rightarrow> namespace \<Rightarrow> plugin_kind \<Rightarrow> search_root list
     \<Rightarrow> discovery_maps \<times> nat \<Rightarrow> io_error + discovery_maps \<times> nat" where
  "scan_roots F ns kd [] st = Inr st"
| "scan_roots F ns kd (root # roots) st =
     (case sys_read_dir F (sr_path root) of
        Inr es \<Rightarrow> scan_roots F ns kd roots (scan_entries F ns kd root (dir_entries es) st)
      | Inl e \<Rightarrow>
          if e = IoNotFound \<or> e = IoPermissionDenied then scan_roots F ns kd roots st else Inl e)"

definition discover_in_roots ::
    "system \<Rightarrow> namespace \<Rightarrow> plugin_kind \<Rightarrow> search_root list \<Rightarrow> (plugin_name \<times> os_string) list
     \<Rightarrow> io_error + discovery_set" where
  "discover_in_roots F ns kd roots overrides =
     res_bind
       (scan_roots F ns kd roots
          (insert_overrides F ns kd overrides (\<lparr>dm_selected = [], dm_shadowed = []\<rparr>, 0)))
       (\<lambda>(s, _). Inr \<lparr>ds_selected = sort_key c_precedence (bt_values (dm_selected s)),
                       ds_shadowed = dm_shadowed s, ds_roots = roots\<rparr>)"

fun dedup_roots :: "system \<Rightarrow> search_root list \<Rightarrow> search_root list \<Rightarrow> search_root list" where
  "dedup_roots F out [] = out"
| "dedup_roots F out (x # xs) =
     (if list_ex (\<lambda>e. same_file F (sr_path e) (sr_path x)) out then dedup_roots F out xs
      else dedup_roots F (out @ [x]) xs)"

definition all_roots :: "system \<Rightarrow> os_string list \<Rightarrow> string option \<Rightarrow> bool \<Rightarrow> search_root list" where
  "all_roots F explicit env include_path =
     map (\<lambda>p. \<lparr>sr_path = p, sr_source = ExplicitPath\<rparr>) explicit
     @ (case env of None \<Rightarrow> []
        | Some var \<Rightarrow>
            (case sys_var_os F var of None \<Rightarrow> []
             | Some v \<Rightarrow> map (\<lambda>p. \<lparr>sr_path = p, sr_source = Environment var\<rparr>) (split_paths v)))
     @ (if include_path
        then (case sys_var_os F ''PATH'' of None \<Rightarrow> []
              | Some v \<Rightarrow> map (\<lambda>p. \<lparr>sr_path = p, sr_source = SourcePath\<rparr>) (split_paths v))
        else [])"

definition build_roots :: "system \<Rightarrow> os_string list \<Rightarrow> string option \<Rightarrow> bool \<Rightarrow> search_root list" where
  "build_roots F explicit env include_path = dedup_roots F [] (all_roots F explicit env include_path)"

section \<open>What discovery means\<close>

text \<open>The executables discovery considers, in the order it considers them: the overrides, then the
  entries of each readable root in name order. A candidate's precedence is its position.\<close>

type_synonym hit = "plugin_id \<times> os_string \<times> discovery_source"

definition override_hits ::
    "namespace \<Rightarrow> plugin_kind \<Rightarrow> (plugin_name \<times> os_string) list \<Rightarrow> hit list" where
  "override_hits ns kd ovs = map (\<lambda>(m, p). (PluginId ns kd m, p, Override)) ovs"

definition entry_hits ::
    "system \<Rightarrow> namespace \<Rightarrow> plugin_kind \<Rightarrow> search_root \<Rightarrow> os_string list \<Rightarrow> hit list" where
  "entry_hits F ns kd root es =
     List.map_filter
       (\<lambda>e. let p = path_join (sr_path root) e in
            map_option (\<lambda>m. (PluginId ns kd m, p, sr_source root)) (entry_plugin_name F ns kd p)) es"

definition root_hits ::
    "system \<Rightarrow> namespace \<Rightarrow> plugin_kind \<Rightarrow> search_root \<Rightarrow> io_error + hit list" where
  "root_hits F ns kd root =
     (case sys_read_dir F (sr_path root) of
        Inr es \<Rightarrow> Inr (entry_hits F ns kd root (dir_entries es))
      | Inl e \<Rightarrow> if e = IoNotFound \<or> e = IoPermissionDenied then Inr [] else Inl e)"

definition found_hits ::
    "system \<Rightarrow> namespace \<Rightarrow> plugin_kind \<Rightarrow> search_root list \<Rightarrow> (plugin_name \<times> os_string) list
     \<Rightarrow> io_error + hit list" where
  "found_hits F ns kd roots ovs =
     res_bind (res_collect (root_hits F ns kd) roots) (\<lambda>hs. Inr (override_hits ns kd ovs @ concat hs))"

fun number_hits :: "nat \<Rightarrow> hit list \<Rightarrow> plugin_candidate list" where
  "number_hits n [] = []"
| "number_hits n ((i, p, src) # hs) =
     \<lparr>c_id = i, c_path = p, c_source = src, c_precedence = n\<rparr> # number_hits (Suc n) hs"

definition first_per_id :: "plugin_candidate list \<Rightarrow> plugin_candidate list" where
  "first_per_id cs = filter (\<lambda>c. find (\<lambda>d. c_id d = c_id c) cs = Some c) cs"

definition shadowed_by_first ::
    "system \<Rightarrow> plugin_candidate list \<Rightarrow> plugin_id \<Rightarrow> plugin_candidate list" where
  "shadowed_by_first F cs i =
     (case find (\<lambda>d. c_id d = i) cs of
        None \<Rightarrow> []
      | Some w \<Rightarrow> filter (\<lambda>c. c_id c = i \<and> \<not> same_file F (c_path w) (c_path c)) cs)"

lemma same_file_refl [simp]: "same_file F a a"
  by (simp add: same_file_def split: sum.splits)

lemma same_file_sym: "same_file F a b \<Longrightarrow> same_file F b a"
  by (auto simp: same_file_def path_eq_sym split: sum.splits)

section \<open>The interface of the candidate index\<close>

text \<open>An index in which the first candidate of a key wins and later ones are kept as losers unless
  they are the same file as the winner.\<close>

locale candidate_index =
  fixes insert_cand :: "'c \<Rightarrow> 's \<Rightarrow> 's"
    and winner :: "'s \<Rightarrow> 'k \<Rightarrow> 'c option"
    and losers :: "'s \<Rightarrow> 'k \<Rightarrow> 'c list"
    and key :: "'c \<Rightarrow> 'k"
    and same :: "'c \<Rightarrow> 'c \<Rightarrow> bool"
  assumes same_self: "same c c"
    and winner_insert: "winner (insert_cand c s) =
      (case winner s (key c) of None \<Rightarrow> (winner s)(key c \<mapsto> c) | Some _ \<Rightarrow> winner s)"
    and losers_insert: "losers (insert_cand c s) =
      (case winner s (key c) of
         None \<Rightarrow> losers s
       | Some w \<Rightarrow> if same w c then losers s else (losers s)(key c := losers s (key c) @ [c]))"
begin

lemma winner_fold:
  "winner (fold insert_cand cs s) k =
     (case winner s k of Some c \<Rightarrow> Some c | None \<Rightarrow> find (\<lambda>c. key c = k) cs)"
  by (induction cs arbitrary: s) (auto simp: winner_insert split: option.splits)

lemma losers_fold:
  "losers (fold insert_cand cs s) k = losers s k @
     (case winner (fold insert_cand cs s) k of
        None \<Rightarrow> [] | Some w \<Rightarrow> filter (\<lambda>c. key c = k \<and> \<not> same w c) cs)"
proof (induction cs arbitrary: s)
  case Nil
  then show ?case by (simp split: option.splits)
next
  case (Cons c cs)
  show ?case
    using Cons.IH[of "insert_cand c s"]
    by (auto simp: winner_fold winner_insert losers_insert same_self split: option.splits if_splits)
qed

end

definition dm_losers :: "discovery_maps \<Rightarrow> plugin_id \<Rightarrow> plugin_candidate list" where
  "dm_losers s i = (case bt_get (dm_shadowed s) i of None \<Rightarrow> [] | Some cs \<Rightarrow> cs)"

interpretation discovered: candidate_index "discover_insert F" "\<lambda>s. bt_get (dm_selected s)" dm_losers
    c_id "\<lambda>a b. same_file F (c_path a) (c_path b)" for F
proof unfold_locales
  show "same_file F (c_path c) (c_path c)" for c by simp
  show "bt_get (dm_selected (discover_insert F c s)) =
      (case bt_get (dm_selected s) (c_id c) of
         None \<Rightarrow> (bt_get (dm_selected s))(c_id c \<mapsto> c) | Some _ \<Rightarrow> bt_get (dm_selected s))" for c s
    by (auto simp: discover_insert_def fun_eq_iff split: option.splits)
  show "dm_losers (discover_insert F c s) =
      (case bt_get (dm_selected s) (c_id c) of
         None \<Rightarrow> dm_losers s
       | Some w \<Rightarrow> if same_file F (c_path w) (c_path c) then dm_losers s
                   else (dm_losers s)(c_id c := dm_losers s (c_id c) @ [c]))" for c s
    by (auto simp: discover_insert_def dm_losers_def fun_eq_iff split: option.splits)
qed

section \<open>The loops are folds of insertions\<close>

lemma number_hits_append:
  "number_hits n (xs @ ys) = number_hits n xs @ number_hits (n + length xs) ys"
  by (induction n xs rule: number_hits.induct) simp_all

lemma length_number_hits [simp]: "length (number_hits n hs) = length hs"
  by (induction n hs rule: number_hits.induct) simp_all

lemma number_hits_precedence: "map c_precedence (number_hits n hs) = [n..<n + length hs]"
  by (induction n hs rule: number_hits.induct) (simp_all add: upt_conv_Cons del: upt_Suc)

lemma set_number_hits:
  "c \<in> set (number_hits n hs) \<Longrightarrow> (c_id c, c_path c, c_source c) \<in> set hs"
  by (induction n hs rule: number_hits.induct) auto

lemma insert_overrides_fold:
  "insert_overrides F ns kd ovs (s, n) =
     (fold (discover_insert F) (number_hits n (override_hits ns kd ovs)) s, n + length ovs)"
  by (induction F ns kd ovs "(s, n)" arbitrary: s n rule: insert_overrides.induct)
    (simp_all add: override_hits_def)

lemma entry_hits_Cons:
  "entry_hits F ns kd root (e # es) =
     (case entry_plugin_name F ns kd (path_join (sr_path root) e) of
        None \<Rightarrow> entry_hits F ns kd root es
      | Some m \<Rightarrow> (PluginId ns kd m, path_join (sr_path root) e, sr_source root)
                   # entry_hits F ns kd root es)"
  by (simp add: entry_hits_def List.map_filter_simps Let_def split: option.splits)

lemma scan_entries_fold:
  "scan_entries F ns kd root es (s, n) =
     (fold (discover_insert F) (number_hits n (entry_hits F ns kd root es)) s,
      n + length (entry_hits F ns kd root es))"
proof (induction es arbitrary: s n)
  case Nil
  then show ?case by (simp add: entry_hits_def List.map_filter_simps)
next
  case (Cons e es)
  then show ?case by (simp add: entry_hits_Cons Let_def split: option.splits)
qed

lemma scan_roots_fold:
  "scan_roots F ns kd roots (s, n) =
     res_bind (res_collect (root_hits F ns kd) roots) (\<lambda>hs.
       Inr (fold (discover_insert F) (number_hits n (concat hs)) s, n + length (concat hs)))"
proof (induction roots arbitrary: s n)
  case Nil
  then show ?case by simp
next
  case (Cons r roots)
  then show ?case
    by (auto simp: root_hits_def scan_entries_fold number_hits_append add.assoc split: sum.splits)
qed

lemma discover_fold:
  "discover_in_roots F ns kd roots ovs =
     res_bind (found_hits F ns kd roots ovs) (\<lambda>hs.
       let s = fold (discover_insert F) (number_hits 0 hs) \<lparr>dm_selected = [], dm_shadowed = []\<rparr> in
       Inr \<lparr>ds_selected = sort_key c_precedence (bt_values (dm_selected s)),
            ds_shadowed = dm_shadowed s, ds_roots = roots\<rparr>)"
  by (cases "res_collect (root_hits F ns kd) roots")
    (simp_all add: discover_in_roots_def insert_overrides_fold scan_roots_fold found_hits_def
      number_hits_append override_hits_def Let_def)

section \<open>The maps of a run\<close>

definition maps_wf :: "discovery_maps \<Rightarrow> bool" where
  "maps_wf s \<longleftrightarrow> bt_wf (dm_selected s) \<and> bt_wf (dm_shadowed s)
     \<and> list_all (\<lambda>(k, c). c_id c = k) (dm_selected s)
     \<and> (\<forall>i cs. bt_get (dm_shadowed s) i = Some cs \<longrightarrow> cs \<noteq> [])"

lemma set_bt_insert: "set (bt_insert k v m) \<subseteq> insert (k, v) (set m)"
  by (induction k v m rule: bt_insert.induct) auto

lemma maps_wf_empty [simp]: "maps_wf \<lparr>dm_selected = [], dm_shadowed = []\<rparr>"
  by (simp add: maps_wf_def)

lemma maps_wf_insert: "maps_wf s \<Longrightarrow> maps_wf (discover_insert F c s)"
  using set_bt_insert[of "c_id c" c "dm_selected s"]
  by (auto simp: maps_wf_def discover_insert_def list_all_iff split: option.splits)

lemma maps_wf_fold: "maps_wf s \<Longrightarrow> maps_wf (fold (discover_insert F) cs s)"
  by (induction cs arbitrary: s) (simp_all add: maps_wf_insert)

abbreviation run_maps :: "system \<Rightarrow> plugin_candidate list \<Rightarrow> discovery_maps" where
  "run_maps F cs \<equiv> fold (discover_insert F) cs \<lparr>dm_selected = [], dm_shadowed = []\<rparr>"

lemma run_selected: "bt_get (dm_selected (run_maps F cs)) i = find (\<lambda>c. c_id c = i) cs"
  by (simp add: discovered.winner_fold)

lemma run_shadowed:
  "bt_get (dm_shadowed (run_maps F cs)) i =
     (if shadowed_by_first F cs i = [] then None else Some (shadowed_by_first F cs i))"
proof -
  have l: "dm_losers (run_maps F cs) i = shadowed_by_first F cs i"
    using discovered.losers_fold[of F cs "\<lparr>dm_selected = [], dm_shadowed = []\<rparr>" i]
    by (simp add: run_selected shadowed_by_first_def dm_losers_def)
  have "maps_wf (run_maps F cs)" by (rule maps_wf_fold) simp
  then have "bt_get (dm_shadowed (run_maps F cs)) i \<noteq> Some []" by (auto simp: maps_wf_def)
  with l show ?thesis by (auto simp: dm_losers_def split: option.splits)
qed

lemma run_values:
  "set (bt_values (dm_selected (run_maps F cs))) = set (first_per_id cs)"
proof -
  have "maps_wf (run_maps F cs)" by (rule maps_wf_fold) simp
  then have "set (bt_values (dm_selected (run_maps F cs))) = ran (\<lambda>i. find (\<lambda>c. c_id c = i) cs)"
    using run_selected[of F cs] by (simp only: maps_wf_def bt_values_set)
  also have "\<dots> = set (first_per_id cs)"
  proof (intro set_eqI iffI)
    fix c
    assume "c \<in> ran (\<lambda>i. find (\<lambda>c. c_id c = i) cs)"
    then obtain i where i: "find (\<lambda>c. c_id c = i) cs = Some c" by (auto simp: ran_def)
    then show "c \<in> set (first_per_id cs)"
      using find_SomeD[OF i] by (simp add: first_per_id_def)
  next
    fix c
    assume "c \<in> set (first_per_id cs)"
    then show "c \<in> ran (\<lambda>i. find (\<lambda>c. c_id c = i) cs)"
      by (intro ranI[of _ "c_id c"]) (simp add: first_per_id_def)
  qed
  finally show ?thesis .
qed

lemma run_sorted:
  assumes d: "distinct (map c_precedence cs)" and o: "sorted (map c_precedence cs)"
  shows "sort_key c_precedence (bt_values (dm_selected (run_maps F cs))) = first_per_id cs"
proof (rule sort_key_inj_key_eq)
  let ?m = "dm_selected (run_maps F cs)"
  have "maps_wf (run_maps F cs)" by (rule maps_wf_fold) simp
  then have "map fst ?m = map c_id (bt_values ?m)" "distinct (map fst ?m)"
    by (auto simp: maps_wf_def list_all_iff dest: bt_wf_distinct)
  then have dv: "distinct (bt_values ?m)" using distinct_map by metis
  have df: "distinct (first_per_id cs)" using d by (simp add: first_per_id_def distinct_map)
  show "mset (bt_values ?m) = mset (first_per_id cs)"
    using run_values[of F cs] dv df set_eq_iff_mset_eq_distinct by blast
  show "inj_on c_precedence (set (bt_values ?m))"
    using d unfolding run_values by (auto simp: distinct_map first_per_id_def intro: inj_on_subset)
  show "sorted (map c_precedence (first_per_id cs))"
    using o unfolding first_per_id_def by (rule sorted_filter)
qed

lemma discover_result:
  assumes "found_hits F ns kd roots ovs = Inr hs"
  shows "discover_in_roots F ns kd roots ovs =
    Inr \<lparr>ds_selected = first_per_id (number_hits 0 hs),
         ds_shadowed = dm_shadowed (run_maps F (number_hits 0 hs)), ds_roots = roots\<rparr>"
  using assms
  by (simp add: discover_fold Let_def run_sorted number_hits_precedence)

lemma discover_ok_iff:
  "discover_in_roots F ns kd roots ovs = Inr ds \<longleftrightarrow>
     (\<exists>hs. found_hits F ns kd roots ovs = Inr hs
        \<and> ds = \<lparr>ds_selected = first_per_id (number_hits 0 hs),
                ds_shadowed = dm_shadowed (run_maps F (number_hits 0 hs)), ds_roots = roots\<rparr>)"
proof (cases "found_hits F ns kd roots ovs")
  case (Inl e)
  then show ?thesis by (simp add: discover_fold)
next
  case (Inr hs)
  then show ?thesis using discover_result[OF Inr] by auto
qed

section \<open>Entries and identities\<close>

lemma entry_plugin_name_Some:
  "entry_plugin_name F ns kd p = Some m \<longleftrightarrow>
     is_executable F p \<and> ident_ok False (as_str m)
     \<and> executable_file_name p = Some (executable_name (PluginId ns kd m))"
    (is "?L \<longleftrightarrow> ?R")
proof
  assume ?L
  then show ?R
    by (auto simp: entry_plugin_name_def executable_name_def strip_prefix_Some name_id.new_ok
        split: option.splits sum.splits if_splits)
next
  assume ?R
  then show ?L
    by (simp add: entry_plugin_name_def executable_name_prefix[simplified] name_id.new_as_str)
qed

lemma executable_file_name_join:
  assumes "plugin_id_ok i"
  shows "executable_file_name (path_join d (executable_name i)) = Some (executable_name i)"
  using executable_name_entry[OF assms]
  by (simp add: executable_file_name_def file_name_join to_str_def valid_utf8_ascii)

lemma hits_sound:
  assumes "found_hits F ns kd roots ovs = Inr hs" "(i, p, src) \<in> set hs"
  shows "pid_namespace i = ns \<and> pid_kind i = kd
    \<and> (src = Override \<and> (pid_name i, p) \<in> set ovs
       \<or> (\<exists>r \<in> set roots. src = sr_source r) \<and> is_executable F p \<and> ident_ok False (as_str (pid_name i))
          \<and> executable_file_name p = Some (executable_name i))"
proof -
  from assms(1) obtain hss where hss: "res_collect (root_hits F ns kd) roots = Inr hss"
    and hs: "hs = override_hits ns kd ovs @ concat hss"
    by (auto simp: found_hits_def res_simps)
  from assms(2) consider "(i, p, src) \<in> set (override_hits ns kd ovs)" | "(i, p, src) \<in> set (concat hss)"
    unfolding hs by auto
  then show ?thesis
  proof cases
    case 1
    then show ?thesis by (auto simp: override_hits_def)
  next
    case 2
    then obtain h where h: "h \<in> set hss" "(i, p, src) \<in> set h" by auto
    then obtain r where r: "r \<in> set roots" "root_hits F ns kd r = Inr h"
      using res_collect_mem[OF hss] by blast
    from r(2) h(2) obtain es where "(i, p, src) \<in> set (entry_hits F ns kd r (dir_entries es))"
      by (auto simp: root_hits_def split: sum.splits if_splits)
    then obtain m where "i = PluginId ns kd m" "src = sr_source r" "entry_plugin_name F ns kd p = Some m"
      by (auto simp: entry_hits_def List.map_filter_def Let_def)
    then show ?thesis using r(1) by (auto simp: entry_plugin_name_Some)
  qed
qed

lemma installed_entry:
  assumes "Inr (executable_name i) \<in> set es"
    and "is_executable F (path_join (sr_path r) (executable_name i))" "plugin_id_ok i"
  shows "(i, path_join (sr_path r) (executable_name i), sr_source r)
    \<in> set (entry_hits F (pid_namespace i) (pid_kind i) r (dir_entries es))"
proof -
  let ?p = "path_join (sr_path r) (executable_name i)"
  have "entry_plugin_name F (pid_namespace i) (pid_kind i) ?p = Some (pid_name i)"
    using assms(2,3) executable_file_name_join[OF assms(3)]
    by (simp add: entry_plugin_name_Some plugin_id_ok_def)
  moreover have "executable_name i \<in> set (dir_entries es)"
    using assms(1) by (force simp: dir_entries_def List.map_filter_def)
  ultimately show ?thesis by (force simp: entry_hits_def List.map_filter_def Let_def)
qed

lemma root_entry_hit:
  assumes "found_hits F ns kd roots ovs = Inr hs" and "r \<in> set roots"
    and "sys_read_dir F (sr_path r) = Inr es" "h \<in> set (entry_hits F ns kd r (dir_entries es))"
  shows "h \<in> set hs"
proof -
  from assms(1) obtain hss where hss: "res_collect (root_hits F ns kd) roots = Inr hss"
    and hs: "hs = override_hits ns kd ovs @ concat hss"
    by (auto simp: found_hits_def res_simps)
  show ?thesis
    using res_collect_arg[OF hss assms(2)] assms(3,4) unfolding hs by (auto simp: root_hits_def)
qed

lemma hit_listed:
  assumes "(i, p, src) \<in> set hs"
  shows "\<exists>c \<in> set (number_hits n hs). c_id c = i \<and> c_path c = p \<and> c_source c = src"
  using assms by (induction n hs rule: number_hits.induct) auto

lemma all_for_complete:
  assumes "found_hits F ns kd roots ovs = Inr hs" "discover_in_roots F ns kd roots ovs = Inr ds"
    and "c \<in> set (number_hits 0 hs)"
  shows "\<exists>d \<in> set (all_for ds (c_id c)). same_file F (c_path d) (c_path c)"
proof -
  let ?cs = "number_hits 0 hs"
  have ds: "ds = \<lparr>ds_selected = first_per_id ?cs, ds_shadowed = dm_shadowed (run_maps F ?cs), ds_roots = roots\<rparr>"
    using discover_result[OF assms(1)] assms(2) by simp
  obtain w where w: "find (\<lambda>d. c_id d = c_id c) ?cs = Some w"
    using assms(3) by (cases "find (\<lambda>d. c_id d = c_id c) ?cs") (auto simp: find_None_iff)
  have "w \<in> set ?cs" "c_id w = c_id c" using find_SomeD[OF w] by auto
  then have sel: "w \<in> set (filter (\<lambda>d. c_id d = c_id c) (first_per_id ?cs))"
    using w by (simp add: first_per_id_def)
  show ?thesis
  proof (cases "same_file F (c_path w) (c_path c)")
    case True
    then show ?thesis using sel unfolding ds all_for_def by auto
  next
    case False
    then have "c \<in> set (shadowed_by_first F ?cs (c_id c))"
      using w assms(3) by (simp add: shadowed_by_first_def)
    then have "c \<in> set (all_for ds (c_id c))"
      unfolding ds all_for_def by (auto simp: run_shadowed)
    then show ?thesis by (intro bexI[of _ c]) simp_all
  qed
qed

lemma find_first_per_id:
  assumes Q: "\<And>c. c \<in> set cs \<Longrightarrow> Q c = (c_id c = i)"
  shows "find Q (first_per_id cs) = find (\<lambda>c. c_id c = i) cs"
proof (cases "find Q (first_per_id cs)")
  case None
  have "find (\<lambda>c. c_id c = i) cs \<noteq> Some w" for w
  proof
    assume w: "find (\<lambda>c. c_id c = i) cs = Some w"
    have c: "w \<in> set cs" "c_id w = i" using find_SomeD[OF w] by auto
    with w have "w \<in> set (first_per_id cs)" by (simp add: first_per_id_def)
    with None Q[OF c(1)] c(2) show False by (simp add: find_None)
  qed
  with None show ?thesis by (cases "find (\<lambda>c. c_id c = i) cs") auto
next
  case (Some c)
  have "c \<in> set (first_per_id cs)" "Q c" using find_SomeD[OF Some] by auto
  then have "c \<in> set cs" "find (\<lambda>d. c_id d = c_id c) cs = Some c" by (simp_all add: first_per_id_def)
  with Q[of c] \<open>Q c\<close> Some show ?thesis by simp
qed

lemma selected_by_name_first:
  assumes "found_hits F ns kd roots ovs = Inr hs" "discover_in_roots F ns kd roots ovs = Inr ds"
  shows "selected_by_name ds m = find (\<lambda>c. c_id c = PluginId ns kd m) (number_hits 0 hs)"
proof -
  have "c_id c = PluginId ns kd m \<longleftrightarrow> pid_name (c_id c) = m" if "c \<in> set (number_hits 0 hs)" for c
    using hits_sound[OF assms(1) set_number_hits[OF that]] by (cases "c_id c") auto
  then show ?thesis
    using discover_result[OF assms(1)] assms(2)
    by (simp add: selected_by_name_def find_first_per_id)
qed

lemma find_number_hits:
  "map_option (\<lambda>c. (c_path c, c_source c)) (find (\<lambda>c. c_id c = i) (number_hits n hs)) =
     map_option snd (find (\<lambda>h. fst h = i) hs)"
  by (induction n hs rule: number_hits.induct) auto

lemma find_append: "find P (xs @ ys) = (case find P xs of None \<Rightarrow> find P ys | Some x \<Rightarrow> Some x)"
  by (induction xs) simp_all

text \<open>What \<open>read_dir\<close> documents: entries are plain names.\<close>

definition plain_entries :: "(io_error + os_string) list \<Rightarrow> bool" where
  "plain_entries es = list_all (\<lambda>e. case e of Inl _ \<Rightarrow> True | Inr n \<Rightarrow> entry_name n) es"

lemma entry_hit_path:
  assumes "plain_entries es" "h \<in> set (entry_hits F ns kd r (dir_entries es))"
  shows "fst (snd h) = path_join (sr_path r) (executable_name (fst h))"
proof -
  from assms(2) obtain e m where e: "e \<in> set (dir_entries es)"
    and m: "entry_plugin_name F ns kd (path_join (sr_path r) e) = Some m"
    and h: "h = (PluginId ns kd m, path_join (sr_path r) e, sr_source r)"
    by (auto simp: entry_hits_def List.map_filter_def Let_def)
  have "entry_name e"
    using e assms(1)
    by (auto simp: dir_entries_def List.map_filter_def plain_entries_def list_all_iff split: sum.splits)
  then have "e = executable_name (PluginId ns kd m)"
    using m by (auto simp: entry_plugin_name_Some executable_file_name_def file_name_join to_str_def
        split: if_splits)
  then show ?thesis by (simp add: h)
qed

lemma first_root_hit:
  assumes "found_hits F (pid_namespace i) (pid_kind i) (r # roots) ovs = Inr hs"
    and "(i, p, src) \<in> set (entry_hits F (pid_namespace i) (pid_kind i) r (dir_entries es))"
    and "pid_name i \<notin> fst ` set ovs" "sys_read_dir F (sr_path r) = Inr es" "plain_entries es"
  shows "map_option (fst \<circ> snd) (find (\<lambda>h. fst h = i) hs) =
    Some (path_join (sr_path r) (executable_name i))"
proof -
  let ?es = "entry_hits F (pid_namespace i) (pid_kind i) r (dir_entries es)"
  obtain t where hs: "hs = override_hits (pid_namespace i) (pid_kind i) ovs @ ?es @ t"
    using assms(1,4) by (auto simp: found_hits_def res_simps root_hits_def split: sum.splits)
  have "find (\<lambda>h. fst h = i) (override_hits (pid_namespace i) (pid_kind i) ovs) = None"
    using assms(3) by (auto simp: find_None override_hits_def) (metis fst_conv image_eqI plugin_id.sel(3))
  moreover have "find (\<lambda>h. fst h = i) ?es \<noteq> None"
    using assms(2) by (auto simp: find_None intro!: bexI[of _ "(i, p, src)"])
  then obtain h where h: "find (\<lambda>h. fst h = i) ?es = Some h" by blast
  ultimately have "find (\<lambda>h. fst h = i) hs = Some h" unfolding hs by (simp add: find_append)
  moreover have "fst h = i" "fst (snd h) = path_join (sr_path r) (executable_name (fst h))"
    using find_SomeD[OF h] entry_hit_path[OF assms(5)] by blast+
  ultimately show ?thesis by simp
qed

lemma override_selected:
  assumes "discover_in_roots F ns kd roots ovs = Inr ds" and "bt_get ovs m = Some p"
  shows "map_option (\<lambda>c. (c_path c, c_source c)) (selected_by_name ds m) = Some (p, Override)"
proof -
  from assms(1) obtain hs hss where hs: "found_hits F ns kd roots ovs = Inr hs"
    and app: "hs = override_hits ns kd ovs @ concat hss"
    by (auto simp: discover_ok_iff found_hits_def res_simps)
  have "find (\<lambda>h. fst h = PluginId ns kd m) (override_hits ns kd ovs) = Some (PluginId ns kd m, p, Override)"
    using assms(2) by (induction ovs) (auto simp: override_hits_def split: if_splits)
  then have "find (\<lambda>h. fst h = PluginId ns kd m) hs = Some (PluginId ns kd m, p, Override)"
    unfolding app by (simp add: find_append)
  then show ?thesis
    using find_number_hits[of "PluginId ns kd m" 0 hs]
    by (simp add: selected_by_name_first[OF hs assms(1)])
qed

section \<open>Search roots\<close>

lemma dedup_roots_append: "\<exists>ys. dedup_roots F out xs = out @ ys \<and> subseq ys xs"
proof (induction xs arbitrary: out)
  case Nil
  then show ?case by simp
next
  case (Cons x xs)
  show ?case
  proof (cases "list_ex (\<lambda>e. same_file F (sr_path e) (sr_path x)) out")
    case True
    then show ?thesis using Cons.IH[of out] by auto
  next
    case False
    then show ?thesis using Cons.IH[of "out @ [x]"] by auto
  qed
qed

lemma dedup_roots_distinct:
  "sorted_wrt (\<lambda>a b. \<not> same_file F (sr_path a) (sr_path b)) out \<Longrightarrow>
   sorted_wrt (\<lambda>a b. \<not> same_file F (sr_path a) (sr_path b)) (dedup_roots F out xs)"
  by (induction F out xs rule: dedup_roots.induct) (auto simp: sorted_wrt_append list_ex_iff)

lemma dedup_roots_keeps: "set out \<subseteq> set (dedup_roots F out xs)"
  by (induction F out xs rule: dedup_roots.induct) auto

lemma dedup_roots_covers:
  "list_all (\<lambda>x. list_ex (\<lambda>e. same_file F (sr_path e) (sr_path x)) (dedup_roots F out xs)) xs"
proof (induction F out xs rule: dedup_roots.induct)
  case (1 F out)
  then show ?case by simp
next
  case (2 F out x xs)
  then show ?case
    using dedup_roots_keeps[of out F xs] dedup_roots_keeps[of "out @ [x]" F xs]
    by (cases "list_ex (\<lambda>e. same_file F (sr_path e) (sr_path x)) out")
      (auto simp: list_ex_iff intro: bexI[of _ x])
qed

section \<open>Properties\<close>

text \<open>C8. Discovery refines its specification. It fails exactly when a root cannot be listed for a
  reason other than absence or permission, with that error. Otherwise it selects, for each plugin id,
  the first executable found (overrides first, then the roots in order, each in name order), in the
  order found, and shadows every later executable of the id that is not the same file.\<close>

theorem discovery_refines_first_wins:
  "case found_hits F ns kd roots ovs of
     Inl e \<Rightarrow> discover_in_roots F ns kd roots ovs = Inl e
   | Inr hs \<Rightarrow>
       let cs = number_hits 0 hs in
       \<exists>ds. discover_in_roots F ns kd roots ovs = Inr ds \<and> ds_selected ds = first_per_id cs
         \<and> ds_roots ds = roots
         \<and> (\<forall>i. bt_get (ds_shadowed ds) i =
               (if shadowed_by_first F cs i = [] then None else Some (shadowed_by_first F cs i)))"
  by (cases "found_hits F ns kd roots ovs")
    (simp_all add: discover_result run_shadowed Let_def, simp add: discover_fold)

text \<open>Every candidate discovery reports outside the overrides is an executable regular file in
  a search root whose file name is exactly the executable name of the candidate's id, and the id has
  the namespace and kind that were asked for and a valid name.\<close>

theorem discovered_candidates_sound:
  assumes "discover_in_roots F ns kd roots ovs = Inr ds" and "c \<in> set (all_for ds i)"
    and "c_source c \<noteq> Override"
  shows "is_executable F (c_path c) \<and> executable_file_name (c_path c) = Some (executable_name (c_id c))
    \<and> c_id c = i \<and> pid_namespace i = ns \<and> pid_kind i = kd \<and> ident_ok False (as_str (pid_name i))"
proof -
  from assms(1) obtain hs where hs: "found_hits F ns kd roots ovs = Inr hs"
    and ds: "ds = \<lparr>ds_selected = first_per_id (number_hits 0 hs),
                  ds_shadowed = dm_shadowed (run_maps F (number_hits 0 hs)), ds_roots = roots\<rparr>"
    by (auto simp: discover_ok_iff)
  have c: "c \<in> set (number_hits 0 hs) \<and> c_id c = i"
    using assms(2) unfolding ds all_for_def
    by (auto simp: first_per_id_def run_shadowed shadowed_by_first_def split: option.splits if_splits)
  from hits_sound[OF hs set_number_hits[OF conjunct1[OF c]]] assms(3) c show ?thesis by auto
qed

text \<open>A small system for the witnesses: one directory with a plugin and a file that is none.\<close>

definition sample_system :: system where
  "sample_system =
     \<lparr>sys_read_dir = (\<lambda>d. if d = ''/p'' then Inr [Inr ''readme'', Inr ''app-engine-test''] else Inl IoNotFound),
      sys_metadata = (\<lambda>p. if p = ''/p/app-engine-test'' \<or> p = ''/o/mine''
        then Inr \<lparr>fm_is_file = True, fm_mode = 493, fm_len = 10, fm_modified = Some 7\<rparr> else Inl IoNotFound),
      sys_canonicalize = Inr,
      sys_var_os = (\<lambda>v. if v = ''PATH'' then Some ''/p:/q:/p'' else None),
      sys_hash = (\<lambda>b. word_of_nat (length b))\<rparr>"

definition sample_root :: search_root where
  "sample_root = \<lparr>sr_path = ''/p'', sr_source = SourcePath\<rparr>"

definition sample_candidate :: plugin_candidate where
  "sample_candidate = \<lparr>c_id = PluginId (Ident ''app'') (Ident ''engine'') (Ident ''test''),
     c_path = ''/p/app-engine-test'', c_source = SourcePath, c_precedence = 0\<rparr>"

lemma sample_discovery:
  "discover_in_roots sample_system (Ident ''app'') (Ident ''engine'') [sample_root] [] =
     Inr \<lparr>ds_selected = [sample_candidate], ds_shadowed = [], ds_roots = [sample_root]\<rparr>"
  by code_simp

theorem discovered_candidates_sound_witness:
  "is_executable sample_system (c_path sample_candidate)
   \<and> executable_file_name (c_path sample_candidate) = Some (executable_name (c_id sample_candidate))
   \<and> c_id sample_candidate = PluginId (Ident ''app'') (Ident ''engine'') (Ident ''test'')
   \<and> pid_namespace (PluginId (Ident ''app'') (Ident ''engine'') (Ident ''test'')) = Ident ''app''
   \<and> pid_kind (PluginId (Ident ''app'') (Ident ''engine'') (Ident ''test'')) = Ident ''engine''
   \<and> ident_ok False (as_str (pid_name (PluginId (Ident ''app'') (Ident ''engine'') (Ident ''test''))))"
  by (rule discovered_candidates_sound[OF sample_discovery])
    (simp_all add: all_for_def sample_candidate_def)

text \<open>C23. A plugin that is installed is found: if a search root lists an entry with the executable
  name of a valid id and the entry is executable, discovery reports that file (or one that is the same
  file) for the id; if the root is the first and the name has no override, it is the selected one.\<close>

theorem installed_plugin_discovered:
  assumes "discover_in_roots F (pid_namespace i) (pid_kind i) roots ovs = Inr ds"
    and "r \<in> set roots" "sys_read_dir F (sr_path r) = Inr es" "plain_entries es"
    and "Inr (executable_name i) \<in> set es"
    and "is_executable F (path_join (sr_path r) (executable_name i))" "plugin_id_ok i"
  shows "(\<exists>c \<in> set (all_for ds i). same_file F (c_path c) (path_join (sr_path r) (executable_name i)))
    \<and> (hd roots = r \<and> pid_name i \<notin> fst ` set ovs \<longrightarrow>
         map_option c_path (selected_by_name ds (pid_name i))
           = Some (path_join (sr_path r) (executable_name i)))"
proof -
  let ?p = "path_join (sr_path r) (executable_name i)"
  from assms(1) obtain hs where hs: "found_hits F (pid_namespace i) (pid_kind i) roots ovs = Inr hs"
    by (auto simp: discover_ok_iff)
  note entry = installed_entry[where r = r, OF assms(5-7)]
  obtain c where c: "c \<in> set (number_hits 0 hs)" "c_id c = i" "c_path c = ?p"
    using hit_listed[OF root_entry_hit[OF hs assms(2,3) entry]] by blast
  have all: "\<exists>c \<in> set (all_for ds i). same_file F (c_path c) ?p"
    using all_for_complete[OF hs assms(1) c(1)] c by simp
  have sel: "map_option c_path (selected_by_name ds (pid_name i)) = Some ?p"
    if first: "hd roots = r" "pid_name i \<notin> fst ` set ovs"
  proof -
    obtain roots' where "roots = r # roots'" using first(1) assms(2) by (cases roots) auto
    then have "map_option (fst \<circ> snd) (find (\<lambda>h. fst h = i) hs) = Some ?p"
      using first_root_hit[OF _ entry first(2) assms(3,4)] hs by blast
    then show ?thesis
      using arg_cong[OF find_number_hits[of i 0 hs], of "map_option fst"]
        selected_by_name_first[OF hs assms(1), of "pid_name i"]
      by (simp add: option.map_comp comp_def)
  qed
  show ?thesis using all sel by blast
qed

theorem installed_plugin_discovered_witness:
  "\<exists>ds. discover_in_roots sample_system (Ident ''app'') (Ident ''engine'') [sample_root] [] = Inr ds
    \<and> map_option c_path (selected_by_name ds (Ident ''test'')) = Some ''/p/app-engine-test''"
proof -
  let ?i = "PluginId (Ident ''app'') (Ident ''engine'') (Ident ''test'')"
  let ?es = "[Inr ''readme'', Inr ''app-engine-test'']"
  have exe: "executable_name ?i = ''app-engine-test''" by code_simp
  have path: "path_join (sr_path sample_root) (executable_name ?i) = ''/p/app-engine-test''"
    by code_simp
  have d: "discover_in_roots sample_system (pid_namespace ?i) (pid_kind ?i) [sample_root] [] =
      Inr \<lparr>ds_selected = [sample_candidate], ds_shadowed = [], ds_roots = [sample_root]\<rparr>"
    by (simp add: sample_discovery)
  have x: "is_executable sample_system (path_join (sr_path sample_root) (executable_name ?i))"
    "plain_entries ?es" "plugin_id_ok ?i"
    by code_simp+
  have r: "sys_read_dir sample_system (sr_path sample_root) = Inr ?es"
    by (simp add: sample_system_def sample_root_def)
  show ?thesis
    using installed_plugin_discovered[OF d _ r x(2) _ x(1,3)] d path by (simp add: exe)
qed

text \<open>An override decides: whatever the search roots hold, the selected candidate of a name
  with an override is the override's path.\<close>

theorem override_is_selected:
  assumes "discover_in_roots F ns kd roots ovs = Inr ds" and "bt_get ovs m = Some p"
  shows "map_option (\<lambda>c. (c_path c, c_source c)) (selected_by_name ds m) = Some (p, Override)"
  by (rule override_selected[OF assms])

theorem override_is_selected_witness:
  "\<exists>ds. discover_in_roots sample_system (Ident ''app'') (Ident ''engine'') [sample_root]
          [(Ident ''test'', ''/o/mine'')] = Inr ds
    \<and> map_option (\<lambda>c. (c_path c, c_source c)) (selected_by_name ds (Ident ''test''))
        = Some (''/o/mine'', Override)"
proof -
  let ?d = "discover_in_roots sample_system (Ident ''app'') (Ident ''engine'') [sample_root]
    [(Ident ''test'', ''/o/mine'')]"
  have "is_ok ?d" by code_simp
  then obtain ds where "?d = Inr ds" by (auto simp: is_ok_iff)
  with override_is_selected[OF this, of "Ident ''test''" "''/o/mine''"] show ?thesis by simp
qed

text \<open>The search roots are the explicit directories, then those of the environment variable,
  then \<open>PATH\<close>, in order; no directory is searched twice and none is lost.\<close>

theorem search_roots_deduplicated:
  "subseq (build_roots F ex env inc) (all_roots F ex env inc)
   \<and> sorted_wrt (\<lambda>a b. \<not> same_file F (sr_path a) (sr_path b)) (build_roots F ex env inc)
   \<and> list_all (\<lambda>r. list_ex (\<lambda>e. same_file F (sr_path e) (sr_path r)) (build_roots F ex env inc))
       (all_roots F ex env inc)"
  using dedup_roots_append[of F "[]" "all_roots F ex env inc"]
    dedup_roots_distinct[of F "[]" "all_roots F ex env inc"]
    dedup_roots_covers[of F "[]" "all_roots F ex env inc"]
  by (auto simp: build_roots_def)

end
