(* ===== verification/External.thy ===== *)
theory External
  imports Outboard_Prelude
begin

text \<open>
  The crates the sources call and do not contain. \<open>Version\<close>, \<open>VersionReq\<close> (semver) and \<open>Value\<close>
  (\<open>serde_json\<close>) are the type variables \<open>'v\<close>, \<open>'r\<close> and \<open>'j\<close>; what the sources use of
  these crates is the record \<open>crates\<close>, an argument of the definitions that call them. The four
  versions the sources parse from literals with \<open>expect\<close> or \<open>unwrap\<close> are fields of it: the value
  the parser returns for that literal.
\<close>

record ('v, 'r, 'j) crates =
  req_matches :: "'r \<Rightarrow> 'v \<Rightarrow> bool"
  framework_version :: "'v"
  protocol_version :: "'v"
  caret_framework :: "'r"
  caret_protocol :: "'r"
  show_version :: "'v \<Rightarrow> string"
  show_req :: "'r \<Rightarrow> string"
  show_json :: "'j \<Rightarrow> string"
  debug_version :: "'v option \<Rightarrow> string"
  debug_json :: "'j option \<Rightarrow> string"

text \<open>What semver documents of a caret requirement and the sources rely on: \<open>^v\<close> accepts \<open>v\<close>.\<close>

definition caret_accepts_own :: "('v, 'r, 'j) crates \<Rightarrow> bool" where
  "caret_accepts_own X \<longleftrightarrow>
     req_matches X (caret_framework X) (framework_version X)
     \<and> req_matches X (caret_protocol X) (protocol_version X)"

section \<open>An instance\<close>

text \<open>Release versions, caret requirements and text values: an instance of the parameters on which
  the witnesses evaluate the model.\<close>

type_synonym version3 = "nat \<times> nat \<times> nat"

definition caret_matches :: "version3 \<Rightarrow> version3 \<Rightarrow> bool" where
  "caret_matches r v =
     (case (r, v) of ((a, b, c), (x, y, z)) \<Rightarrow>
        (a, b, c) \<le> (x, y, z) \<and>
        (if a \<noteq> 0 then x = a else if b \<noteq> 0 then x = 0 \<and> y = b else x = 0 \<and> y = 0 \<and> z = c))"

definition caret_crates :: "(version3, version3, string) crates" where
  "caret_crates =
     \<lparr>req_matches = caret_matches,
      framework_version = (0, 1, 0), protocol_version = (1, 0, 0),
      caret_framework = (0, 1, 0), caret_protocol = (1, 0, 0),
      show_version = (\<lambda>_. ''v''), show_req = (\<lambda>_. ''^v''), show_json = id,
      debug_version = (\<lambda>_. ''v''), debug_json = (\<lambda>_. ''j'')\<rparr>"

lemma caret_crates_simps [simp]:
  "req_matches caret_crates = caret_matches"
  "framework_version caret_crates = (0, 1, 0)"
  "protocol_version caret_crates = (1, 0, 0)"
  "caret_framework caret_crates = (0, 1, 0)"
  "caret_protocol caret_crates = (1, 0, 0)"
  by (simp_all add: caret_crates_def)

lemma caret_crates_accepts_own [simp]: "caret_accepts_own caret_crates"
  by (simp add: caret_accepts_own_def caret_matches_def)

end
