(* ===== verification/Manifest.thy ===== *)
theory Manifest
  imports Identifier External
begin

text \<open>
  Manifests and requirements: \<open>src/crates/outboard-core/src/manifest.rs\<close>. The records keep the
  structs' fields; \<open>validate\<close>, \<open>compatibility_issues\<close> and the builders are translated branch by
  branch. \<open>compatible\<close> is the declarative contract that an empty issue list stands for, and
  \<open>issue_true\<close> says of each reported issue what it asserts.
\<close>

section \<open>Data\<close>

definition MANIFEST_VERSION :: u32 where
  "MANIFEST_VERSION = 1"

record 'v plugin_metadata =
  pm_id :: plugin_id
  pm_version :: "'v"
  pm_description :: "string option"
  pm_homepage :: "string option"

datatype execution_mode = OneShot | Worker

record 'v interface_manifest =
  im_id :: interface_id
  im_version :: "'v"

record ('v, 'j) capability =
  cap_id :: capability_id
  cap_version :: "'v option"
  cap_properties :: "(string, 'j) btree"

record control_capabilities =
  cc_doctor :: bool
  cc_cli_schema :: bool
  cc_ping :: bool

definition control_capabilities_default :: control_capabilities where
  "control_capabilities_default = \<lparr>cc_doctor = True, cc_cli_schema = False, cc_ping = True\<rparr>"

record ('v, 'r, 'j) manifest =
  m_version :: u32
  m_plugin :: "'v plugin_metadata"
  m_framework :: "'r"
  m_worker_protocol :: "'r"
  m_interfaces :: "'v interface_manifest list"
  m_execution :: "execution_mode list"
  m_capabilities :: "('v, 'j) capability list"
  m_control :: control_capabilities
  m_metadata :: "(string, 'j) btree"

datatype manifest_error =
    UnsupportedManifestVersion u32
  | MissingExecutionMode
  | DuplicateInterface string
  | DuplicateCapability string
  | InvalidIdentifier identifier_error

record 'r interface_requirement =
  ir_id :: interface_id
  ir_version :: "'r"

record ('r, 'j) capability_requirement =
  cr_id :: capability_id
  cr_version :: "'r option"
  cr_properties :: "(string, 'j) btree"

record ('r, 'j) plugin_requirement =
  pr_kind :: plugin_kind
  pr_name :: "plugin_name option"
  pr_interface :: "'r interface_requirement option"
  pr_capabilities :: "('r, 'j) capability_requirement list"
  pr_execution :: "execution_mode option"

datatype ('v, 'r, 'j) compatibility_issue =
    FrameworkIssue 'r 'v
  | WorkerProtocolIssue 'r 'v
  | WrongName plugin_name plugin_name
  | WrongKind plugin_kind plugin_kind
  | ExecutionModeIssue execution_mode
  | MissingInterface interface_id
  | InterfaceVersion interface_id 'r 'v
  | MissingCapability capability_id
  | CapabilityVersion capability_id 'r "'v option"
  | CapabilityProperty capability_id string 'j "'j option"

section \<open>Constructors\<close>

definition interface_manifest_new :: "string \<Rightarrow> 'v \<Rightarrow> identifier_error + 'v interface_manifest" where
  "interface_manifest_new i v =
     res_bind (interface_id_new i) (\<lambda>i'. Inr \<lparr>im_id = i', im_version = v\<rparr>)"

definition capability_new :: "string \<Rightarrow> identifier_error + ('v, 'j) capability" where
  "capability_new i =
     res_bind (capability_id_new i) (\<lambda>i'. Inr \<lparr>cap_id = i', cap_version = None, cap_properties = []\<rparr>)"

definition capability_with_version :: "'v \<Rightarrow> ('v, 'j) capability \<Rightarrow> ('v, 'j) capability" where
  "capability_with_version v c = c\<lparr>cap_version := Some v\<rparr>"

definition capability_property :: "string \<Rightarrow> 'j \<Rightarrow> ('v, 'j) capability \<Rightarrow> ('v, 'j) capability" where
  "capability_property k v c = c\<lparr>cap_properties := bt_insert k v (cap_properties c)\<rparr>"

definition interface_requirement_new ::
    "string \<Rightarrow> 'r \<Rightarrow> identifier_error + 'r interface_requirement" where
  "interface_requirement_new i v =
     res_bind (interface_id_new i) (\<lambda>i'. Inr \<lparr>ir_id = i', ir_version = v\<rparr>)"

definition capability_requirement_new ::
    "string \<Rightarrow> identifier_error + ('r, 'j) capability_requirement" where
  "capability_requirement_new i =
     res_bind (capability_id_new i) (\<lambda>i'. Inr \<lparr>cr_id = i', cr_version = None, cr_properties = []\<rparr>)"

definition capability_requirement_version ::
    "'r \<Rightarrow> ('r, 'j) capability_requirement \<Rightarrow> ('r, 'j) capability_requirement" where
  "capability_requirement_version v c = c\<lparr>cr_version := Some v\<rparr>"

definition capability_requirement_property ::
    "string \<Rightarrow> 'j \<Rightarrow> ('r, 'j) capability_requirement \<Rightarrow> ('r, 'j) capability_requirement" where
  "capability_requirement_property k v c = c\<lparr>cr_properties := bt_insert k v (cr_properties c)\<rparr>"

definition plugin_requirement_new :: "string \<Rightarrow> identifier_error + ('r, 'j) plugin_requirement" where
  "plugin_requirement_new k =
     res_bind (plugin_kind_new k) (\<lambda>k'.
       Inr \<lparr>pr_kind = k', pr_name = None, pr_interface = None, pr_capabilities = [],
            pr_execution = None\<rparr>)"

definition requirement_named ::
    "string \<Rightarrow> ('r, 'j) plugin_requirement \<Rightarrow> identifier_error + ('r, 'j) plugin_requirement" where
  "requirement_named n r = res_bind (plugin_name_new n) (\<lambda>n'. Inr (r\<lparr>pr_name := Some n'\<rparr>))"

definition requirement_interface ::
    "'r interface_requirement \<Rightarrow> ('r, 'j) plugin_requirement \<Rightarrow> ('r, 'j) plugin_requirement" where
  "requirement_interface i r = r\<lparr>pr_interface := Some i\<rparr>"

definition requirement_capability ::
    "('r, 'j) capability_requirement \<Rightarrow> ('r, 'j) plugin_requirement \<Rightarrow> ('r, 'j) plugin_requirement" where
  "requirement_capability c r = r\<lparr>pr_capabilities := pr_capabilities r @ [c]\<rparr>"

definition requirement_execution ::
    "execution_mode \<Rightarrow> ('r, 'j) plugin_requirement \<Rightarrow> ('r, 'j) plugin_requirement" where
  "requirement_execution e r = r\<lparr>pr_execution := Some e\<rparr>"

section \<open>Validation\<close>

text \<open>The two loops of \<open>validate\<close>: each re-validates an identifier, then inserts it into a
  \<open>BTreeSet\<close> and fails if it was there.\<close>

fun validate_unique ::
    "(string \<Rightarrow> identifier_error + 'k ident) \<Rightarrow> (string \<Rightarrow> manifest_error) \<Rightarrow> string set \<Rightarrow>
     string list \<Rightarrow> manifest_error + unit" where
  "validate_unique new dup ids [] = Inr ()"
| "validate_unique new dup ids (i # is) =
     res_bind (res_map_err InvalidIdentifier (new i)) (\<lambda>_.
       if i \<in> ids then Inl (dup i) else validate_unique new dup (insert i ids) is)"

definition validate :: "('v, 'r, 'j) manifest \<Rightarrow> manifest_error + unit" where
  "validate m =
     (if m_version m \<noteq> MANIFEST_VERSION then Inl (UnsupportedManifestVersion (m_version m))
      else
        let p = pm_id (m_plugin m) in
        res_bind (res_map_err InvalidIdentifier
          (plugin_id_new (as_str (pid_namespace p)) (as_str (pid_kind p)) (as_str (pid_name p)))) (\<lambda>_.
        if m_execution m = [] then Inl MissingExecutionMode
        else
          res_bind (validate_unique interface_id_new DuplicateInterface {}
            (map (\<lambda>i. as_str (im_id i)) (m_interfaces m))) (\<lambda>_.
          res_bind (validate_unique capability_id_new DuplicateCapability {}
            (map (\<lambda>c. as_str (cap_id c)) (m_capabilities m))) (\<lambda>_.
          Inr ()))))"

section \<open>Lookup and compatibility\<close>

definition m_interface :: "('v, 'r, 'j) manifest \<Rightarrow> interface_id \<Rightarrow> 'v interface_manifest option" where
  "m_interface m i = find (\<lambda>x. im_id x = i) (m_interfaces m)"

definition m_capability :: "('v, 'r, 'j) manifest \<Rightarrow> capability_id \<Rightarrow> ('v, 'j) capability option" where
  "m_capability m i = find (\<lambda>x. cap_id x = i) (m_capabilities m)"

definition supports :: "('v, 'r, 'j) manifest \<Rightarrow> execution_mode \<Rightarrow> bool" where
  "supports m mode = (mode \<in> set (m_execution m))"

definition framework_issues ::
    "('v, 'r, 'j) crates \<Rightarrow> ('v, 'r, 'j) manifest \<Rightarrow> ('v, 'r, 'j) compatibility_issue list" where
  "framework_issues X m =
     (if \<not> req_matches X (m_framework m) (framework_version X)
      then [FrameworkIssue (m_framework m) (framework_version X)] else [])"

definition identity_issues ::
    "('v, 'r, 'j) manifest \<Rightarrow> ('r, 'j) plugin_requirement \<Rightarrow> ('v, 'r, 'j) compatibility_issue list" where
  "identity_issues m req =
     (case pr_name req of
        Some n \<Rightarrow>
          if pid_name (pm_id (m_plugin m)) \<noteq> n
          then [WrongName n (pid_name (pm_id (m_plugin m)))] else []
      | None \<Rightarrow> [])
     @ (if pid_kind (pm_id (m_plugin m)) \<noteq> pr_kind req
        then [WrongKind (pr_kind req) (pid_kind (pm_id (m_plugin m)))] else [])"

definition mode_issues ::
    "('v, 'r, 'j) manifest \<Rightarrow> ('r, 'j) plugin_requirement \<Rightarrow> ('v, 'r, 'j) compatibility_issue list" where
  "mode_issues m req =
     (case pr_execution req of
        Some mode \<Rightarrow> if \<not> supports m mode then [ExecutionModeIssue mode] else []
      | None \<Rightarrow> [])"

definition interface_issues ::
    "('v, 'r, 'j) crates \<Rightarrow> ('v, 'r, 'j) manifest \<Rightarrow> ('r, 'j) plugin_requirement \<Rightarrow>
     ('v, 'r, 'j) compatibility_issue list" where
  "interface_issues X m req =
     (case pr_interface req of
        None \<Rightarrow> []
      | Some r \<Rightarrow>
          (case m_interface m (ir_id r) of
             None \<Rightarrow> [MissingInterface (ir_id r)]
           | Some i \<Rightarrow>
               if \<not> req_matches X (ir_version r) (im_version i)
               then [InterfaceVersion (ir_id r) (ir_version r) (im_version i)] else []))"

definition property_issues ::
    "capability_id \<Rightarrow> ('v, 'j) capability \<Rightarrow> (string, 'j) btree \<Rightarrow> ('v, 'r, 'j) compatibility_issue list" where
  "property_issues i c props =
     concat (map (\<lambda>(k, e).
       if bt_get (cap_properties c) k \<noteq> Some e
       then [CapabilityProperty i k e (bt_get (cap_properties c) k)] else []) props)"

definition capability_issues ::
    "('v, 'r, 'j) crates \<Rightarrow> ('v, 'r, 'j) manifest \<Rightarrow> ('r, 'j) capability_requirement \<Rightarrow>
     ('v, 'r, 'j) compatibility_issue list" where
  "capability_issues X m r =
     (case m_capability m (cr_id r) of
        None \<Rightarrow> [MissingCapability (cr_id r)]
      | Some c \<Rightarrow>
          (case cr_version r of
             None \<Rightarrow> []
           | Some vr \<Rightarrow>
               if (case cap_version c of None \<Rightarrow> True | Some v \<Rightarrow> \<not> req_matches X vr v)
               then [CapabilityVersion (cr_id r) vr (cap_version c)] else [])
          @ property_issues (cr_id r) c (cr_properties r))"

definition protocol_issues ::
    "('v, 'r, 'j) crates \<Rightarrow> ('v, 'r, 'j) manifest \<Rightarrow> ('r, 'j) plugin_requirement \<Rightarrow>
     ('v, 'r, 'j) compatibility_issue list" where
  "protocol_issues X m req =
     (if pr_execution req = Some Worker then
        if \<not> req_matches X (m_worker_protocol m) (protocol_version X)
        then [WorkerProtocolIssue (m_worker_protocol m) (protocol_version X)] else []
      else [])"

definition compatibility_issues ::
    "('v, 'r, 'j) crates \<Rightarrow> ('v, 'r, 'j) manifest \<Rightarrow> ('r, 'j) plugin_requirement \<Rightarrow>
     ('v, 'r, 'j) compatibility_issue list" where
  "compatibility_issues X m req =
     framework_issues X m @ identity_issues m req @ mode_issues m req @ interface_issues X m req
     @ concat (map (capability_issues X m) (pr_capabilities req)) @ protocol_issues X m req"

definition execution_mode_debug :: "execution_mode \<Rightarrow> string" where
  "execution_mode_debug e = (case e of OneShot \<Rightarrow> ''OneShot'' | Worker \<Rightarrow> ''Worker'')"

fun issue_to_string :: "('v, 'r, 'j) crates \<Rightarrow> ('v, 'r, 'j) compatibility_issue \<Rightarrow> string" where
  "issue_to_string X (FrameworkIssue r v) =
     ''plugin accepts Outboard '' @ show_req X r @ '', host is '' @ show_version X v"
| "issue_to_string X (WorkerProtocolIssue r v) =
     ''plugin accepts worker protocol '' @ show_req X r @ '', host uses '' @ show_version X v"
| "issue_to_string X (WrongName e a) =
     ''expected plugin '' @ as_str e @ '', found '' @ as_str a"
| "issue_to_string X (WrongKind e a) =
     ''expected kind '' @ as_str e @ '', found '' @ as_str a"
| "issue_to_string X (ExecutionModeIssue m) =
     ''plugin does not support execution mode '' @ execution_mode_debug m"
| "issue_to_string X (MissingInterface i) = ''plugin does not provide interface '' @ as_str i"
| "issue_to_string X (InterfaceVersion i r v) =
     ''interface '' @ as_str i @ '' requires '' @ show_req X r @ '', plugin provides ''
       @ show_version X v"
| "issue_to_string X (MissingCapability i) = ''plugin is missing capability '' @ as_str i"
| "issue_to_string X (CapabilityVersion i r v) =
     ''capability '' @ as_str i @ '' requires '' @ show_req X r @ '', plugin provides ''
       @ debug_version X v"
| "issue_to_string X (CapabilityProperty i k e a) =
     ''capability '' @ as_str i @ '' property '' @ k @ '' requires '' @ show_json X e
       @ '', plugin provides '' @ debug_json X a"

section \<open>The builder\<close>

record ('v, 'r, 'j) manifest_builder =
  mb_manifest :: "('v, 'r, 'j) manifest"

definition builder_new ::
    "('v, 'r, 'j) crates \<Rightarrow> plugin_id \<Rightarrow> 'v \<Rightarrow> ('v, 'r, 'j) manifest_builder" where
  "builder_new X i v =
     \<lparr>mb_manifest =
        \<lparr>m_version = MANIFEST_VERSION,
         m_plugin = \<lparr>pm_id = i, pm_version = v, pm_description = None, pm_homepage = None\<rparr>,
         m_framework = caret_framework X,
         m_worker_protocol = caret_protocol X,
         m_interfaces = [],
         m_execution = [OneShot],
         m_capabilities = [],
         m_control = control_capabilities_default,
         m_metadata = []\<rparr>\<rparr>"

definition builder_upd ::
    "(('v, 'r, 'j) manifest \<Rightarrow> ('v, 'r, 'j) manifest) \<Rightarrow> ('v, 'r, 'j) manifest_builder \<Rightarrow>
     ('v, 'r, 'j) manifest_builder" where
  "builder_upd f b = b\<lparr>mb_manifest := f (mb_manifest b)\<rparr>"

definition builder_description ::
    "string \<Rightarrow> ('v, 'r, 'j) manifest_builder \<Rightarrow> ('v, 'r, 'j) manifest_builder" where
  "builder_description s = builder_upd (\<lambda>m. m\<lparr>m_plugin := (m_plugin m)\<lparr>pm_description := Some s\<rparr>\<rparr>)"

definition builder_homepage ::
    "string \<Rightarrow> ('v, 'r, 'j) manifest_builder \<Rightarrow> ('v, 'r, 'j) manifest_builder" where
  "builder_homepage s = builder_upd (\<lambda>m. m\<lparr>m_plugin := (m_plugin m)\<lparr>pm_homepage := Some s\<rparr>\<rparr>)"

definition builder_framework ::
    "'r \<Rightarrow> ('v, 'r, 'j) manifest_builder \<Rightarrow> ('v, 'r, 'j) manifest_builder" where
  "builder_framework r = builder_upd (\<lambda>m. m\<lparr>m_framework := r\<rparr>)"

definition builder_worker_protocol ::
    "'r \<Rightarrow> ('v, 'r, 'j) manifest_builder \<Rightarrow> ('v, 'r, 'j) manifest_builder" where
  "builder_worker_protocol r = builder_upd (\<lambda>m. m\<lparr>m_worker_protocol := r\<rparr>)"

definition builder_interface ::
    "'v interface_manifest \<Rightarrow> ('v, 'r, 'j) manifest_builder \<Rightarrow> ('v, 'r, 'j) manifest_builder" where
  "builder_interface i = builder_upd (\<lambda>m. m\<lparr>m_interfaces := m_interfaces m @ [i]\<rparr>)"

definition builder_capability ::
    "('v, 'j) capability \<Rightarrow> ('v, 'r, 'j) manifest_builder \<Rightarrow> ('v, 'r, 'j) manifest_builder" where
  "builder_capability c = builder_upd (\<lambda>m. m\<lparr>m_capabilities := m_capabilities m @ [c]\<rparr>)"

definition builder_execution ::
    "execution_mode list \<Rightarrow> ('v, 'r, 'j) manifest_builder \<Rightarrow> ('v, 'r, 'j) manifest_builder" where
  "builder_execution es = builder_upd (\<lambda>m. m\<lparr>m_execution := es\<rparr>)"

definition builder_control ::
    "control_capabilities \<Rightarrow> ('v, 'r, 'j) manifest_builder \<Rightarrow> ('v, 'r, 'j) manifest_builder" where
  "builder_control c = builder_upd (\<lambda>m. m\<lparr>m_control := c\<rparr>)"

definition builder_metadata ::
    "string \<Rightarrow> 'j \<Rightarrow> ('v, 'r, 'j) manifest_builder \<Rightarrow> ('v, 'r, 'j) manifest_builder" where
  "builder_metadata k v = builder_upd (\<lambda>m. m\<lparr>m_metadata := bt_insert k v (m_metadata m)\<rparr>)"

definition build :: "('v, 'r, 'j) manifest_builder \<Rightarrow> manifest_error + ('v, 'r, 'j) manifest" where
  "build b = res_bind (validate (mb_manifest b)) (\<lambda>_. Inr (mb_manifest b))"

section \<open>What validation and compatibility promise\<close>

definition manifest_wf :: "('v, 'r, 'j) manifest \<Rightarrow> bool" where
  "manifest_wf m \<longleftrightarrow>
     m_version m = MANIFEST_VERSION \<and> plugin_id_ok (pm_id (m_plugin m)) \<and> m_execution m \<noteq> []
     \<and> distinct (map im_id (m_interfaces m)) \<and> (\<forall>i \<in> set (m_interfaces m). ident_ok True (as_str (im_id i)))
     \<and> distinct (map cap_id (m_capabilities m))
     \<and> (\<forall>c \<in> set (m_capabilities m). ident_ok True (as_str (cap_id c)))"

definition capability_satisfies ::
    "('v, 'r, 'j) crates \<Rightarrow> ('v, 'j) capability \<Rightarrow> ('r, 'j) capability_requirement \<Rightarrow> bool" where
  "capability_satisfies X c r \<longleftrightarrow>
     (\<forall>vr. cr_version r = Some vr \<longrightarrow> (\<exists>v. cap_version c = Some v \<and> req_matches X vr v))
     \<and> (\<forall>(k, e) \<in> set (cr_properties r). bt_get (cap_properties c) k = Some e)"

definition compatible ::
    "('v, 'r, 'j) crates \<Rightarrow> ('v, 'r, 'j) manifest \<Rightarrow> ('r, 'j) plugin_requirement \<Rightarrow> bool" where
  "compatible X m req \<longleftrightarrow>
     req_matches X (m_framework m) (framework_version X)
     \<and> pid_kind (pm_id (m_plugin m)) = pr_kind req
     \<and> (\<forall>n. pr_name req = Some n \<longrightarrow> pid_name (pm_id (m_plugin m)) = n)
     \<and> (\<forall>e. pr_execution req = Some e \<longrightarrow> e \<in> set (m_execution m))
     \<and> (pr_execution req = Some Worker \<longrightarrow> req_matches X (m_worker_protocol m) (protocol_version X))
     \<and> (\<forall>r. pr_interface req = Some r \<longrightarrow>
          (\<exists>i. m_interface m (ir_id r) = Some i \<and> req_matches X (ir_version r) (im_version i)))
     \<and> (\<forall>r \<in> set (pr_capabilities req).
          \<exists>c. m_capability m (cr_id r) = Some c \<and> capability_satisfies X c r)"

text \<open>What each issue asserts of the manifest and the requirement.\<close>

fun issue_true ::
    "('v, 'r, 'j) crates \<Rightarrow> ('v, 'r, 'j) manifest \<Rightarrow> ('r, 'j) plugin_requirement \<Rightarrow>
     ('v, 'r, 'j) compatibility_issue \<Rightarrow> bool" where
  "issue_true X m req (FrameworkIssue r v) =
     (r = m_framework m \<and> v = framework_version X \<and> \<not> req_matches X r v)"
| "issue_true X m req (WorkerProtocolIssue r v) =
     (r = m_worker_protocol m \<and> v = protocol_version X \<and> pr_execution req = Some Worker
      \<and> \<not> req_matches X r v)"
| "issue_true X m req (WrongName e a) =
     (pr_name req = Some e \<and> a = pid_name (pm_id (m_plugin m)) \<and> a \<noteq> e)"
| "issue_true X m req (WrongKind e a) =
     (e = pr_kind req \<and> a = pid_kind (pm_id (m_plugin m)) \<and> a \<noteq> e)"
| "issue_true X m req (ExecutionModeIssue e) =
     (pr_execution req = Some e \<and> e \<notin> set (m_execution m))"
| "issue_true X m req (MissingInterface i) =
     ((\<exists>r. pr_interface req = Some r \<and> ir_id r = i) \<and> i \<notin> im_id ` set (m_interfaces m))"
| "issue_true X m req (InterfaceVersion i r v) =
     (pr_interface req = Some \<lparr>ir_id = i, ir_version = r\<rparr> \<and> \<not> req_matches X r v
      \<and> \<lparr>im_id = i, im_version = v\<rparr> \<in> set (m_interfaces m))"
| "issue_true X m req (MissingCapability i) =
     ((\<exists>r \<in> set (pr_capabilities req). cr_id r = i) \<and> i \<notin> cap_id ` set (m_capabilities m))"
| "issue_true X m req (CapabilityVersion i r v) =
     (\<exists>q \<in> set (pr_capabilities req). \<exists>c \<in> set (m_capabilities m).
        cr_id q = i \<and> cap_id c = i \<and> cr_version q = Some r \<and> cap_version c = v
        \<and> (case v of None \<Rightarrow> True | Some v' \<Rightarrow> \<not> req_matches X r v'))"
| "issue_true X m req (CapabilityProperty i k e a) =
     (\<exists>q \<in> set (pr_capabilities req). \<exists>c \<in> set (m_capabilities m).
        cr_id q = i \<and> cap_id c = i \<and> (k, e) \<in> set (cr_properties q)
        \<and> bt_get (cap_properties c) k = a \<and> a \<noteq> Some e)"

lemmas issues_defs = framework_issues_def identity_issues_def mode_issues_def interface_issues_def
  capability_issues_def property_issues_def protocol_issues_def

lemma validate_unique_ok:
  "validate_unique new dup ids vs = Inr () \<longleftrightarrow>
     (\<forall>i \<in> set vs. is_ok (new i)) \<and> distinct vs \<and> set vs \<inter> ids = {}"
proof (induction vs arbitrary: ids)
  case Nil
  then show ?case by simp
next
  case (Cons i vs)
  then show ?case by (auto simp: res_simps is_ok_iff)
qed

lemma validate_unique_error:
  "validate_unique new dup ids vs = Inl e \<Longrightarrow>
     (\<exists>i \<in> set vs. \<exists>d. new i = Inl d \<and> e = InvalidIdentifier d)
     \<or> (\<exists>us i bs. vs = us @ i # bs \<and> i \<in> set us \<union> ids \<and> e = dup i)"
proof (induction vs arbitrary: ids)
  case Nil
  then show ?case by simp
next
  case (Cons i vs)
  show ?case
  proof (cases "new i")
    case (Inl d)
    with Cons.prems show ?thesis by auto
  next
    case (Inr x)
    show ?thesis
    proof (cases "i \<in> ids")
      case True
      with Inr Cons.prems have "i # vs = [] @ i # vs \<and> i \<in> set [] \<union> ids \<and> e = dup i" by simp
      then show ?thesis by blast
    next
      case False
      with Inr Cons.prems have "validate_unique new dup (insert i ids) vs = Inl e" by simp
      from Cons.IH[OF this] show ?thesis
      proof
        assume "\<exists>i \<in> set vs. \<exists>d. new i = Inl d \<and> e = InvalidIdentifier d"
        then show ?thesis by auto
      next
        assume "\<exists>us j bs. vs = us @ j # bs \<and> j \<in> set us \<union> insert i ids \<and> e = dup j"
        then obtain us j bs where "i # vs = (i # us) @ j # bs" "j \<in> set (i # us) \<union> ids" "e = dup j"
          by auto
        then show ?thesis by blast
      qed
    qed
  qed
qed

lemma distinct_as_str: "distinct (map (\<lambda>x. as_str (f x)) xs) \<longleftrightarrow> distinct (map f xs)"
  by (induction xs) (auto intro: ident.expand)

lemma validate_ok: "validate m = Inr () \<longleftrightarrow> manifest_wf m"
  by (auto simp: validate_def manifest_wf_def Let_def res_simps validate_unique_ok distinct_as_str
      interface_id.new_total capability_id.new_total
      plugin_id_new_fields[unfolded is_ok_iff, symmetric])

lemma find_id_iff:
  "distinct (map f xs) \<Longrightarrow> find (\<lambda>x. f x = i) xs = Some y \<longleftrightarrow> y \<in> set xs \<and> f y = i"
  by (induction xs) auto

lemma find_id_SomeD: "find (\<lambda>x. f x = i) xs = Some y \<Longrightarrow> y \<in> set xs \<and> f y = i"
  by (induction xs) (auto split: if_splits)

lemma find_id_None: "find (\<lambda>x. f x = i) xs = None \<longleftrightarrow> i \<notin> f ` set xs"
  by (induction xs) auto

lemma capability_issues_empty:
  "capability_issues X m r = [] \<longleftrightarrow>
     (\<exists>c. m_capability m (cr_id r) = Some c \<and> capability_satisfies X c r)"
  by (auto simp: issues_defs capability_satisfies_def split: option.splits if_splits)

lemma no_compatibility_issues:
  "compatibility_issues X m req = [] \<longleftrightarrow> compatible X m req"
proof -
  have "concat (map (capability_issues X m) (pr_capabilities req)) = [] \<longleftrightarrow>
      (\<forall>r \<in> set (pr_capabilities req).
         \<exists>c. m_capability m (cr_id r) = Some c \<and> capability_satisfies X c r)"
    by (simp add: capability_issues_empty)
  moreover have "framework_issues X m = [] \<longleftrightarrow> req_matches X (m_framework m) (framework_version X)"
    by (simp add: issues_defs)
  moreover have "identity_issues m req = [] \<longleftrightarrow> pid_kind (pm_id (m_plugin m)) = pr_kind req
      \<and> (\<forall>n. pr_name req = Some n \<longrightarrow> pid_name (pm_id (m_plugin m)) = n)"
    by (auto simp: issues_defs split: option.splits)
  moreover have "mode_issues m req = [] \<longleftrightarrow> (\<forall>e. pr_execution req = Some e \<longrightarrow> e \<in> set (m_execution m))"
    by (auto simp: issues_defs supports_def split: option.splits)
  moreover have "interface_issues X m req = [] \<longleftrightarrow> (\<forall>r. pr_interface req = Some r \<longrightarrow>
      (\<exists>i. m_interface m (ir_id r) = Some i \<and> req_matches X (ir_version r) (im_version i)))"
    by (auto simp: issues_defs split: option.splits)
  moreover have "protocol_issues X m req = [] \<longleftrightarrow> (pr_execution req = Some Worker \<longrightarrow>
      req_matches X (m_worker_protocol m) (protocol_version X))"
    by (simp add: issues_defs)
  ultimately show ?thesis by (auto simp: compatibility_issues_def compatible_def)
qed

lemma m_interface_SomeD: "m_interface m i = Some x \<Longrightarrow> x \<in> set (m_interfaces m) \<and> im_id x = i"
  by (auto simp: m_interface_def dest: find_id_SomeD)

lemma m_interface_None: "m_interface m i = None \<longleftrightarrow> i \<notin> im_id ` set (m_interfaces m)"
  by (simp add: m_interface_def find_id_None)

lemma m_capability_SomeD: "m_capability m i = Some x \<Longrightarrow> x \<in> set (m_capabilities m) \<and> cap_id x = i"
  by (auto simp: m_capability_def dest: find_id_SomeD)

lemma m_capability_None: "m_capability m i = None \<longleftrightarrow> i \<notin> cap_id ` set (m_capabilities m)"
  by (simp add: m_capability_def find_id_None)

lemma interface_issues_true:
  assumes "i \<in> set (interface_issues X m req)"
  shows "issue_true X m req i"
proof -
  from assms obtain r where r: "pr_interface req = Some r"
    by (cases "pr_interface req") (simp_all add: interface_issues_def)
  show ?thesis
  proof (cases "m_interface m (ir_id r)")
    case None
    with assms r show ?thesis by (auto simp: interface_issues_def m_interface_None)
  next
    case (Some x)
    have "x = \<lparr>im_id = ir_id r, im_version = im_version x\<rparr>" "x \<in> set (m_interfaces m)"
      using m_interface_SomeD[OF Some] by auto
    with assms r Some show ?thesis by (auto simp: interface_issues_def split: if_splits)
  qed
qed

lemma capability_issues_true:
  assumes "r \<in> set (pr_capabilities req)" "i \<in> set (capability_issues X m r)"
  shows "issue_true X m req i"
proof (cases "m_capability m (cr_id r)")
  case None
  with assms show ?thesis
    by (auto simp: capability_issues_def m_capability_None)
next
  case (Some c)
  note c = m_capability_SomeD[OF Some]
  from assms(2) Some consider
      vr where "cr_version r = Some vr" "i = CapabilityVersion (cr_id r) vr (cap_version c)"
        "case cap_version c of None \<Rightarrow> True | Some v \<Rightarrow> \<not> req_matches X vr v"
    | k e where "(k, e) \<in> set (cr_properties r)" "bt_get (cap_properties c) k \<noteq> Some e"
        "i = CapabilityProperty (cr_id r) k e (bt_get (cap_properties c) k)"
    by (cases "cr_version r") (auto simp: capability_issues_def property_issues_def split: if_splits)
  then show ?thesis using assms(1) c by cases auto
qed

lemma compatibility_issues_true:
  assumes "i \<in> set (compatibility_issues X m req)"
  shows "issue_true X m req i"
proof -
  have "issue_true X m req i" if "i \<in> set (framework_issues X m)"
    using that by (simp add: framework_issues_def split: if_splits)
  moreover have "issue_true X m req i" if "i \<in> set (identity_issues m req)"
    using that by (cases "pr_name req") (auto simp: identity_issues_def split: if_splits)
  moreover have "issue_true X m req i" if "i \<in> set (mode_issues m req)"
    using that by (cases "pr_execution req") (auto simp: mode_issues_def supports_def split: if_splits)
  moreover have "issue_true X m req i" if "i \<in> set (protocol_issues X m req)"
    using that by (simp add: protocol_issues_def split: if_splits)
  ultimately show ?thesis
    using assms interface_issues_true capability_issues_true
    by (fastforce simp: compatibility_issues_def)
qed

lemma m_interface_iff:
  "manifest_wf m \<Longrightarrow> m_interface m i = Some x \<longleftrightarrow> x \<in> set (m_interfaces m) \<and> im_id x = i"
  by (simp add: manifest_wf_def m_interface_def find_id_iff)

lemma m_capability_iff:
  "manifest_wf m \<Longrightarrow> m_capability m i = Some x \<longleftrightarrow> x \<in> set (m_capabilities m) \<and> cap_id x = i"
  by (simp add: manifest_wf_def m_capability_def find_id_iff)

lemma build_ok: "build b = Inr m \<longleftrightarrow> m = mb_manifest b \<and> manifest_wf m"
  by (auto simp: build_def res_simps validate_ok)

text \<open>What each validation error asserts of the manifest.\<close>

fun validate_error_true :: "('v, 'r, 'j) manifest \<Rightarrow> manifest_error \<Rightarrow> bool" where
  "validate_error_true m (UnsupportedManifestVersion v) =
     (v = m_version m \<and> v \<noteq> MANIFEST_VERSION)"
| "validate_error_true m MissingExecutionMode = (m_execution m = [])"
| "validate_error_true m (DuplicateInterface i) =
     (1 < count_list (map (\<lambda>i. as_str (im_id i)) (m_interfaces m)) i)"
| "validate_error_true m (DuplicateCapability i) =
     (1 < count_list (map (\<lambda>c. as_str (cap_id c)) (m_capabilities m)) i)"
| "validate_error_true m (InvalidIdentifier e) =
     (let p = pm_id (m_plugin m) in
      ie_value e \<in> {as_str (pid_namespace p), as_str (pid_kind p), as_str (pid_name p)}
        \<and> \<not> ident_ok False (ie_value e)
      \<or> ie_value e \<in> (\<lambda>i. as_str (im_id i)) ` set (m_interfaces m)
          \<union> (\<lambda>c. as_str (cap_id c)) ` set (m_capabilities m)
        \<and> \<not> ident_ok True (ie_value e))"

lemma new_error_invalid:
  "namespace_new v = Inl e \<Longrightarrow> ie_value e = v \<and> \<not> ident_ok False v"
  "plugin_kind_new v = Inl e \<Longrightarrow> ie_value e = v \<and> \<not> ident_ok False v"
  "plugin_name_new v = Inl e \<Longrightarrow> ie_value e = v \<and> \<not> ident_ok False v"
  "interface_id_new v = Inl e \<Longrightarrow> ie_value e = v \<and> \<not> ident_ok True v"
  "capability_id_new v = Inl e \<Longrightarrow> ie_value e = v \<and> \<not> ident_ok True v"
  by (auto simp: namespace_new_def plugin_kind_new_def plugin_name_new_def interface_id_new_def
      capability_id_new_def dest: id_new_eq_Inl)

lemma count_list_dup: "i \<in> set us \<Longrightarrow> 1 < count_list (us @ i # vs) i"
  using count_list_0_iff[of us i] by simp

lemma validate_unique_error_cases:
  assumes "validate_unique new dup {} vs = Inl e"
  shows "(\<exists>i \<in> set vs. \<exists>d. new i = Inl d \<and> e = InvalidIdentifier d)
    \<or> (\<exists>i. 1 < count_list vs i \<and> e = dup i)"
proof -
  have "\<exists>i. 1 < count_list vs i \<and> e = dup i"
    if "vs = us @ i # ws" "i \<in> set us" "e = dup i" for us i ws
    using that count_list_dup[of i us ws] by auto
  with validate_unique_error[OF assms] show ?thesis by blast
qed

lemma plugin_id_new_error:
  assumes "plugin_id_new n k m = Inl e"
  shows "ie_value e \<in> {n, k, m} \<and> \<not> ident_ok False (ie_value e)"
  using assms by (auto simp: plugin_id_new_def res_simps dest: new_error_invalid)

lemma validate_error_true_unique:
  "validate_unique interface_id_new DuplicateInterface {}
     (map (\<lambda>i. as_str (im_id i)) (m_interfaces m)) = Inl e \<Longrightarrow> validate_error_true m e"
  "validate_unique capability_id_new DuplicateCapability {}
     (map (\<lambda>c. as_str (cap_id c)) (m_capabilities m)) = Inl e \<Longrightarrow> validate_error_true m e"
  by (drule validate_unique_error_cases, elim disjE bexE exE conjE;
      force simp: Let_def dest: new_error_invalid)+

lemma validate_error_is_true:
  assumes "validate m = Inl e"
  shows "validate_error_true m e"
proof -
  let ?p = "pm_id (m_plugin m)"
  let ?id = "plugin_id_new (as_str (pid_namespace ?p)) (as_str (pid_kind ?p)) (as_str (pid_name ?p))"
  show ?thesis
  proof (cases "m_version m = MANIFEST_VERSION")
    case True
    show ?thesis
    proof (cases ?id)
      case (Inl d)
      with True assms have "e = InvalidIdentifier d" by (simp add: validate_def Let_def)
      with plugin_id_new_error[OF Inl] show ?thesis by (auto simp: Let_def)
    next
      case (Inr q)
      with True assms show ?thesis
        by (auto simp: validate_def Let_def res_simps validate_error_true_unique split: if_splits)
    qed
  next
    case False
    with assms show ?thesis by (auto simp: validate_def)
  qed
qed

lemma compatible_permute:
  assumes wf: "manifest_wf m" and i: "mset is' = mset (m_interfaces m)"
    and c: "mset cs = mset (m_capabilities m)"
  shows "compatible X (m\<lparr>m_interfaces := is', m_capabilities := cs\<rparr>) req \<longleftrightarrow> compatible X m req"
proof -
  let ?m = "m\<lparr>m_interfaces := is', m_capabilities := cs\<rparr>"
  have "distinct (map im_id is') \<longleftrightarrow> distinct (map im_id (m_interfaces m))"
    "distinct (map cap_id cs) \<longleftrightarrow> distinct (map cap_id (m_capabilities m))"
    using i c by (metis mset_map mset_eq_imp_distinct_iff)+
  then have "manifest_wf ?m"
    using wf mset_eq_setD[OF i] mset_eq_setD[OF c] by (simp add: manifest_wf_def)
  then have "m_interface ?m k = Some x \<longleftrightarrow> m_interface m k = Some x"
    "m_capability ?m l = Some y \<longleftrightarrow> m_capability m l = Some y" for k l x y
    using wf mset_eq_setD[OF i] mset_eq_setD[OF c] by (simp_all add: m_interface_iff m_capability_iff)
  then show ?thesis by (simp add: compatible_def)
qed

section \<open>A sample manifest\<close>

text \<open>The manifest of \<open>crates/outboard-core/tests/manifest.rs\<close>, over the release versions of
  \<^const>\<open>caret_crates\<close>.\<close>

definition sample_id :: plugin_id where
  "sample_id = PluginId (Ident ''app'') (Ident ''engine'') (Ident ''test'')"

definition sample_builder :: "(version3, version3, string) manifest_builder" where
  "sample_builder =
     builder_execution [OneShot, Worker]
      (builder_capability
        (capability_property ''threads'' ''8''
          \<lparr>cap_id = Ident ''device.cpu'', cap_version = None, cap_properties = []\<rparr>)
      (builder_interface \<lparr>im_id = Ident ''app.engine'', im_version = (1, 4, 0)\<rparr>
      (builder_new caret_crates sample_id (2, 3, 4))))"

definition sample_manifest :: "(version3, version3, string) manifest" where
  "sample_manifest = mb_manifest sample_builder"

definition sample_requirement :: "(version3, string) plugin_requirement" where
  "sample_requirement =
     \<lparr>pr_kind = Ident ''engine'', pr_name = Some (Ident ''wrong''),
      pr_interface = Some \<lparr>ir_id = Ident ''app.engine'', ir_version = (2, 0, 0)\<rparr>,
      pr_capabilities = [\<lparr>cr_id = Ident ''device.gpu'', cr_version = None, cr_properties = []\<rparr>],
      pr_execution = None\<rparr>"

lemmas sample_defs = sample_manifest_def sample_builder_def sample_id_def builder_execution_def
  builder_capability_def builder_interface_def builder_new_def builder_upd_def
  capability_property_def MANIFEST_VERSION_def control_capabilities_default_def

lemma sample_id_ok [simp]: "plugin_id_ok sample_id"
  by code_simp

lemma sample_manifest_wf [simp]: "manifest_wf sample_manifest"
  by (subst validate_ok [symmetric]) code_simp

section \<open>Properties\<close>

text \<open>\<open>Manifest::validate\<close> accepts a manifest exactly when its format version is the host's,
  its identity is well formed, it declares an execution mode, and its interface and capability
  identifiers are well formed and without duplicates.\<close>

theorem validate_accepts_iff_wf: "validate m = Inr () \<longleftrightarrow> manifest_wf m"
  by (rule validate_ok)

text \<open>Every error \<open>Manifest::validate\<close> returns is true of the manifest: the version it names
  is the unsupported one, the identifier it names is present and malformed, the interface or
  capability it names occurs more than once.\<close>

theorem validate_errors_true: "validate m = Inl e \<Longrightarrow> validate_error_true m e"
  by (rule validate_error_is_true)

theorem validate_errors_true_witness:
  "validate (sample_manifest\<lparr>m_interfaces := m_interfaces sample_manifest @ m_interfaces sample_manifest\<rparr>)
     = Inl (DuplicateInterface ''app.engine'')
   \<and> validate_error_true
      (sample_manifest\<lparr>m_interfaces := m_interfaces sample_manifest @ m_interfaces sample_manifest\<rparr>)
      (DuplicateInterface ''app.engine'')"
proof -
  have h: "validate
      (sample_manifest\<lparr>m_interfaces := m_interfaces sample_manifest @ m_interfaces sample_manifest\<rparr>)
     = Inl (DuplicateInterface ''app.engine'')"
    by code_simp
  from h validate_errors_true[OF h] show ?thesis by blast
qed

text \<open>C9. \<open>Manifest::compatibility_issues\<close> is empty exactly when the manifest meets the
  requirement: framework version, identity, execution mode, worker protocol, interface version,
  and the version and properties of every required capability.\<close>

theorem no_issues_iff_compatible: "compatibility_issues X m req = [] \<longleftrightarrow> compatible X m req"
  by (rule no_compatibility_issues)

text \<open>Every issue \<open>Manifest::compatibility_issues\<close> reports is true: it names what the
  requirement asks and what the manifest declares, and the two disagree.\<close>

theorem issues_are_true:
  "i \<in> set (compatibility_issues X m req) \<Longrightarrow> issue_true X m req i"
  by (rule compatibility_issues_true)

theorem issues_are_true_witness:
  "length (compatibility_issues caret_crates sample_manifest sample_requirement) = 3
   \<and> issue_true caret_crates sample_manifest sample_requirement
      (InterfaceVersion (Ident ''app.engine'') (2, 0, 0) (1, 4, 0))"
proof -
  have h: "compatibility_issues caret_crates sample_manifest sample_requirement =
      [WrongName (Ident ''wrong'') (Ident ''test''),
       InterfaceVersion (Ident ''app.engine'') (2, 0, 0) (1, 4, 0),
       MissingCapability (Ident ''device.gpu'')]"
    by code_simp
  have m: "InterfaceVersion (Ident ''app.engine'') (2, 0, 0) (1, 4, 0)
      \<in> set (compatibility_issues caret_crates sample_manifest sample_requirement)"
    by (simp add: h)
  from issues_are_true[OF m] h show ?thesis by simp
qed

text \<open>Compatibility of a valid manifest does not depend on the order in which it declares its
  interfaces and capabilities.\<close>

theorem compatibility_order_irrelevant:
  assumes "validate m = Inr ()" and "mset is' = mset (m_interfaces m)"
    and "mset cs = mset (m_capabilities m)"
  shows "compatibility_issues X (m\<lparr>m_interfaces := is', m_capabilities := cs\<rparr>) req = []
    \<longleftrightarrow> compatibility_issues X m req = []"
  using assms by (simp add: no_compatibility_issues validate_ok compatible_permute)

theorem compatibility_order_irrelevant_witness:
  "compatibility_issues caret_crates
     (sample_manifest\<lparr>m_interfaces := rev (m_interfaces sample_manifest),
        m_capabilities := m_capabilities sample_manifest\<rparr>) sample_requirement = []
   \<longleftrightarrow> compatibility_issues caret_crates sample_manifest sample_requirement = []"
  by (rule compatibility_order_irrelevant) (simp_all add: validate_ok)

text \<open>The builder's defaults are usable as they are: for every identity \<open>PluginId::new\<close>
  accepts, \<open>ManifestBuilder::new(id, version).build()\<close> succeeds, and the manifest meets the
  requirement that asks for that kind and name.\<close>

theorem builder_defaults_resolve:
  assumes "caret_accepts_own X" and "plugin_id_new n k m = Inr i"
    and "plugin_requirement_new k = Inr r" and "requirement_named m r = Inr req"
  shows "\<exists>mf. build (builder_new X i v) = Inr mf \<and> pm_id (m_plugin mf) = i
    \<and> compatibility_issues X mf req = []"
proof -
  have i: "i = PluginId (Ident n) (Ident k) (Ident m)" "plugin_id_ok i"
    using assms(2) unfolding plugin_id_new_eq_Inr by blast+
  have "manifest_wf (mb_manifest (builder_new X i v))"
    using i by (simp add: manifest_wf_def builder_new_def)
  moreover have "compatible X (mb_manifest (builder_new X i v)) req"
    using assms i
    by (auto simp: compatible_def builder_new_def plugin_requirement_new_def requirement_named_def
        res_simps kind_id.new_ok name_id.new_ok caret_accepts_own_def)
  ultimately show ?thesis by (auto simp: build_ok no_compatibility_issues builder_new_def)
qed

theorem builder_defaults_resolve_witness:
  "\<exists>mf. build (builder_new caret_crates sample_id (2, 3, 4)) = Inr mf \<and> pm_id (m_plugin mf) = sample_id
    \<and> compatibility_issues caret_crates mf
        (\<lparr>pr_kind = Ident ''engine'', pr_name = None, pr_interface = None,
         pr_capabilities = [], pr_execution = None\<rparr>\<lparr>pr_name := Some (Ident ''test'')\<rparr>) = []"
proof (rule builder_defaults_resolve)
  show "caret_accepts_own caret_crates" by simp
  show "plugin_id_new ''app'' ''engine'' ''test'' = Inr sample_id" by code_simp
  let ?r = "\<lparr>pr_kind = Ident ''engine'', pr_name = None, pr_interface = None,
      pr_capabilities = [], pr_execution = None\<rparr> :: (version3, string) plugin_requirement"
  show "plugin_requirement_new ''engine'' = Inr ?r" by code_simp
  show "requirement_named ''test'' ?r = Inr (?r\<lparr>pr_name := Some (Ident ''test'')\<rparr>)"
    by code_simp
qed

end
