(* ===== verification/Cache.thy ===== *)
theory Cache
  imports Discovery Manifest
begin

text \<open>
  The manifest cache: \<open>src/crates/outboard-core/src/cache.rs\<close>. The disk holds files by path; which
  of its operations fail is part of its state. \<open>serde_json\<close> on the cache file is the parameter
  \<open>cache_codec\<close>: writing cannot fail, because every map of the file has string keys. The lock of the
  entries is never poisoned, since nothing panics while it is held.
\<close>

section \<open>Paths and digits\<close>

text \<open>\<open>Path::with_extension\<close>: the text up to the end of the last component's stem, then the new
  extension. Trailing separators and \<open>/.\<close> are cut first.\<close>

fun trim_rev :: "string \<Rightarrow> string" where
  "trim_rev [] = []"
| "trim_rev (c # s) =
     (if c = CHR ''/'' then trim_rev s
      else if c = CHR ''.'' \<and> starts_with s (CHR ''/'') then trim_rev s
      else c # s)"

definition file_stem_of :: "os_string \<Rightarrow> os_string" where
  "file_stem_of f =
     (case split_once (CHR ''.'') (rev f) of
        None \<Rightarrow> f
      | Some (ext, before) \<Rightarrow> if before = [] then f else rev before)"

definition with_extension :: "os_string \<Rightarrow> string \<Rightarrow> os_string" where
  "with_extension p ext =
     (case file_name p of
        None \<Rightarrow> p
      | Some f \<Rightarrow>
          let t = rev (trim_rev (rev p)) in
          take (length t - length f) t @ file_stem_of f @ ''.'' @ ext)"

text \<open>\<open>format!("{:016x}", n)\<close>.\<close>

definition hex_digit :: "u64 \<Rightarrow> char" where
  "hex_digit d = ''0123456789abcdef'' ! unat d"

definition hex16 :: "u64 \<Rightarrow> string" where
  "hex16 n = map (\<lambda>i. hex_digit (and (drop_bit (4 * i) n) 15)) (rev [0..<16])"

section \<open>The disk\<close>

text \<open>A write may fail before the file is opened, or after some bytes were written. Whether a rename
  fails may depend on whether the target exists.\<close>

datatype write_fault = NoFault | OpenFault io_error | ShortFault nat io_error

record disk =
  dk_files :: "os_string \<Rightarrow> bytes option"
  dk_unreadable :: "os_string \<Rightarrow> bool"
  dk_parent_fault :: "os_string \<Rightarrow> io_error option"
  dk_write_fault :: "os_string \<Rightarrow> write_fault"
  dk_rename_fault :: "os_string \<Rightarrow> os_string \<Rightarrow> bool \<Rightarrow> io_error option"
  dk_remove_fault :: "os_string \<Rightarrow> io_error option"

definition disk_read :: "disk \<Rightarrow> os_string \<Rightarrow> bytes option" where
  "disk_read D p = (if dk_unreadable D p then None else dk_files D p)"

definition disk_exists :: "disk \<Rightarrow> os_string \<Rightarrow> bool" where
  "disk_exists D p = (dk_files D p \<noteq> None)"

definition disk_write :: "os_string \<Rightarrow> bytes \<Rightarrow> disk \<Rightarrow> (io_error + unit) \<times> disk" where
  "disk_write p b D =
     (case dk_write_fault D p of
        NoFault \<Rightarrow> (Inr (), D\<lparr>dk_files := (dk_files D)(p \<mapsto> b)\<rparr>)
      | OpenFault e \<Rightarrow> (Inl e, D)
      | ShortFault n e \<Rightarrow> (Inl e, D\<lparr>dk_files := (dk_files D)(p \<mapsto> take n b)\<rparr>))"

definition disk_rename :: "os_string \<Rightarrow> os_string \<Rightarrow> disk \<Rightarrow> (io_error + unit) \<times> disk" where
  "disk_rename a b D =
     (case dk_rename_fault D a b (disk_exists D b) of
        Some e \<Rightarrow> (Inl e, D)
      | None \<Rightarrow>
          (case dk_files D a of
             None \<Rightarrow> (Inl IoNotFound, D)
           | Some x \<Rightarrow> (Inr (), D\<lparr>dk_files := (dk_files D)(a := None, b \<mapsto> x)\<rparr>)))"

definition disk_remove :: "os_string \<Rightarrow> disk \<Rightarrow> (io_error + unit) \<times> disk" where
  "disk_remove p D =
     (case dk_remove_fault D p of
        Some e \<Rightarrow> (Inl e, D)
      | None \<Rightarrow> (Inr (), D\<lparr>dk_files := (dk_files D)(p := None)\<rparr>))"

section \<open>Data\<close>

definition CACHE_FORMAT :: u32 where
  "CACHE_FORMAT = 1"

datatype cache_mode = Disabled | Memory | Disk os_string | DefaultDisk

definition cache_mode_default :: cache_mode where
  "cache_mode_default = DefaultDisk"

record fingerprint =
  fp_len :: u64
  fp_modified_nanos :: nat

record ('v, 'r, 'j) cached_entry =
  ce_fingerprint :: fingerprint
  ce_manifest :: "('v, 'r, 'j) manifest"

record ('v, 'r, 'j) cache_file =
  cf_format_version :: u32
  cf_entries :: "(string, ('v, 'r, 'j) cached_entry) btree"

record ('v, 'r, 'j) manifest_cache =
  mc_enabled :: bool
  mc_path :: "os_string option"
  mc_entries :: "(string, ('v, 'r, 'j) cached_entry) btree"

record ('v, 'r, 'j) cache_codec =
  cf_to_vec :: "('v, 'r, 'j) cache_file \<Rightarrow> bytes"
  cf_from_slice :: "bytes \<Rightarrow> json_error + ('v, 'r, 'j) cache_file"

section \<open>Operations\<close>

definition file_fingerprint :: "system \<Rightarrow> os_string \<Rightarrow> io_error + fingerprint" where
  "file_fingerprint F p =
     res_bind (sys_metadata F p) (\<lambda>m.
       Inr \<lparr>fp_len = fm_len m,
            fp_modified_nanos =
              (case fm_modified m of None \<Rightarrow> 0 | Some t \<Rightarrow> if t < 0 then 0 else nat t)\<rparr>)"

definition cache_key :: "system \<Rightarrow> os_string \<Rightarrow> string" where
  "cache_key F p =
     hex16 (sys_hash F (as_bytes (case sys_canonicalize F p of Inl _ \<Rightarrow> p | Inr q \<Rightarrow> q)))"

definition default_path :: "system \<Rightarrow> os_string option" where
  "default_path F =
     (case sys_var_os F ''XDG_CACHE_HOME'' of
        Some p \<Rightarrow> Some (path_join p ''outboard/manifest-cache.json'')
      | None \<Rightarrow>
          map_option (\<lambda>p. path_join p ''.cache/outboard/manifest-cache.json'') (sys_var_os F ''HOME''))"

definition cache_load ::
    "('v, 'r, 'j) cache_codec \<Rightarrow> disk \<Rightarrow> os_string \<Rightarrow> ('v, 'r, 'j) manifest_cache" where
  "cache_load K D p =
     \<lparr>mc_enabled = True, mc_path = Some p,
      mc_entries =
        (case disk_read D p of
           None \<Rightarrow> []
         | Some b \<Rightarrow>
             (case cf_from_slice K b of
                Inl _ \<Rightarrow> []
              | Inr f \<Rightarrow> if cf_format_version f = CACHE_FORMAT then cf_entries f else []))\<rparr>"

definition cache_new ::
    "('v, 'r, 'j) cache_codec \<Rightarrow> system \<Rightarrow> disk \<Rightarrow> cache_mode \<Rightarrow> ('v, 'r, 'j) manifest_cache" where
  "cache_new K F D mode =
     (case mode of
        Disabled \<Rightarrow> \<lparr>mc_enabled = False, mc_path = None, mc_entries = []\<rparr>
      | Memory \<Rightarrow> \<lparr>mc_enabled = True, mc_path = None, mc_entries = []\<rparr>
      | Disk p \<Rightarrow> cache_load K D p
      | DefaultDisk \<Rightarrow>
          (case default_path F of
             None \<Rightarrow> \<lparr>mc_enabled = True, mc_path = None, mc_entries = []\<rparr>
           | Some p \<Rightarrow> cache_load K D p))"

definition cache_get ::
    "system \<Rightarrow> ('v, 'r, 'j) manifest_cache \<Rightarrow> os_string \<Rightarrow> ('v, 'r, 'j) manifest option" where
  "cache_get F c p =
     (if \<not> mc_enabled c then None
      else
        (case file_fingerprint F p of
           Inl _ \<Rightarrow> None
         | Inr fp \<Rightarrow>
             (case bt_get (mc_entries c) (cache_key F p) of
                None \<Rightarrow> None
              | Some e \<Rightarrow> if ce_fingerprint e = fp then Some (ce_manifest e) else None)))"

definition persist ::
    "('v, 'r, 'j) cache_codec \<Rightarrow> ('v, 'r, 'j) manifest_cache \<Rightarrow> disk \<Rightarrow> (io_error + unit) \<times> disk" where
  "persist K c D =
     (case mc_path c of
        None \<Rightarrow> (Inr (), D)
      | Some p \<Rightarrow>
          let b = cf_to_vec K \<lparr>cf_format_version = CACHE_FORMAT, cf_entries = mc_entries c\<rparr> in
          (case dk_parent_fault D p of
             Some e \<Rightarrow> (Inl e, D)
           | None \<Rightarrow>
               let tmp = with_extension p ''json.tmp'' in
               (case disk_write tmp b D of
                  (Inl e, D1) \<Rightarrow> (Inl e, D1)
                | (Inr _, D1) \<Rightarrow>
                    (case disk_rename tmp p D1 of
                       (Inr _, D2) \<Rightarrow> (Inr (), D2)
                     | (Inl e, D2) \<Rightarrow>
                         if disk_exists D2 p
                         then (case disk_remove p D2 of
                                 (Inl e', D3) \<Rightarrow> (Inl e', D3)
                               | (Inr _, D3) \<Rightarrow> disk_rename tmp p D3)
                         else (Inl e, D2)))))"

text \<open>The cache and the disk it writes to; \<open>insert\<close>, \<open>invalidate\<close> and \<open>clear\<close> ignore the
  result of \<open>persist\<close>.\<close>

type_synonym ('v, 'r, 'j) store = "('v, 'r, 'j) manifest_cache \<times> disk"

definition save :: "('v, 'r, 'j) cache_codec \<Rightarrow> ('v, 'r, 'j) store \<Rightarrow> ('v, 'r, 'j) store" where
  "save K s = (fst s, snd (persist K (fst s) (snd s)))"

definition cache_insert ::
    "('v, 'r, 'j) cache_codec \<Rightarrow> system \<Rightarrow> os_string \<Rightarrow> ('v, 'r, 'j) manifest
     \<Rightarrow> ('v, 'r, 'j) store \<Rightarrow> ('v, 'r, 'j) store" where
  "cache_insert K F p m s =
     (if \<not> mc_enabled (fst s) then s
      else
        (case file_fingerprint F p of
           Inl _ \<Rightarrow> s
         | Inr fp \<Rightarrow>
             save K ((fst s)\<lparr>mc_entries := bt_insert (cache_key F p)
                       \<lparr>ce_fingerprint = fp, ce_manifest = m\<rparr> (mc_entries (fst s))\<rparr>, snd s)))"

definition cache_invalidate ::
    "('v, 'r, 'j) cache_codec \<Rightarrow> system \<Rightarrow> os_string \<Rightarrow> ('v, 'r, 'j) store \<Rightarrow> ('v, 'r, 'j) store" where
  "cache_invalidate K F p s =
     (if \<not> mc_enabled (fst s) then s
      else save K ((fst s)\<lparr>mc_entries := bt_remove (cache_key F p) (mc_entries (fst s))\<rparr>, snd s))"

definition cache_clear ::
    "('v, 'r, 'j) cache_codec \<Rightarrow> ('v, 'r, 'j) store \<Rightarrow> ('v, 'r, 'j) store" where
  "cache_clear K s =
     (if \<not> mc_enabled (fst s) then s else save K ((fst s)\<lparr>mc_entries := []\<rparr>, snd s))"

section \<open>Lemmas on paths\<close>

lemma trim_rev_name:
  assumes "entry_name f"
  shows "trim_rev (rev f @ d) = rev f @ d"
proof (cases f rule: rev_cases)
  case Nil
  then show ?thesis using assms by (simp add: entry_name_def)
next
  case (snoc g c)
  show ?thesis
  proof (cases "c = CHR ''.''")
    case True
    then have "g \<noteq> []" using assms by (auto simp: snoc entry_name_def)
    then obtain h x where "g = h @ [x]" by (cases g rule: rev_cases) auto
    then show ?thesis using assms by (auto simp: snoc entry_name_def)
  qed (use assms in \<open>auto simp: snoc entry_name_def\<close>)
qed

lemma path_join_split:
  assumes "entry_name f"
  shows "\<exists>d'. path_join d f = d' @ f \<and> (\<forall>g. entry_name g \<longrightarrow> path_join d g = d' @ g)"
proof -
  have rel: "\<not> starts_with g (CHR ''/'')" if "entry_name g" for g
    using that starts_with_mem by (auto simp: entry_name_def)
  show ?thesis
    by (cases "d = '''' \<or> ends_with d (CHR ''/'')") (auto simp: path_join_def rel assms)
qed

lemma with_extension_join:
  assumes "entry_name f"
  shows "\<exists>d'. path_join d f = d' @ f \<and> with_extension (path_join d f) ext = d' @ file_stem_of f @ ''.'' @ ext"
proof -
  obtain d' where d: "path_join d f = d' @ f" using path_join_split[OF assms] by blast
  then have "rev (trim_rev (rev (path_join d f))) = d' @ f"
    by (simp add: trim_rev_name[OF assms])
  then show ?thesis using d file_name_join[OF assms, of d] by (simp add: with_extension_def)
qed

lemma file_stem_differs: "file_stem_of f @ ''.json.tmp'' \<noteq> f"
proof (cases "split_once (CHR ''.'') (rev f)")
  case None
  then show ?thesis by (simp add: file_stem_of_def)
next
  case (Some eb)
  obtain ext before where eb: "eb = (ext, before)" by fastforce
  then have f: "rev f = ext @ CHR ''.'' # before" and dot: "CHR ''.'' \<notin> set ext"
    using Some by (auto simp: split_once_Some)
  show ?thesis
  proof
    assume eq: "file_stem_of f @ ''.json.tmp'' = f"
    then have "before \<noteq> []" using Some eb by (auto simp: file_stem_of_def split: if_splits)
    then have "rev before @ ''.json.tmp'' = f" using Some eb eq by (simp add: file_stem_of_def)
    moreover have "f = rev before @ CHR ''.'' # rev ext" using arg_cong[OF f, of rev] by simp
    ultimately have "rev ext = ''json.tmp''" by simp
    then show False using dot arg_cong[of "rev ext" _ set] by auto
  qed
qed

lemma temp_path_differs:
  assumes "entry_name f"
  shows "with_extension (path_join d f) ''json.tmp'' \<noteq> path_join d f"
  using with_extension_join[OF assms, of d "''json.tmp''"] file_stem_differs[of f] by auto

section \<open>Lemmas on the disk\<close>

lemma persist_no_path: "mc_path c = None \<Longrightarrow> persist K c D = (Inr (), D)"
  by (simp add: persist_def)

lemma persist_fault_free:
  assumes "mc_path c = Some p" "with_extension p ''json.tmp'' \<noteq> p"
    and "dk_parent_fault D p = None" "dk_write_fault D (with_extension p ''json.tmp'') = NoFault"
    and "\<And>x. dk_rename_fault D (with_extension p ''json.tmp'') p x = None"
  shows "persist K c D =
    (Inr (), D\<lparr>dk_files := (dk_files D)(with_extension p ''json.tmp'' := None,
       p \<mapsto> cf_to_vec K \<lparr>cf_format_version = CACHE_FORMAT, cf_entries = mc_entries c\<rparr>)\<rparr>)"
  using assms by (simp add: persist_def disk_write_def disk_rename_def Let_def)

lemma persist_cases:
  assumes "mc_path c = Some p" and tmp: "tmp = with_extension p ''json.tmp''" "tmp \<noteq> p"
    and b: "b = cf_to_vec K \<lparr>cf_format_version = CACHE_FORMAT, cf_entries = mc_entries c\<rparr>"
  shows "(case persist K c D of
      (Inr _, D') \<Rightarrow> dk_files D' p = Some b
    | (Inl _, D') \<Rightarrow> dk_files D' p = dk_files D p
        \<or> dk_files D' p = None \<and> dk_rename_fault D tmp p True \<noteq> None \<and> dk_rename_fault D tmp p False \<noteq> None)
    \<and> (\<forall>q. q \<noteq> p \<and> q \<noteq> tmp \<longrightarrow> dk_files (snd (persist K c D)) q = dk_files D q)"
  using assms(1) tmp(2) unfolding persist_def b tmp(1)
  by (auto simp: disk_write_def disk_rename_def disk_remove_def disk_exists_def Let_def
      split: option.splits write_fault.splits)

section \<open>The interface of the store\<close>

text \<open>What a client of the cache relies on: an entry that is found was there before or is the one
  just stored, and nothing is found for a path that was forgotten. \<open>fetch\<close> is the slow way to a
  value; \<open>cached_fetch\<close> is how a client combines the two.\<close>

locale manifest_store =
  fixes lookup :: "'s \<Rightarrow> 'p \<Rightarrow> 'm option"
    and remember :: "'p \<Rightarrow> 'm \<Rightarrow> 's \<Rightarrow> 's"
    and forget :: "'p \<Rightarrow> 's \<Rightarrow> 's"
  assumes lookup_remember: "lookup (remember p m s) q = Some x \<Longrightarrow> lookup s q = Some x \<or> x = m"
    and lookup_forget: "lookup (forget p s) q = Some x \<Longrightarrow> lookup s q = Some x"
    and forget_same: "lookup (forget p s) p = None"
begin

definition cached_fetch :: "('e + 'm) \<Rightarrow> 'p \<Rightarrow> 's \<Rightarrow> ('e + 'm) \<times> 's" where
  "cached_fetch fetch p s =
     (case lookup s p of
        Some m \<Rightarrow> (Inr m, s)
      | None \<Rightarrow> (case fetch of Inl e \<Rightarrow> (Inl e, s) | Inr m \<Rightarrow> (Inr m, remember p m s)))"

lemma cached_fetch_origin:
  "cached_fetch fetch p s = (Inr m, s') \<Longrightarrow> lookup s p = Some m \<or> fetch = Inr m"
  by (auto simp: cached_fetch_def split: option.splits sum.splits)

lemma cached_fetch_error:
  "cached_fetch fetch p s = (Inl e, s') \<Longrightarrow> fetch = Inl e \<and> s' = s \<and> lookup s p = None"
  by (auto simp: cached_fetch_def split: option.splits sum.splits)

lemma cached_fetch_invariant:
  assumes "\<And>q x. lookup s q = Some x \<Longrightarrow> Q x" "\<And>m. fetch = Inr m \<Longrightarrow> Q m"
    and "lookup (snd (cached_fetch fetch p s)) q = Some x"
  shows "Q x"
  using assms
  by (auto simp: cached_fetch_def split: option.splits sum.splits dest: lookup_remember)

lemma forget_invariant:
  assumes "\<And>q x. lookup s q = Some x \<Longrightarrow> Q x" "lookup (forget p s) q = Some x"
  shows "Q x"
  using assms lookup_forget by blast

end

lemma cache_get_insert_other:
  assumes "cache_get F (fst (cache_insert K F p m s)) q = Some x"
  shows "cache_get F (fst s) q = Some x \<or> x = m"
  using assms
  by (auto simp: cache_get_def cache_insert_def save_def split: sum.splits option.splits if_splits)

lemma cache_get_invalidate_other:
  assumes "cache_get F (fst (cache_invalidate K F p s)) q = Some x"
  shows "cache_get F (fst s) q = Some x"
  using assms
  by (auto simp: cache_get_def cache_invalidate_def save_def split: sum.splits option.splits if_splits)

lemma cache_get_invalidate_same: "cache_get F (fst (cache_invalidate K F p s)) p = None"
  by (auto simp: cache_get_def cache_invalidate_def save_def split: sum.splits option.splits)

interpretation manifests: manifest_store "\<lambda>s. cache_get F (fst s)" "cache_insert K F" "cache_invalidate K F"
  for K F
  by unfold_locales
    (auto dest: cache_get_insert_other cache_get_invalidate_other simp: cache_get_invalidate_same)

lemma cache_get_insert_same:
  assumes "mc_enabled (fst s)" "file_fingerprint F p = Inr fp"
  shows "cache_get F (fst (cache_insert K F p m s)) p = Some m"
  using assms by (simp add: cache_get_def cache_insert_def save_def)

section \<open>Properties\<close>

text \<open>C21. Insert and lookup: an enabled cache returns the manifest just inserted for a path as long
  as the file keeps its length and modification time, whatever the path's key; once either differs,
  it returns nothing for that path; and it returns nothing after \<open>invalidate\<close> or \<open>clear\<close>.\<close>

theorem cache_returns_only_fresh:
  assumes "mc_enabled (fst s)" and "file_fingerprint F p = Inr fp"
    and "cache_key G p = cache_key F p"
  shows "cache_get G (fst (cache_insert K F p m s)) p = (if file_fingerprint G p = Inr fp then Some m else None)
    \<and> cache_get G (fst (cache_invalidate K F p s)) p = None
    \<and> cache_get G (fst (cache_clear K s)) p = None"
  using assms
  by (auto simp: cache_get_def cache_insert_def cache_invalidate_def cache_clear_def save_def
      split: sum.splits)

definition empty_disk :: disk where
  "empty_disk = \<lparr>dk_files = (\<lambda>_. None), dk_unreadable = (\<lambda>_. False), dk_parent_fault = (\<lambda>_. None),
     dk_write_fault = (\<lambda>_. NoFault), dk_rename_fault = (\<lambda>_ _ _. None), dk_remove_fault = (\<lambda>_. None)\<rparr>"

text \<open>A codec for the witnesses: it writes the number of entries and reads an empty file back.\<close>

definition count_codec :: "('v, 'r, 'j) cache_codec" where
  "count_codec = \<lparr>cf_to_vec = (\<lambda>f. [word_of_nat (length (cf_entries f))]),
     cf_from_slice = (\<lambda>b. Inr \<lparr>cf_format_version = CACHE_FORMAT, cf_entries = []\<rparr>)\<rparr>"

definition sample_cache :: "(version3, version3, string) manifest_cache" where
  "sample_cache = \<lparr>mc_enabled = True, mc_path = Some ''/c/m.json'', mc_entries = []\<rparr>"

lemma sample_store_simps [simp]:
  "mc_enabled sample_cache" "mc_path sample_cache = Some ''/c/m.json''" "mc_entries sample_cache = []"
  "dk_files empty_disk q = None" "\<not> dk_unreadable empty_disk q" "dk_parent_fault empty_disk q = None"
  "dk_write_fault empty_disk q = NoFault" "dk_rename_fault empty_disk q r x = None"
  by (simp_all add: sample_cache_def empty_disk_def)

lemma sample_fingerprint:
  "file_fingerprint sample_system ''/p/app-engine-test'' = Inr \<lparr>fp_len = 10, fp_modified_nanos = 7\<rparr>"
  by (simp add: file_fingerprint_def sample_system_def)

theorem cache_returns_only_fresh_witness:
  "cache_get sample_system
      (fst (cache_insert count_codec sample_system ''/p/app-engine-test'' sample_manifest
        (sample_cache, empty_disk))) ''/p/app-engine-test'' = Some sample_manifest"
  using cache_returns_only_fresh[of "(sample_cache, empty_disk)", OF _ sample_fingerprint refl,
      of count_codec sample_manifest]
  by (simp add: sample_fingerprint)

text \<open>A disabled cache is inert: it never returns a manifest, and no operation changes it or the
  disk.\<close>

theorem disabled_cache_inert:
  assumes "\<not> mc_enabled (fst s)"
  shows "cache_get F (fst s) p = None \<and> cache_insert K F p m s = s \<and> cache_invalidate K F p s = s
    \<and> cache_clear K s = s"
  using assms by (simp add: cache_get_def cache_insert_def cache_invalidate_def cache_clear_def)

theorem disabled_cache_inert_witness:
  "cache_insert count_codec sample_system ''/p'' sample_manifest
      (cache_new count_codec sample_system empty_disk Disabled, empty_disk)
    = (cache_new count_codec sample_system empty_disk Disabled, empty_disk)"
  using disabled_cache_inert[of "(cache_new count_codec sample_system empty_disk Disabled, empty_disk)"
      sample_system "''/p''" count_codec sample_manifest]
  by (simp add: cache_new_def)

text \<open>C22. Writing the cache never tears it. Whatever operation of the disk fails, the cache file
  afterwards holds its old contents or the complete new ones; it is missing only if replacing it failed
  both with the old file in place and after its removal. No file but the cache and its temporary is
  touched.\<close>

theorem persist_never_tears:
  assumes "mc_path c = Some p" and "with_extension p ''json.tmp'' \<noteq> p"
  shows "(case persist K c D of
      (Inr _, D') \<Rightarrow> dk_files D' p =
        Some (cf_to_vec K \<lparr>cf_format_version = CACHE_FORMAT, cf_entries = mc_entries c\<rparr>)
    | (Inl _, D') \<Rightarrow> dk_files D' p = dk_files D p
        \<or> dk_files D' p = None \<and> dk_rename_fault D (with_extension p ''json.tmp'') p True \<noteq> None
          \<and> dk_rename_fault D (with_extension p ''json.tmp'') p False \<noteq> None)
    \<and> (\<forall>q. q \<noteq> p \<and> q \<noteq> with_extension p ''json.tmp'' \<longrightarrow>
         dk_files (snd (persist K c D)) q = dk_files D q)"
  by (rule persist_cases[OF assms(1) refl assms(2) refl])

theorem persist_never_tears_witness:
  "dk_files (snd (persist count_codec sample_cache
      (empty_disk\<lparr>dk_write_fault := (\<lambda>_. ShortFault 0 (IoOther ''disk full''))\<rparr>))) ''/c/m.json'' = None"
proof -
  let ?D = "empty_disk\<lparr>dk_write_fault := (\<lambda>_. ShortFault 0 (IoOther ''disk full''))\<rparr>"
  have t: "with_extension ''/c/m.json'' ''json.tmp'' = ''/c/m.json.tmp''" by code_simp
  have "fst (persist count_codec sample_cache ?D) = Inl (IoOther ''disk full'')"
    by (simp add: persist_def sample_cache_def empty_disk_def disk_write_def Let_def t)
  then show ?thesis
    using persist_never_tears[of sample_cache "''/c/m.json''" ?D count_codec]
    by (auto simp: sample_cache_def t empty_disk_def split: prod.splits)
qed

text \<open>What is written for a cache.\<close>

definition cache_contents :: "('v, 'r, 'j) manifest_cache \<Rightarrow> ('v, 'r, 'j) cache_file" where
  "cache_contents c = \<lparr>cf_format_version = CACHE_FORMAT, cf_entries = mc_entries c\<rparr>"

text \<open>C27. A restart keeps the cache: if the disk has no fault and the cache file survives
  serialisation, a cache loaded after an insertion answers every lookup as the one that wrote it, and
  so returns the inserted manifest.\<close>

theorem cache_survives_restart:
  assumes "mc_enabled (fst s)" "mc_path (fst s) = Some p" "with_extension p ''json.tmp'' \<noteq> p"
    and "dk_parent_fault (snd s) p = None" "dk_write_fault (snd s) (with_extension p ''json.tmp'') = NoFault"
    and "\<forall>x. dk_rename_fault (snd s) (with_extension p ''json.tmp'') p x = None"
    and "\<not> dk_unreadable (snd s) p" and "file_fingerprint F q = Inr fp"
    and "let f = cache_contents (fst (cache_insert K F q m s)) in cf_from_slice K (cf_to_vec K f) = Inr f"
  shows "(\<forall>r. cache_get F (cache_new K F (snd (cache_insert K F q m s)) (Disk p)) r =
          cache_get F (fst (cache_insert K F q m s)) r)
    \<and> cache_get F (cache_new K F (snd (cache_insert K F q m s)) (Disk p)) q = Some m"
proof -
  let ?s' = "cache_insert K F q m s"
  let ?c = "(fst s)\<lparr>mc_entries := bt_insert (cache_key F q) \<lparr>ce_fingerprint = fp, ce_manifest = m\<rparr>
              (mc_entries (fst s))\<rparr>"
  have s': "?s' = (?c, snd (persist K ?c (snd s)))"
    using assms(1,8) by (simp add: cache_insert_def save_def)
  have "persist K ?c (snd s) = (Inr (), (snd s)\<lparr>dk_files := (dk_files (snd s))(with_extension p ''json.tmp'' := None,
      p \<mapsto> cf_to_vec K \<lparr>cf_format_version = CACHE_FORMAT, cf_entries = mc_entries ?c\<rparr>)\<rparr>)"
    by (rule persist_fault_free) (use assms in simp_all)
  then have "disk_read (snd ?s') p = Some (cf_to_vec K (cache_contents ?c))"
    using assms(7) by (simp add: s' disk_read_def cache_contents_def)
  moreover have "cf_from_slice K (cf_to_vec K (cache_contents ?c)) = Inr (cache_contents ?c)"
    using assms(9) by (simp add: s' Let_def)
  ultimately have "cache_new K F (snd ?s') (Disk p) =
      \<lparr>mc_enabled = True, mc_path = Some p, mc_entries = mc_entries ?c\<rparr>"
    by (simp add: cache_new_def cache_load_def cache_contents_def)
  then have eq: "cache_get F (cache_new K F (snd ?s') (Disk p)) r = cache_get F (fst ?s') r" for r
    using assms(1) by (cases "file_fingerprint F r") (simp_all add: cache_get_def s')
  then show ?thesis using cache_get_insert_same[OF assms(1,8)] by simp
qed

text \<open>A codec that knows one file.\<close>

definition one_file_codec :: "('v, 'r, 'j) cache_file \<Rightarrow> ('v, 'r, 'j) cache_codec" where
  "one_file_codec f = \<lparr>cf_to_vec = (\<lambda>_. [1]), cf_from_slice = (\<lambda>b. if b = [1] then Inr f else Inl ''eof'')\<rparr>"

definition sample_codec :: "(version3, version3, string) cache_codec" where
  "sample_codec = one_file_codec (cache_contents (fst (cache_insert count_codec sample_system
     ''/p/app-engine-test'' sample_manifest (sample_cache, empty_disk))))"

theorem cache_survives_restart_witness:
  "cache_get sample_system (cache_new sample_codec sample_system
      (snd (cache_insert sample_codec sample_system ''/p/app-engine-test'' sample_manifest
        (sample_cache, empty_disk))) (Disk ''/c/m.json'')) ''/p/app-engine-test'' = Some sample_manifest"
proof -
  have t: "with_extension ''/c/m.json'' ''json.tmp'' = ''/c/m.json.tmp''" by code_simp
  have c: "fst (cache_insert sample_codec sample_system ''/p/app-engine-test'' sample_manifest (sample_cache, empty_disk))
      = fst (cache_insert count_codec sample_system ''/p/app-engine-test'' sample_manifest (sample_cache, empty_disk))"
    by (simp add: cache_insert_def sample_fingerprint save_def)
  have d: "let f = cache_contents (fst (cache_insert sample_codec sample_system ''/p/app-engine-test''
      sample_manifest (sample_cache, empty_disk))) in cf_from_slice sample_codec (cf_to_vec sample_codec f) = Inr f"
    by (simp add: Let_def c) (simp add: sample_codec_def one_file_codec_def)
  show ?thesis
    by (rule conjunct2, rule cache_survives_restart[OF _ _ _ _ _ _ _ sample_fingerprint d])
      (simp_all add: t)
qed

end
