(* ===== verification/Text.thy ===== *)
theory Text
  imports Process Cache
begin

text \<open>
  Texts: decimal numbers, \<open>str::trim\<close>, and the \<open>Display\<close> texts of the errors of
  \<open>src/crates/outboard-core/src/id.rs\<close>, \<open>manifest.rs\<close> and \<open>process.rs\<close> as their \<open>error\<close>
  attributes give them. The parts of a text that Rust's \<open>Debug\<close> or the operating system writes are
  the fields of \<open>std_text\<close>, an argument.
\<close>

record std_text =
  debug_str :: "string \<Rightarrow> string"
  debug_path :: "os_string \<Rightarrow> string"
  debug_duration :: "duration \<Rightarrow> string"
  show_io :: "io_error \<Rightarrow> string"

section \<open>Numbers\<close>

function show_nat :: "nat \<Rightarrow> string" where
  "show_nat n =
     (if n < 10 then [char_of (48 + n)] else show_nat (n div 10) @ [char_of (48 + n mod 10)])"
  by pat_completeness auto
termination
  by (relation "measure id") auto

declare show_nat.simps [simp del]

definition show_i32 :: "i32 \<Rightarrow> string" where
  "show_i32 w = (if sint w < 0 then ''-'' @ show_nat (nat (- sint w)) else show_nat (nat (sint w)))"

section \<open>White space\<close>

text \<open>The characters with the property \<open>White_Space\<close>, in UTF-8.\<close>

definition white_space :: "string list" where
  "white_space =
     map (map char_of) ([[9], [10], [11], [12], [13], [32], [194, 133], [194, 160], [225, 154, 128]]
       @ map (\<lambda>n. [226, 128, n]) [128..<139]
       @ [[226, 128, 168], [226, 128, 169], [226, 128, 175], [226, 129, 159], [227, 128, 128 :: nat]])"

function trim_leading :: "string list \<Rightarrow> string \<Rightarrow> string" where
  "trim_leading ws s =
     (case find (\<lambda>w. w \<noteq> [] \<and> take (length w) s = w) ws of
        None \<Rightarrow> s
      | Some w \<Rightarrow> trim_leading ws (drop (length w) s))"
  by pat_completeness auto
termination
proof (relation "measure (\<lambda>(ws, s). length s)")
  fix ws s w
  assume "find (\<lambda>w. w \<noteq> [] \<and> take (length w) s = w) ws = Some w"
  then have "w \<noteq> []" "take (length w) s = w" using find_SomeD by fast+
  then show "((ws, drop (length w) s), ws, s) \<in> measure (\<lambda>(ws, s). length s)"
    by (cases w; cases s) auto
qed simp

declare trim_leading.simps [simp del]

definition trim :: "string \<Rightarrow> string" where
  "trim s = rev (trim_leading (map rev white_space) (rev (trim_leading white_space s)))"

section \<open>Errors\<close>

definition identifier_error_to_string :: "std_text \<Rightarrow> identifier_error \<Rightarrow> string" where
  "identifier_error_to_string T e =
     ''invalid '' @ ie_kind e @ '' identifier '' @ debug_str T (ie_value e) @ '': '' @ ie_reason e"

fun manifest_error_to_string :: "std_text \<Rightarrow> manifest_error \<Rightarrow> string" where
  "manifest_error_to_string T (UnsupportedManifestVersion v) =
     ''unsupported manifest version '' @ show_nat (unat v) @ ''; host supports ''
       @ show_nat (unat MANIFEST_VERSION)"
| "manifest_error_to_string T MissingExecutionMode = ''plugin manifest has no execution modes''"
| "manifest_error_to_string T (DuplicateInterface i) =
     ''plugin manifest contains duplicate interface '' @ i"
| "manifest_error_to_string T (DuplicateCapability i) =
     ''plugin manifest contains duplicate capability '' @ i"
| "manifest_error_to_string T (InvalidIdentifier e) =
     ''invalid identifier in manifest: '' @ identifier_error_to_string T e"

fun process_error_to_string :: "std_text \<Rightarrow> process_error \<Rightarrow> string" where
  "process_error_to_string T (PSpawn e) = ''failed to spawn process: '' @ show_io T e"
| "process_error_to_string T (PWait e) = ''failed while waiting for process: '' @ show_io T e"
| "process_error_to_string T (PTimeout d _ _) = ''process exceeded timeout of '' @ debug_duration T d"
| "process_error_to_string T PReaderPanicked = ''failed to join process I/O thread''"
| "process_error_to_string T (PStdin e) = ''failed to write process stdin: '' @ show_io T e"

end
