(* ===== verification/Registry.thy ===== *)
theory Registry
  imports Text
begin

text \<open>
  The registry: \<open>src/crates/outboard-core/src/registry.rs\<close>. What it relies on outside the sources is
  the record \<open>host_env\<close>. The \<open>cache\<close> field of a \<open>Registry\<close> is behind a lock and changes
  through a shared reference: its contents and the disk are the \<open>store\<close> that the operations take
  and return; every other field is in the record \<open>registry\<close>. A score is an \<open>i64\<close> that is only
  compared: an \<open>int\<close>.
\<close>

section \<open>Data\<close>

record ('v, 'r, 'j) host_env =
  env_crates :: "('v, 'r, 'j) crates"
  env_manifest_json :: "bytes \<Rightarrow> json_error + ('v, 'r, 'j) manifest"
  env_cache_codec :: "('v, 'r, 'j) cache_codec"
  env_system :: system
  env_spawn :: spawner
  env_text :: std_text

record candidate_rejection =
  rej_candidate :: plugin_candidate
  rej_reason :: string

datatype registry_error =
    RegIdentifier identifier_error
  | RegDiscovery io_error
  | RegProcess process_error
  | RegManifestCommand os_string string
  | RegManifestJson os_string json_error
  | RegManifestInvalid os_string manifest_error
  | RegIdentityMismatch os_string plugin_id plugin_id
  | RegNoMatch plugin_kind string "candidate_rejection list"

record ('v, 'r, 'j) inspected_plugin =
  ins_candidate :: plugin_candidate
  ins_manifest :: "('v, 'r, 'j) manifest"

record ('v, 'r, 'j) resolved_plugin =
  rp_candidate :: plugin_candidate
  rp_manifest :: "('v, 'r, 'j) manifest"

definition rp_id :: "('v, 'r, 'j) resolved_plugin \<Rightarrow> plugin_id" where
  "rp_id p = pm_id (m_plugin (rp_manifest p))"

definition rp_command_with :: "('v, 'r, 'j) resolved_plugin \<Rightarrow> os_string list \<Rightarrow> command" where
  "rp_command_with p args =
     \<lparr>cmd_program = c_path (rp_candidate p), cmd_args = args, cmd_stdin_piped = False\<rparr>"

definition rp_run_capture ::
    "spawner \<Rightarrow> ('v, 'r, 'j) resolved_plugin \<Rightarrow> os_string list \<Rightarrow> bytes option \<Rightarrow> duration
     \<Rightarrow> process_error + captured_output" where
  "rp_run_capture S p args input timeout =
     run_capture_args S (c_path (rp_candidate p)) args input timeout"

record registry =
  rg_namespace :: namespace
  rg_explicit_paths :: "os_string list"
  rg_plugin_path_env :: "string option"
  rg_include_path :: bool
  rg_overrides :: "(plugin_kind \<times> plugin_name, os_string) btree"
  rg_control_timeout :: duration

record registry_builder = registry +
  rb_cache_mode :: cache_mode

section \<open>The builder\<close>

definition REGISTRY_TIMEOUT :: duration where
  "REGISTRY_TIMEOUT = 5000"

definition registry_builder_new :: "string \<Rightarrow> identifier_error + registry_builder" where
  "registry_builder_new v =
     res_bind (namespace_new v) (\<lambda>n.
       Inr \<lparr>rg_namespace = n, rg_explicit_paths = [],
            rg_plugin_path_env = Some (to_ascii_uppercase
              (replace_char (CHR ''-'') (CHR ''_'') (as_str n)) @ ''_PLUGIN_PATH''),
            rg_include_path = True, rg_overrides = [], rg_control_timeout = REGISTRY_TIMEOUT,
            rb_cache_mode = cache_mode_default\<rparr>)"

definition rb_plugin_path :: "os_string \<Rightarrow> registry_builder \<Rightarrow> registry_builder" where
  "rb_plugin_path p b = b\<lparr>rg_explicit_paths := rg_explicit_paths b @ [p]\<rparr>"

definition rb_plugin_path_env :: "string \<Rightarrow> registry_builder \<Rightarrow> registry_builder" where
  "rb_plugin_path_env v b = b\<lparr>rg_plugin_path_env := Some v\<rparr>"

definition rb_without_plugin_path_env :: "registry_builder \<Rightarrow> registry_builder" where
  "rb_without_plugin_path_env b = b\<lparr>rg_plugin_path_env := None\<rparr>"

definition rb_include_path :: "bool \<Rightarrow> registry_builder \<Rightarrow> registry_builder" where
  "rb_include_path v b = b\<lparr>rg_include_path := v\<rparr>"

definition rb_override_plugin ::
    "string \<Rightarrow> string \<Rightarrow> os_string \<Rightarrow> registry_builder \<Rightarrow> identifier_error + registry_builder" where
  "rb_override_plugin kind name path b =
     res_bind (plugin_kind_new kind) (\<lambda>k.
       res_bind (plugin_name_new name) (\<lambda>n.
         Inr (b\<lparr>rg_overrides := bt_insert (k, n) path (rg_overrides b)\<rparr>)))"

definition rb_cache :: "cache_mode \<Rightarrow> registry_builder \<Rightarrow> registry_builder" where
  "rb_cache m b = b\<lparr>rb_cache_mode := m\<rparr>"

definition rb_control_timeout :: "duration \<Rightarrow> registry_builder \<Rightarrow> registry_builder" where
  "rb_control_timeout t b = b\<lparr>rg_control_timeout := t\<rparr>"

definition rb_build ::
    "('v, 'r, 'j) host_env \<Rightarrow> disk \<Rightarrow> registry_builder \<Rightarrow> registry \<times> ('v, 'r, 'j) store" where
  "rb_build E D b =
     (registry.truncate b, (cache_new (env_cache_codec E) (env_system E) D (rb_cache_mode b), D))"

definition registry_new ::
    "('v, 'r, 'j) host_env \<Rightarrow> disk \<Rightarrow> string \<Rightarrow> identifier_error + registry \<times> ('v, 'r, 'j) store" where
  "registry_new E D v = res_bind (registry_builder_new v) (\<lambda>b. Inr (rb_build E D b))"

section \<open>Discovery\<close>

definition search_roots :: "system \<Rightarrow> registry \<Rightarrow> search_root list" where
  "search_roots F rg = build_roots F (rg_explicit_paths rg) (rg_plugin_path_env rg) (rg_include_path rg)"

definition kind_overrides :: "registry \<Rightarrow> plugin_kind \<Rightarrow> (plugin_name \<times> os_string) list" where
  "kind_overrides rg k =
     map (\<lambda>((_, n), p). (n, p)) (filter (\<lambda>((k', _), _). k' = k) (rg_overrides rg))"

definition discover :: "system \<Rightarrow> registry \<Rightarrow> string \<Rightarrow> registry_error + discovery_set" where
  "discover F rg kind =
     res_bind (res_map_err RegIdentifier (plugin_kind_new kind)) (\<lambda>k.
       res_map_err RegDiscovery
         (discover_in_roots F (rg_namespace rg) k (search_roots F rg) (kind_overrides rg k)))"

section \<open>Inspection\<close>

definition inspect_manifest_at ::
    "('v, 'r, 'j) host_env \<Rightarrow> plugin_id \<Rightarrow> os_string \<Rightarrow> duration
     \<Rightarrow> registry_error + ('v, 'r, 'j) manifest" where
  "inspect_manifest_at E i path timeout =
     res_bind (res_map_err RegProcess
       (run_capture_args (env_spawn E) path [''__outboard'', ''manifest''] None timeout)) (\<lambda>out.
     if \<not> exit_success (co_status out)
     then Inl (RegManifestCommand path (trim (to_string_lossy (from_vec (co_stderr out)))))
     else
       res_bind (res_map_err (RegManifestJson path) (env_manifest_json E (co_stdout out))) (\<lambda>m.
       res_bind (res_map_err (RegManifestInvalid path) (validate m)) (\<lambda>_.
       if pm_id (m_plugin m) \<noteq> i then Inl (RegIdentityMismatch path i (pm_id (m_plugin m)))
       else Inr m)))"

definition inspect ::
    "('v, 'r, 'j) host_env \<Rightarrow> registry \<Rightarrow> plugin_candidate \<Rightarrow> ('v, 'r, 'j) store
     \<Rightarrow> (registry_error + ('v, 'r, 'j) inspected_plugin) \<times> ('v, 'r, 'j) store" where
  "inspect E rg c s =
     (let (res, s1) =
        (case cache_get (env_system E) (fst s) (c_path c) of
           Some m \<Rightarrow> (Inr m, s)
         | None \<Rightarrow>
             (case inspect_manifest_at E (c_id c) (c_path c) (rg_control_timeout rg) of
                Inl e \<Rightarrow> (Inl e, s)
              | Inr m \<Rightarrow> (Inr m, cache_insert (env_cache_codec E) (env_system E) (c_path c) m s)))
      in case res of
           Inl e \<Rightarrow> (Inl e, s1)
         | Inr m \<Rightarrow>
             if pm_id (m_plugin m) \<noteq> c_id c
             then (Inl (RegIdentityMismatch (c_path c) (c_id c) (pm_id (m_plugin m))),
                   cache_invalidate (env_cache_codec E) (env_system E) (c_path c) s1)
             else (Inr \<lparr>ins_candidate = c, ins_manifest = m\<rparr>, s1))"

section \<open>Resolution\<close>

fun registry_error_to_string ::
    "std_text \<Rightarrow> (candidate_rejection list \<Rightarrow> string) \<Rightarrow> registry_error \<Rightarrow> string" where
  "registry_error_to_string T dbg (RegIdentifier e) =
     ''invalid Outboard identifier: '' @ identifier_error_to_string T e"
| "registry_error_to_string T dbg (RegDiscovery e) = ''plugin discovery failed: '' @ show_io T e"
| "registry_error_to_string T dbg (RegProcess e) =
     ''plugin process failed: '' @ process_error_to_string T e"
| "registry_error_to_string T dbg (RegManifestCommand p err) =
     ''plugin '' @ debug_path T p @ '' exited unsuccessfully while reporting its manifest: '' @ err"
| "registry_error_to_string T dbg (RegManifestJson p e) =
     ''plugin '' @ debug_path T p @ '' returned invalid manifest JSON: '' @ e"
| "registry_error_to_string T dbg (RegManifestInvalid p e) =
     ''plugin '' @ debug_path T p @ '' returned an invalid manifest: '' @ manifest_error_to_string T e"
| "registry_error_to_string T dbg (RegIdentityMismatch p d m) =
     ''plugin path identity mismatch at '' @ debug_path T p @ '': discovered '' @ plugin_id_to_string d
       @ '', manifest declares '' @ plugin_id_to_string m"
| "registry_error_to_string T dbg (RegNoMatch k n rs) =
     ''no plugin matched requirement for kind '' @ as_str k @ n @ ''; candidate rejections: '' @ dbg rs"

text \<open>The text of the errors \<open>inspect\<close> returns, which hold no rejections.\<close>

definition inspect_error_text :: "std_text \<Rightarrow> registry_error \<Rightarrow> string" where
  "inspect_error_text T e = registry_error_to_string T (\<lambda>_. []) e"

type_synonym ('v, 'r, 'j) scored = "int \<times> nat \<times> ('v, 'r, 'j) inspected_plugin"

fun weigh_candidates ::
    "('v, 'r, 'j) host_env \<Rightarrow> registry \<Rightarrow> ('r, 'j) plugin_requirement
     \<Rightarrow> (('v, 'r, 'j) inspected_plugin \<Rightarrow> int) \<Rightarrow> plugin_candidate list
     \<Rightarrow> candidate_rejection list \<Rightarrow> ('v, 'r, 'j) scored list \<Rightarrow> ('v, 'r, 'j) store
     \<Rightarrow> candidate_rejection list \<times> ('v, 'r, 'j) scored list \<times> ('v, 'r, 'j) store" where
  "weigh_candidates E rg req score [] rejected ok s = (rejected, ok, s)"
| "weigh_candidates E rg req score (c # cs) rejected ok s =
     (case inspect E rg c s of
        (Inl e, s') \<Rightarrow>
          weigh_candidates E rg req score cs
            (rejected @ [\<lparr>rej_candidate = c, rej_reason = inspect_error_text (env_text E) e\<rparr>]) ok s'
      | (Inr i, s') \<Rightarrow>
          let issues = compatibility_issues (env_crates E) (ins_manifest i) req in
          if issues = []
          then weigh_candidates E rg req score cs rejected
                 (ok @ [(score i, c_precedence (ins_candidate i), i)]) s'
          else weigh_candidates E rg req score cs
                 (rejected @ [\<lparr>rej_candidate = ins_candidate i,
                    rej_reason = join_with ''; '' (map (issue_to_string (env_crates E)) issues)\<rparr>]) ok s')"

definition name_matches :: "('r, 'j) plugin_requirement \<Rightarrow> plugin_candidate \<Rightarrow> bool" where
  "name_matches req c = (case pr_name req of None \<Rightarrow> True | Some n \<Rightarrow> pid_name (c_id c) = n)"

definition rank :: "('v, 'r, 'j) scored \<Rightarrow> int \<times> nat" where
  "rank x = (case x of (sc, pr, _) \<Rightarrow> (- sc, pr))"

definition resolve_best ::
    "('v, 'r, 'j) host_env \<Rightarrow> registry \<Rightarrow> ('r, 'j) plugin_requirement
     \<Rightarrow> (('v, 'r, 'j) inspected_plugin \<Rightarrow> int) \<Rightarrow> ('v, 'r, 'j) store
     \<Rightarrow> (registry_error + ('v, 'r, 'j) resolved_plugin) \<times> ('v, 'r, 'j) store" where
  "resolve_best E rg req score s =
     (case discover (env_system E) rg (as_str (pr_kind req)) of
        Inl e \<Rightarrow> (Inl e, s)
      | Inr d \<Rightarrow>
          (case weigh_candidates E rg req score (filter (name_matches req) (ds_selected d)) [] [] s of
             (rejected, ok, s') \<Rightarrow>
               (case sort_key rank ok of
                  (_, _, i) # _ \<Rightarrow>
                    (Inr \<lparr>rp_candidate = ins_candidate i, rp_manifest = ins_manifest i\<rparr>, s')
                | [] \<Rightarrow>
                    (Inl (RegNoMatch (pr_kind req)
                       (case pr_name req of None \<Rightarrow> [] | Some n \<Rightarrow> '' named '' @ as_str n) rejected), s'))))"

definition resolve ::
    "('v, 'r, 'j) host_env \<Rightarrow> registry \<Rightarrow> ('r, 'j) plugin_requirement \<Rightarrow> ('v, 'r, 'j) store
     \<Rightarrow> (registry_error + ('v, 'r, 'j) resolved_plugin) \<times> ('v, 'r, 'j) store" where
  "resolve E rg req s = resolve_best E rg req (\<lambda>_. 0) s"

section \<open>Inspection through the store\<close>

text \<open>The identity check that follows the cached fetch.\<close>

definition identity_check ::
    "plugin_candidate \<Rightarrow> registry_error + ('v, 'r, 'j) manifest
     \<Rightarrow> registry_error + ('v, 'r, 'j) inspected_plugin" where
  "identity_check c r =
     res_bind r (\<lambda>m.
       if pm_id (m_plugin m) \<noteq> c_id c
       then Inl (RegIdentityMismatch (c_path c) (c_id c) (pm_id (m_plugin m)))
       else Inr \<lparr>ins_candidate = c, ins_manifest = m\<rparr>)"

abbreviation fetch_manifest ::
    "('v, 'r, 'j) host_env \<Rightarrow> registry \<Rightarrow> plugin_candidate \<Rightarrow> registry_error + ('v, 'r, 'j) manifest" where
  "fetch_manifest E rg c \<equiv> inspect_manifest_at E (c_id c) (c_path c) (rg_control_timeout rg)"

lemma inspect_cached_fetch:
  "inspect E rg c s =
     (let (r, s1) = manifests.cached_fetch (env_system E) (env_cache_codec E) (fetch_manifest E rg c) (c_path c) s
      in (identity_check c r,
          if is_ok r \<and> \<not> is_ok (identity_check c r)
          then cache_invalidate (env_cache_codec E) (env_system E) (c_path c) s1 else s1))"
  by (simp add: inspect_def manifests.cached_fetch_def identity_check_def Let_def
      split: option.splits sum.splits)

lemma inspect_manifest_at_ok:
  "inspect_manifest_at E i p t = Inr m \<Longrightarrow> manifest_wf m \<and> pm_id (m_plugin m) = i"
  by (auto simp: inspect_manifest_at_def res_simps validate_ok split: if_splits)

lemma identity_check_ok:
  "identity_check c r = Inr i \<Longrightarrow>
   r = Inr (ins_manifest i) \<and> ins_candidate i = c \<and> pm_id (m_plugin (ins_manifest i)) = c_id c"
  by (auto simp: identity_check_def res_simps split: if_splits)

lemma inspect_ok:
  assumes "inspect E rg c s = (Inr i, s')"
  shows "ins_candidate i = c \<and> pm_id (m_plugin (ins_manifest i)) = c_id c
    \<and> (cache_get (env_system E) (fst s) (c_path c) = Some (ins_manifest i)
       \<or> fetch_manifest E rg c = Inr (ins_manifest i))"
proof -
  obtain r s1 where f: "manifests.cached_fetch (env_system E) (env_cache_codec E) (fetch_manifest E rg c) (c_path c) s
      = (r, s1)" by (rule prod.exhaust)
  with assms have "identity_check c r = Inr i" by (simp add: inspect_cached_fetch)
  from identity_check_ok[OF this] f show ?thesis by (auto dest: manifests.cached_fetch_origin)
qed

text \<open>Every manifest the cache can answer with satisfies \<open>Q\<close>.\<close>

definition cached_all ::
    "system \<Rightarrow> (('v, 'r, 'j) manifest \<Rightarrow> bool) \<Rightarrow> ('v, 'r, 'j) store \<Rightarrow> bool" where
  "cached_all F Q s \<longleftrightarrow> (\<forall>p m. cache_get F (fst s) p = Some m \<longrightarrow> Q m)"

lemma inspect_keeps_cached:
  assumes "cached_all (env_system E) manifest_wf s"
  shows "cached_all (env_system E) manifest_wf (snd (inspect E rg c s))"
proof -
  let ?K = "env_cache_codec E" and ?F = "env_system E"
  obtain r s1 where f: "manifests.cached_fetch ?F ?K (fetch_manifest E rg c) (c_path c) s = (r, s1)"
    by (rule prod.exhaust)
  have inv: "cached_all ?F manifest_wf s1"
    unfolding cached_all_def
  proof (intro allI impI)
    fix p m
    assume "cache_get ?F (fst s1) p = Some m"
    then show "manifest_wf m"
      using f manifests.cached_fetch_invariant[of ?F s manifest_wf "fetch_manifest E rg c" ?K "c_path c" p m]
        assms inspect_manifest_at_ok[of E "c_id c" "c_path c" "rg_control_timeout rg"]
      by (simp add: cached_all_def)
  qed
  then have "cached_all ?F manifest_wf (cache_invalidate ?K ?F (c_path c) s1)"
    by (auto simp: cached_all_def dest: cache_get_invalidate_other)
  with inv show ?thesis using f by (simp add: inspect_cached_fetch)
qed

section \<open>Resolution as a choice among inspected candidates\<close>

fun inspect_each ::
    "('v, 'r, 'j) host_env \<Rightarrow> registry \<Rightarrow> plugin_candidate list \<Rightarrow> ('v, 'r, 'j) store
     \<Rightarrow> (plugin_candidate \<times> (registry_error + ('v, 'r, 'j) inspected_plugin)) list" where
  "inspect_each E rg [] s = []"
| "inspect_each E rg (c # cs) s =
     (c, fst (inspect E rg c s)) # inspect_each E rg cs (snd (inspect E rg c s))"

definition acceptable ::
    "('v, 'r, 'j) host_env \<Rightarrow> ('r, 'j) plugin_requirement
     \<Rightarrow> (plugin_candidate \<times> (registry_error + ('v, 'r, 'j) inspected_plugin)) list
     \<Rightarrow> ('v, 'r, 'j) inspected_plugin list" where
  "acceptable E req rs =
     List.map_filter (\<lambda>(c, r). case r of
       Inr i \<Rightarrow> if compatibility_issues (env_crates E) (ins_manifest i) req = [] then Some i else None
     | Inl _ \<Rightarrow> None) rs"

definition rejections ::
    "('v, 'r, 'j) host_env \<Rightarrow> ('r, 'j) plugin_requirement
     \<Rightarrow> (plugin_candidate \<times> (registry_error + ('v, 'r, 'j) inspected_plugin)) list
     \<Rightarrow> candidate_rejection list" where
  "rejections E req rs =
     List.map_filter (\<lambda>(c, r). case r of
       Inl e \<Rightarrow> Some \<lparr>rej_candidate = c, rej_reason = inspect_error_text (env_text E) e\<rparr>
     | Inr i \<Rightarrow>
         if compatibility_issues (env_crates E) (ins_manifest i) req = [] then None
         else Some \<lparr>rej_candidate = ins_candidate i,
           rej_reason = join_with ''; '' (map (issue_to_string (env_crates E))
             (compatibility_issues (env_crates E) (ins_manifest i) req))\<rparr>) rs"

definition scored ::
    "(('v, 'r, 'j) inspected_plugin \<Rightarrow> int) \<Rightarrow> ('v, 'r, 'j) inspected_plugin \<Rightarrow> ('v, 'r, 'j) scored" where
  "scored score i = (score i, c_precedence (ins_candidate i), i)"

lemma weigh_candidates_eq:
  "\<exists>s'. weigh_candidates E rg req score cs rejected ok s =
     (rejected @ rejections E req (inspect_each E rg cs s),
      ok @ map (scored score) (acceptable E req (inspect_each E rg cs s)), s')"
proof (induction cs arbitrary: rejected ok s)
  case Nil
  then show ?case by (simp add: rejections_def acceptable_def List.map_filter_simps)
next
  case (Cons c cs)
  obtain r s1 where i: "inspect E rg c s = (r, s1)" by (rule prod.exhaust)
  show ?case
  proof (cases r)
    case (Inl e)
    then show ?thesis using i Cons.IH[of "rejected @ [\<lparr>rej_candidate = c, rej_reason = inspect_error_text (env_text E) e\<rparr>]" ok s1]
      by (simp add: rejections_def acceptable_def List.map_filter_simps)
  next
    case (Inr x)
    let ?iss = "compatibility_issues (env_crates E) (ins_manifest x) req"
    let ?rej = "\<lparr>rej_candidate = ins_candidate x,
      rej_reason = join_with ''; '' (map (issue_to_string (env_crates E)) ?iss)\<rparr>"
    show ?thesis
      using i Inr Cons.IH[of rejected "ok @ [scored score x]" s1] Cons.IH[of "rejected @ [?rej]" ok s1]
      by (cases "?iss = []") (simp_all add: rejections_def acceptable_def List.map_filter_simps scored_def Let_def)
  qed
qed

lemma acceptable_mem:
  assumes "i \<in> set (acceptable E req (inspect_each E rg cs s))"
  shows "ins_candidate i \<in> set cs \<and> pm_id (m_plugin (ins_manifest i)) = c_id (ins_candidate i)
    \<and> compatible (env_crates E) (ins_manifest i) req"
  using assms
proof (induction cs arbitrary: s)
  case Nil
  then show ?case by (simp add: acceptable_def List.map_filter_simps)
next
  case (Cons c cs)
  obtain r s1 where r: "inspect E rg c s = (r, s1)" by (rule prod.exhaust)
  from Cons.prems consider "i \<in> set (acceptable E req (inspect_each E rg cs s1))"
    | "r = Inr i" "compatibility_issues (env_crates E) (ins_manifest i) req = []"
    using r by (auto simp: acceptable_def List.map_filter_simps split: sum.splits if_splits)
  then show ?case
  proof cases
    case 1
    then show ?thesis using Cons.IH by auto
  next
    case 2
    then show ?thesis using inspect_ok[of E rg c s i s1] r by (simp add: no_compatibility_issues)
  qed
qed

lemma hd_sort_key:
  assumes "sort_key f xs = y # ys"
  shows "y \<in> set xs \<and> (\<forall>x \<in> set xs. f y \<le> f x)"
proof -
  have "set xs = set (y # ys)" using assms set_sort by metis
  moreover have "sorted (map f (y # ys))" using sorted_sort_key[of f xs] assms by simp
  ultimately show ?thesis by auto
qed

lemma acceptable_simps [simp]:
  "acceptable E req [] = []"
  "acceptable E req ((c, Inl e) # rs) = acceptable E req rs"
  "acceptable E req ((c, Inr i) # rs) =
     (if compatibility_issues (env_crates E) (ins_manifest i) req = [] then [i] else []) @ acceptable E req rs"
  by (simp_all add: acceptable_def List.map_filter_simps)

lemma rejected_candidate_simps [simp]:
  "rejections E req [] = []"
  "map rej_candidate (rejections E req ((c, Inl e) # rs)) = c # map rej_candidate (rejections E req rs)"
  "map rej_candidate (rejections E req ((c, Inr i) # rs)) =
     (if compatibility_issues (env_crates E) (ins_manifest i) req = [] then [] else [ins_candidate i])
     @ map rej_candidate (rejections E req rs)"
  by (simp_all add: rejections_def List.map_filter_simps)

lemma rejections_complete:
  "acceptable E req (inspect_each E rg cs s) = [] \<Longrightarrow>
   map rej_candidate (rejections E req (inspect_each E rg cs s)) = cs"
proof (induction cs arbitrary: s)
  case Nil
  then show ?case by simp
next
  case (Cons c cs)
  obtain r s1 where r: "inspect E rg c s = (r, s1)" by (rule prod.exhaust)
  show ?case
  proof (cases r)
    case (Inl e)
    then show ?thesis using Cons.prems r Cons.IH[of s1] by simp
  next
    case (Inr i)
    then have "ins_candidate i = c" using inspect_ok[of E rg c s i s1] r by simp
    then show ?thesis using Cons.prems r Inr Cons.IH[of s1] by (simp split: if_splits)
  qed
qed

lemma resolve_best_cases:
  assumes "discover (env_system E) rg (as_str (pr_kind req)) = Inr d"
    and cs_def: "cs = filter (name_matches req) (ds_selected d)"
    and acc_def: "acc = acceptable E req (inspect_each E rg cs s)"
  shows "case fst (resolve_best E rg req score s) of
     Inr p \<Rightarrow> \<exists>i \<in> set acc. p = \<lparr>rp_candidate = ins_candidate i, rp_manifest = ins_manifest i\<rparr>
       \<and> (\<forall>j \<in> set acc. rank (scored score i) \<le> rank (scored score j))
   | Inl e \<Rightarrow> acc = [] \<and> e = RegNoMatch (pr_kind req)
       (case pr_name req of None \<Rightarrow> [] | Some n \<Rightarrow> '' named '' @ as_str n)
       (rejections E req (inspect_each E rg cs s))"
proof -
  obtain s' where w: "weigh_candidates E rg req score cs [] [] s =
      (rejections E req (inspect_each E rg cs s), map (scored score) acc, s')"
    using weigh_candidates_eq[of E rg req score cs "[]" "[]" s] unfolding acc_def by auto
  show ?thesis
  proof (cases "sort_key rank (map (scored score) acc)")
    case Nil
    then have "acc = []" using set_sort[of rank "map (scored score) acc"] by simp
    then show ?thesis using assms(1) w Nil by (simp add: resolve_best_def flip: cs_def)
  next
    case (Cons y ys)
    from hd_sort_key[OF Cons] obtain i where i: "i \<in> set acc" "y = scored score i"
      and least: "\<forall>j \<in> set acc. rank y \<le> rank (scored score j)" by auto
    have "fst (resolve_best E rg req score s) =
        Inr \<lparr>rp_candidate = ins_candidate i, rp_manifest = ins_manifest i\<rparr>"
      using assms(1) w Cons i(2) by (simp add: resolve_best_def scored_def flip: cs_def)
    then show ?thesis using i least by auto
  qed
qed

lemma rank_scored_le:
  "rank (scored score i) \<le> rank (scored score j) \<longleftrightarrow>
     score j < score i \<or> score j = score i \<and> c_precedence (ins_candidate i) \<le> c_precedence (ins_candidate j)"
  by (auto simp: rank_def scored_def less_eq_prod_def)

lemma kind_overrides_get:
  "bt_get (kind_overrides rg k) n = bt_get (rg_overrides rg) (k, n)"
proof -
  have "map_of (map (\<lambda>((_, n), p). (n, p)) (filter (\<lambda>((k', _), _). k' = k) xs)) n = map_of xs (k, n)"
    for xs :: "((plugin_kind \<times> plugin_name) \<times> os_string) list"
    by (induction xs) auto
  then show ?thesis by (simp add: kind_overrides_def)
qed

lemma cache_get_shared:
  assumes "cache_key F p = cache_key F q" "file_fingerprint F p = file_fingerprint F q"
  shows "cache_get F c p = cache_get F c q"
  by (simp only: cache_get_def assms)

lemma inspect_manifest_at_cong:
  "env_spawn E = env_spawn E' \<Longrightarrow> env_manifest_json E = env_manifest_json E' \<Longrightarrow>
   inspect_manifest_at E i p t = inspect_manifest_at E' i p t"
  by (simp only: inspect_manifest_at_def)

section \<open>A sample registry\<close>

definition sample_env :: "(version3, version3, string) host_env" where
  "sample_env =
     \<lparr>env_crates = caret_crates, env_manifest_json = (\<lambda>_. Inr sample_manifest),
      env_cache_codec = count_codec, env_system = sample_system, env_spawn = (\<lambda>_. Inr sample_child),
      env_text = \<lparr>debug_str = id, debug_path = id, debug_duration = (\<lambda>_. []), show_io = (\<lambda>_. [])\<rparr>\<rparr>"

definition sample_registry :: registry where
  "sample_registry =
     \<lparr>rg_namespace = Ident ''app'', rg_explicit_paths = [''/p''], rg_plugin_path_env = None,
      rg_include_path = False, rg_overrides = [], rg_control_timeout = 5000\<rparr>"

definition plain_requirement :: "(version3, string) plugin_requirement" where
  "plain_requirement =
     \<lparr>pr_kind = Ident ''engine'', pr_name = None, pr_interface = None, pr_capabilities = [],
      pr_execution = Some OneShot\<rparr>"

definition memory_cache :: "(version3, version3, string) manifest_cache" where
  "memory_cache = cache_new count_codec sample_system empty_disk Memory"

definition found_candidate :: plugin_candidate where
  "found_candidate = sample_candidate\<lparr>c_source := ExplicitPath\<rparr>"

lemma sample_env_simps [simp]:
  "env_crates sample_env = caret_crates" "env_system sample_env = sample_system"
  "env_cache_codec sample_env = count_codec" "env_manifest_json sample_env b = Inr sample_manifest"
  "env_spawn sample_env cmd = Inr sample_child"
  by (simp_all add: sample_env_def)

lemma sample_discover:
  "discover sample_system sample_registry ''engine'' =
     Inr \<lparr>ds_selected = [found_candidate], ds_shadowed = [],
          ds_roots = [\<lparr>sr_path = ''/p'', sr_source = ExplicitPath\<rparr>]\<rparr>"
  by code_simp

lemma sample_fetch: "fetch_manifest sample_env sample_registry found_candidate = Inr sample_manifest"
proof -
  have "run_capture_args (env_spawn sample_env) p a None 5000 =
      Inr \<lparr>co_status = ExitStatus (Some 0), co_stdout = [1, 2], co_stderr = []\<rparr>" for p a
    by (simp add: run_capture_args_def run_capture_def) code_simp
  moreover have "pm_id (m_plugin sample_manifest) = c_id found_candidate" by code_simp
  ultimately show ?thesis
    using sample_manifest_wf
    by (simp add: inspect_manifest_at_def sample_registry_def exit_success_def flip: validate_ok)
qed

lemma sample_memory: "cache_get sample_system memory_cache p = None"
  by (simp add: memory_cache_def cache_new_def cache_get_def split: sum.splits)

lemma sample_inspect:
  "fst (inspect sample_env sample_registry found_candidate (memory_cache, empty_disk)) =
     Inr \<lparr>ins_candidate = found_candidate, ins_manifest = sample_manifest\<rparr>"
proof -
  have "pm_id (m_plugin sample_manifest) = c_id found_candidate" by code_simp
  then show ?thesis by (simp add: inspect_def sample_memory sample_fetch)
qed

section \<open>Properties\<close>

text \<open>C10. What \<open>Registry::resolve_best\<close> returns satisfies the requirement: the plugin is a selected
  candidate of the search, of the registry's namespace and the kind and name asked for, its manifest
  declares that very identity, and the manifest is compatible with every clause of the requirement.\<close>

theorem resolved_plugin_satisfies:
  assumes "resolve_best E rg req score s = (Inr p, s')"
  shows "\<exists>d. discover (env_system E) rg (as_str (pr_kind req)) = Inr d
    \<and> rp_candidate p \<in> set (ds_selected d)
    \<and> rp_id p = c_id (rp_candidate p)
    \<and> compatible (env_crates E) (rp_manifest p) req
    \<and> (\<forall>n. pr_name req = Some n \<longrightarrow> pid_name (rp_id p) = n)"
proof -
  obtain d where d: "discover (env_system E) rg (as_str (pr_kind req)) = Inr d"
    using assms by (auto simp: resolve_best_def split: sum.splits)
  from resolve_best_cases[OF d refl refl, of s score] assms obtain i where
    i: "i \<in> set (acceptable E req (inspect_each E rg (filter (name_matches req) (ds_selected d)) s))"
    and p: "p = \<lparr>rp_candidate = ins_candidate i, rp_manifest = ins_manifest i\<rparr>"
    by auto
  from acceptable_mem[OF i] d show ?thesis by (auto simp: p rp_id_def name_matches_def)
qed

theorem resolved_plugin_satisfies_witness:
  "compatible caret_crates sample_manifest plain_requirement
    \<and> fst (resolve_best sample_env sample_registry plain_requirement (\<lambda>_. 0) (memory_cache, empty_disk))
        = Inr \<lparr>rp_candidate = found_candidate, rp_manifest = sample_manifest\<rparr>"
proof -
  have k: "as_str (pr_kind plain_requirement) = ''engine''" "name_matches plain_requirement found_candidate"
    by (simp_all add: plain_requirement_def name_matches_def)
  have "compatibility_issues caret_crates sample_manifest plain_requirement = []" by code_simp
  then have r: "fst (resolve_best sample_env sample_registry plain_requirement (\<lambda>_. 0) (memory_cache, empty_disk))
        = Inr \<lparr>rp_candidate = found_candidate, rp_manifest = sample_manifest\<rparr>"
    using sample_inspect
    by (cases "inspect sample_env sample_registry found_candidate (memory_cache, empty_disk)")
      (simp add: resolve_best_def sample_discover k)
  then obtain s' where "resolve_best sample_env sample_registry plain_requirement (\<lambda>_. 0) (memory_cache, empty_disk)
      = (Inr \<lparr>rp_candidate = found_candidate, rp_manifest = sample_manifest\<rparr>, s')"
    by (metis prod.collapse)
  from resolved_plugin_satisfies[OF this] r show ?thesis by auto
qed

text \<open>C4. \<open>Registry::resolve_best\<close> chooses the best: no acceptable candidate (one that could be
  inspected and has no issue) scores higher than the one returned, and of those that score the same
  none precedes it in the search. If there is no acceptable candidate it fails with \<open>NoMatch\<close>, which
  names every candidate considered, in order.\<close>

theorem resolve_best_is_best:
  assumes "discover (env_system E) rg (as_str (pr_kind req)) = Inr d"
    and "acc = acceptable E req (inspect_each E rg (filter (name_matches req) (ds_selected d)) s)"
  shows "case fst (resolve_best E rg req score s) of
     Inr p \<Rightarrow> \<exists>i \<in> set acc. p = \<lparr>rp_candidate = ins_candidate i, rp_manifest = ins_manifest i\<rparr>
       \<and> (\<forall>j \<in> set acc. score j < score i \<or> score j = score i
            \<and> c_precedence (rp_candidate p) \<le> c_precedence (ins_candidate j))
   | Inl e \<Rightarrow> acc = [] \<and> (\<exists>nm rs. e = RegNoMatch (pr_kind req) nm rs
       \<and> map rej_candidate rs = filter (name_matches req) (ds_selected d))"
  using resolve_best_cases[OF assms(1) refl assms(2), of score]
    rejections_complete[of E req rg "filter (name_matches req) (ds_selected d)" s]
  by (auto simp: rank_scored_le assms(2) split: sum.splits)

theorem resolve_best_is_best_witness:
  "\<exists>p. fst (resolve_best sample_env sample_registry plain_requirement (\<lambda>_. 0) (memory_cache, empty_disk)) = Inr p
    \<and> rp_candidate p = found_candidate"
proof -
  have k: "as_str (pr_kind plain_requirement) = ''engine''" "name_matches plain_requirement found_candidate"
    by (simp_all add: plain_requirement_def name_matches_def)
  have c: "compatibility_issues caret_crates sample_manifest plain_requirement = []" by code_simp
  have acc: "acceptable sample_env plain_requirement
      (inspect_each sample_env sample_registry [found_candidate] (memory_cache, empty_disk))
      = [\<lparr>ins_candidate = found_candidate, ins_manifest = sample_manifest\<rparr>]"
    using sample_inspect c by simp
  show ?thesis
    using resolve_best_is_best[of sample_env sample_registry plain_requirement _ _ "(memory_cache, empty_disk)" "\<lambda>_. 0",
        unfolded k sample_env_simps, OF sample_discover refl] acc k
    by (auto split: sum.splits)
qed

text \<open>C26. Inspection is honest about identity and never trusts an invalid manifest: what
  \<open>Registry::inspect\<close> returns declares the id of the candidate; and if every manifest the cache holds
  is valid, the returned one is, and the cache still holds only valid ones.\<close>

theorem inspect_identity_and_validity:
  assumes "cached_all (env_system E) manifest_wf s"
  shows "cached_all (env_system E) manifest_wf (snd (inspect E rg c s))
    \<and> (\<forall>i. fst (inspect E rg c s) = Inr i \<longrightarrow>
         ins_candidate i = c \<and> pm_id (m_plugin (ins_manifest i)) = c_id c \<and> manifest_wf (ins_manifest i))"
proof -
  have "ins_candidate i = c \<and> pm_id (m_plugin (ins_manifest i)) = c_id c \<and> manifest_wf (ins_manifest i)"
    if "fst (inspect E rg c s) = Inr i" for i
    using inspect_ok[of E rg c s i "snd (inspect E rg c s)"] that assms
      inspect_manifest_at_ok[of E "c_id c" "c_path c" "rg_control_timeout rg" "ins_manifest i"]
    by (auto simp: cached_all_def prod_eq_iff)
  then show ?thesis using inspect_keeps_cached[OF assms] by blast
qed

theorem inspect_identity_and_validity_witness:
  "manifest_wf sample_manifest
    \<and> fst (inspect sample_env sample_registry found_candidate (memory_cache, empty_disk))
        = Inr \<lparr>ins_candidate = found_candidate, ins_manifest = sample_manifest\<rparr>"
proof -
  have "cached_all (env_system sample_env) manifest_wf (memory_cache, empty_disk)"
    by (simp add: cached_all_def sample_memory)
  from inspect_identity_and_validity[OF this, of sample_registry found_candidate] sample_inspect
  show ?thesis by simp
qed

text \<open>A plugin is asked for its manifest once: after a successful inspection with an enabled cache,
  a second one of the same candidate gives the same manifest while the file is unchanged, whatever the
  executable would now answer.\<close>

theorem second_inspection_from_cache:
  assumes "inspect E rg c s = (Inr i, s')" and "mc_enabled (fst s)"
    and "file_fingerprint (env_system E) (c_path c) = Inr fp"
    and "env_system E' = env_system E"
  shows "inspect E' rg c s' = (Inr i, s')"
proof -
  have "cache_get (env_system E) (fst s') (c_path c) = Some (ins_manifest i)"
    using assms(1-3)
    by (auto simp: inspect_def Let_def cache_get_insert_same split: option.splits sum.splits if_splits)
  then show ?thesis using inspect_ok[OF assms(1)] assms(4) by (simp add: inspect_def)
qed

theorem second_inspection_from_cache_witness:
  "\<exists>s'. inspect (sample_env\<lparr>env_spawn := (\<lambda>_. Inl IoNotFound)\<rparr>) sample_registry found_candidate s'
     = (Inr \<lparr>ins_candidate = found_candidate, ins_manifest = sample_manifest\<rparr>, s')"
proof -
  have fp: "file_fingerprint (env_system sample_env) (c_path found_candidate) =
      Inr \<lparr>fp_len = 10, fp_modified_nanos = 7\<rparr>"
    by (simp add: found_candidate_def sample_candidate_def sample_fingerprint)
  have en: "mc_enabled (fst (memory_cache, empty_disk))" by (simp add: memory_cache_def cache_new_def)
  have i: "inspect sample_env sample_registry found_candidate (memory_cache, empty_disk) =
      (Inr \<lparr>ins_candidate = found_candidate, ins_manifest = sample_manifest\<rparr>,
       snd (inspect sample_env sample_registry found_candidate (memory_cache, empty_disk)))"
    using sample_inspect by (simp add: prod_eq_iff)
  show ?thesis by (rule exI, rule second_inspection_from_cache[OF i en fp]) simp
qed

text \<open>The override of a registry builder reaches discovery: after \<open>override_plugin(kind, name,
  path)\<close> the built registry selects \<open>path\<close> for that kind and name.\<close>

theorem registry_override_selected:
  assumes "rb_override_plugin kind name path b = Inr b'"
    and "discover F (fst (rb_build E D b')) kind = Inr d"
  shows "map_option c_path (selected_by_name d (Ident name)) = Some path"
proof -
  have b': "b' = b\<lparr>rg_overrides := bt_insert (Ident kind, Ident name) path (rg_overrides b)\<rparr>"
    and k: "plugin_kind_new kind = Inr (Ident kind)"
    using assms(1) by (auto simp: rb_override_plugin_def res_simps kind_id.new_ok name_id.new_ok)
  have "bt_get (kind_overrides (registry.truncate b') (Ident kind)) (Ident name) = Some path"
    by (simp add: kind_overrides_get b' registry.truncate_def)
  moreover have "discover_in_roots F (rg_namespace b) (Ident kind) (search_roots F (registry.truncate b'))
      (kind_overrides (registry.truncate b') (Ident kind)) = Inr d"
    using assms(2) k by (simp add: discover_def rb_build_def b' registry.truncate_def)
  ultimately show ?thesis using override_selected by (fastforce simp: option.map_comp)
qed

definition sample_builder_override :: registry_builder where
  "sample_builder_override =
     \<lparr>rg_namespace = Ident ''app'', rg_explicit_paths = [''/p''], rg_plugin_path_env = None,
      rg_include_path = False, rg_overrides = [((Ident ''engine'', Ident ''test''), ''/o/mine'')],
      rg_control_timeout = 5000, rb_cache_mode = Memory\<rparr>"

theorem registry_override_selected_witness:
  "\<exists>d. discover sample_system (fst (rb_build sample_env empty_disk sample_builder_override)) ''engine'' = Inr d
     \<and> map_option c_path (selected_by_name d (Ident ''test'')) = Some ''/o/mine''"
proof -
  let ?d = "discover sample_system (registry.truncate sample_builder_override) ''engine''"
  have o: "rb_override_plugin ''engine'' ''test'' ''/o/mine'' (sample_builder_override\<lparr>rg_overrides := []\<rparr>)
      = Inr sample_builder_override"
    by code_simp
  have "is_ok ?d" by code_simp
  then obtain d where "discover sample_system (fst (rb_build sample_env empty_disk sample_builder_override)) ''engine'' = Inr d"
    by (auto simp: is_ok_iff rb_build_def)
  with registry_override_selected[OF o this] show ?thesis by simp
qed

text \<open>C31. Two candidates that are one file (links to one executable that tells its identity by the name
  it is called by) share a cache entry: once the first is cached, inspecting the second fails with
  \<open>IdentityMismatch\<close> without asking the executable, whatever it would report.\<close>

theorem shared_cache_entry_mismatch:
  assumes "inspect E rg c s = (Inr i, s')" and "mc_enabled (fst s)"
    and "file_fingerprint (env_system E) (c_path c) = Inr fp"
    and "file_fingerprint (env_system E) (c_path c') = Inr fp"
    and "cache_key (env_system E) (c_path c') = cache_key (env_system E) (c_path c)" and "c_id c' \<noteq> c_id c"
  shows "fst (inspect E rg c' s') = Inl (RegIdentityMismatch (c_path c') (c_id c') (c_id c))"
proof -
  have "cache_get (env_system E) (fst s') (c_path c) = Some (ins_manifest i)"
    using assms(1-3)
    by (auto simp: inspect_def Let_def cache_get_insert_same split: option.splits sum.splits if_splits)
  then have "cache_get (env_system E) (fst s') (c_path c') = Some (ins_manifest i)"
    using cache_get_shared[OF assms(5), of "fst s'"] assms(3,4) by simp
  then show ?thesis using inspect_ok[OF assms(1)] assms(6) by (simp add: inspect_def)
qed

definition linked_env :: "(version3, version3, string) host_env" where
  "linked_env = sample_env\<lparr>env_system := sample_system\<lparr>
     sys_metadata := (\<lambda>_. Inr \<lparr>fm_is_file = True, fm_mode = 493, fm_len = 10, fm_modified = Some 7\<rparr>),
     sys_canonicalize := (\<lambda>_. Inr ''/p/app-engine-test'')\<rparr>\<rparr>"

definition linked_candidate :: plugin_candidate where
  "linked_candidate = found_candidate\<lparr>c_id := PluginId (Ident ''app'') (Ident ''engine'') (Ident ''other''),
     c_path := ''/p/app-engine-other''\<rparr>"

theorem shared_cache_entry_mismatch_witness:
  "fst (inspect linked_env sample_registry linked_candidate
      (snd (inspect linked_env sample_registry found_candidate (memory_cache, empty_disk))))
   = Inl (RegIdentityMismatch ''/p/app-engine-other''
       (PluginId (Ident ''app'') (Ident ''engine'') (Ident ''other'')) (c_id found_candidate))"
proof -
  have fp: "file_fingerprint (env_system linked_env) p = Inr \<lparr>fp_len = 10, fp_modified_nanos = 7\<rparr>" for p
    by (simp add: linked_env_def file_fingerprint_def)
  have key: "cache_key (env_system linked_env) (c_path linked_candidate) =
      cache_key (env_system linked_env) (c_path found_candidate)"
    by (simp add: linked_env_def cache_key_def)
  have en: "mc_enabled (fst (memory_cache, empty_disk))" by (simp add: memory_cache_def cache_new_def)
  have "fetch_manifest linked_env sample_registry found_candidate = Inr sample_manifest"
    using sample_fetch inspect_manifest_at_cong[of linked_env sample_env] by (simp add: linked_env_def)
  moreover have "cache_get (env_system linked_env) memory_cache (c_path found_candidate) = None"
    by (simp add: memory_cache_def cache_new_def cache_get_def split: sum.splits)
  moreover have "pm_id (m_plugin sample_manifest) = c_id found_candidate" by code_simp
  ultimately have "inspect linked_env sample_registry found_candidate (memory_cache, empty_disk) =
      (Inr \<lparr>ins_candidate = found_candidate, ins_manifest = sample_manifest\<rparr>,
       snd (inspect linked_env sample_registry found_candidate (memory_cache, empty_disk)))"
    by (simp add: inspect_def)
  from shared_cache_entry_mismatch[OF this en fp fp key] show ?thesis
    by (simp add: linked_candidate_def found_candidate_def sample_candidate_def)
qed

end
