(* ===== verification/Protocol.thy ===== *)
theory Protocol
  imports Manifest
begin

unbundle bit_operations_syntax

text \<open>
  The worker protocol: \<open>src/crates/outboard-protocol/src/lib.rs\<close>, and the asynchronous framing of
  \<open>src/crates/outboard-tokio/src/lib.rs\<close>, which is proved to be the same. A byte stream that is
  read is the bytes still to come and how it ends; one that is written is what was written and
  where it breaks. \<open>serde_json\<close> is the parameter \<open>codec\<close>. The platform is Unix.
\<close>

section \<open>OS strings on the wire\<close>

datatype wire_os_string = Utf8 string | Unix bytes | Windows "u16 list"

datatype wire_string_error = PlatformMismatch string

definition from_os :: "os_string \<Rightarrow> wire_os_string" where
  "from_os v = (case to_str v of Some s \<Rightarrow> Utf8 s | None \<Rightarrow> Unix (as_bytes v))"

fun into_os :: "wire_os_string \<Rightarrow> wire_string_error + os_string" where
  "into_os (Utf8 s) = Inr s"
| "into_os (Unix b) = Inr (from_vec b)"
| "into_os (Windows w) = Inl (PlatformMismatch ''windows'')"

section \<open>Frames\<close>

type_synonym request_id = u64

record ('v, 'r, 'j) host_hello =
  hh_framework :: "'v"
  hh_protocol :: "'v"
  hh_requested_interfaces :: "'r interface_requirement list"
  hh_metadata :: "(string, 'j) btree"

record ('v, 'r, 'j) plugin_hello =
  ph_protocol :: "'v"
  ph_manifest :: "('v, 'r, 'j) manifest"

record 'j invoke_request =
  rq_id :: request_id
  rq_interface :: interface_id
  rq_command :: string
  rq_args :: "wire_os_string list"
  rq_metadata :: "(string, 'j) btree"

definition args_os :: "'j invoke_request \<Rightarrow> wire_string_error + os_string list" where
  "args_os r = res_collect into_os (rq_args r)"

datatype 'j payload = PJson 'j | PText string | PBytes bytes | PFile wire_os_string

definition payload_file :: "os_string \<Rightarrow> 'j payload" where
  "payload_file p = PFile (from_os p)"

definition into_file :: "'j payload \<Rightarrow> wire_string_error + os_string option" where
  "into_file p = (case p of PFile v \<Rightarrow> res_bind (into_os v) (\<lambda>s. Inr (Some s)) | _ \<Rightarrow> Inr None)"

record 'j invocation_result =
  res_status :: i32
  res_result :: "'j payload option"
  res_metadata :: "(string, 'j) btree"

definition result_success :: "'j payload \<Rightarrow> 'j invocation_result" where
  "result_success p = \<lparr>res_status = 0, res_result = Some p, res_metadata = []\<rparr>"

definition result_empty_success :: "'j invocation_result" where
  "result_empty_success = \<lparr>res_status = 0, res_result = None, res_metadata = []\<rparr>"

record 'j worker_error =
  we_code :: string
  we_message :: string
  we_details :: "'j option"

definition worker_error_new :: "string \<Rightarrow> string \<Rightarrow> 'j worker_error" where
  "worker_error_new c m = \<lparr>we_code = c, we_message = m, we_details = None\<rparr>"

definition worker_error_details :: "'j \<Rightarrow> 'j worker_error \<Rightarrow> 'j worker_error" where
  "worker_error_details v e = e\<lparr>we_details := Some v\<rparr>"

definition worker_error_to_string :: "'j worker_error \<Rightarrow> string" where
  "worker_error_to_string e = we_code e @ '': '' @ we_message e"

datatype ('v, 'r, 'j) host_frame =
    HostHelloF "('v, 'r, 'j) host_hello"
  | InvokeF "'j invoke_request"
  | CancelF request_id
  | PingF u64
  | ShutdownF

datatype ('v, 'r, 'j) plugin_frame =
    PluginHelloF "('v, 'r, 'j) plugin_hello"
  | StartedF request_id
  | ProgressF request_id "f64 option" "string option"
  | OutputF request_id "'j payload"
  | FinishedF request_id "'j invocation_result"
  | ErrorF "request_id option" "'j worker_error"
  | PongF u64
  | ShutdownAckF

fun frame_request_id :: "('v, 'r, 'j) plugin_frame \<Rightarrow> request_id option" where
  "frame_request_id (StartedF i) = Some i"
| "frame_request_id (ProgressF i _ _) = Some i"
| "frame_request_id (OutputF i _) = Some i"
| "frame_request_id (FinishedF i _) = Some i"
| "frame_request_id (ErrorF i _) = i"
| "frame_request_id (PluginHelloF _) = None"
| "frame_request_id (PongF _) = None"
| "frame_request_id ShutdownAckF = None"

section \<open>Byte streams\<close>

text \<open>A reader holds the bytes still to come and how the stream ends: \<open>None\<close> is the end of file,
  \<open>Some e\<close> an error. \<open>read_exact\<close> is that of \<open>std::io::Read\<close>.\<close>

record istream =
  in_bytes :: bytes
  in_end :: "io_error option"

definition read_exact :: "nat \<Rightarrow> istream \<Rightarrow> (io_error + bytes) \<times> istream" where
  "read_exact n s =
     (if n \<le> length (in_bytes s)
      then (Inr (take n (in_bytes s)), s\<lparr>in_bytes := drop n (in_bytes s)\<rparr>)
      else (Inl (case in_end s of None \<Rightarrow> IoUnexpectedEof | Some e \<Rightarrow> e), s\<lparr>in_bytes := []\<rparr>))"

text \<open>A writer holds what was written and, if it breaks, after how many more bytes and with which
  error; flushing may fail too.\<close>

record ostream =
  out_bytes :: bytes
  out_limit :: "(nat \<times> io_error) option"
  out_flush :: "io_error option"

definition write_all :: "bytes \<Rightarrow> ostream \<Rightarrow> (io_error + unit) \<times> ostream" where
  "write_all b s =
     (case out_limit s of
        None \<Rightarrow> (Inr (), s\<lparr>out_bytes := out_bytes s @ b\<rparr>)
      | Some (k, e) \<Rightarrow>
          if length b \<le> k
          then (Inr (), s\<lparr>out_bytes := out_bytes s @ b, out_limit := Some (k - length b, e)\<rparr>)
          else (Inl e, s\<lparr>out_bytes := out_bytes s @ take k b, out_limit := Some (0, e)\<rparr>))"

definition flush :: "ostream \<Rightarrow> io_error + unit" where
  "flush s = (case out_flush s of None \<Rightarrow> Inr () | Some e \<Rightarrow> Inl e)"

section \<open>Framing\<close>

definition DEFAULT_MAX_FRAME_SIZE :: nat where
  "DEFAULT_MAX_FRAME_SIZE = 16 * 1024 * 1024"

datatype frame_error = FrameIo io_error | TooLarge nat nat | FrameJson json_error | UnexpectedEof

text \<open>\<open>serde_json::to_vec\<close> and \<open>serde_json::from_slice\<close> at one type.\<close>

record 'a codec =
  to_vec :: "'a \<Rightarrow> json_error + bytes"
  from_slice :: "bytes \<Rightarrow> json_error + 'a"

text \<open>The value survives serialisation. Derived serde implementations promise this of the frame
  types, except for a progress fraction that is not finite, which JSON has no number for.\<close>

definition codec_keeps :: "'a codec \<Rightarrow> 'a \<Rightarrow> bool" where
  "codec_keeps C v \<longleftrightarrow> (\<exists>b. to_vec C v = Inr b \<and> from_slice C b = Inr v)"

definition to_be_bytes :: "u32 \<Rightarrow> bytes" where
  "to_be_bytes n = [ucast (drop_bit 24 n), ucast (drop_bit 16 n), ucast (drop_bit 8 n), ucast n]"

definition from_be_bytes :: "bytes \<Rightarrow> u32" where
  "from_be_bytes h =
     (push_bit 24 (ucast (h ! 0)) OR push_bit 16 (ucast (h ! 1)) OR push_bit 8 (ucast (h ! 2))
      OR ucast (h ! 3))"

record framed_reader =
  fr_inner :: istream
  fr_max :: nat

record framed_writer =
  fw_inner :: ostream
  fw_max :: nat

definition reader_new :: "istream \<Rightarrow> framed_reader" where
  "reader_new s = \<lparr>fr_inner = s, fr_max = DEFAULT_MAX_FRAME_SIZE\<rparr>"

definition reader_with_max :: "istream \<Rightarrow> nat \<Rightarrow> framed_reader" where
  "reader_with_max s n = \<lparr>fr_inner = s, fr_max = n\<rparr>"

definition writer_new :: "ostream \<Rightarrow> framed_writer" where
  "writer_new s = \<lparr>fw_inner = s, fw_max = DEFAULT_MAX_FRAME_SIZE\<rparr>"

definition writer_with_max :: "ostream \<Rightarrow> nat \<Rightarrow> framed_writer" where
  "writer_with_max s n = \<lparr>fw_inner = s, fw_max = n\<rparr>"

definition map_read :: "io_error \<Rightarrow> frame_error" where
  "map_read e = (if e = IoUnexpectedEof then UnexpectedEof else FrameIo e)"

definition framed_read ::
    "'a codec \<Rightarrow> framed_reader \<Rightarrow> (frame_error + 'a) \<times> framed_reader" where
  "framed_read C r =
     (case read_exact 4 (fr_inner r) of
        (Inl e, s) \<Rightarrow> (Inl (if e = IoUnexpectedEof then UnexpectedEof else FrameIo e), r\<lparr>fr_inner := s\<rparr>)
      | (Inr h, s) \<Rightarrow>
          let n = unat (from_be_bytes h) in
          if fr_max r < n then (Inl (TooLarge n (fr_max r)), r\<lparr>fr_inner := s\<rparr>)
          else
            (case read_exact n s of
               (Inl e, s') \<Rightarrow>
                 (Inl (if e = IoUnexpectedEof then UnexpectedEof else FrameIo e), r\<lparr>fr_inner := s'\<rparr>)
             | (Inr b, s') \<Rightarrow> (res_map_err FrameJson (from_slice C b), r\<lparr>fr_inner := s'\<rparr>)))"

definition framed_write ::
    "'a codec \<Rightarrow> 'a \<Rightarrow> framed_writer \<Rightarrow> (frame_error + unit) \<times> framed_writer" where
  "framed_write C v w =
     (case to_vec C v of
        Inl e \<Rightarrow> (Inl (FrameJson e), w)
      | Inr b \<Rightarrow>
          if fw_max w < length b then (Inl (TooLarge (length b) (fw_max w)), w)
          else if 2 ^ 32 \<le> length b then (Inl (TooLarge (length b) (2 ^ 32 - 1)), w)
          else
            (case write_all (to_be_bytes (word_of_nat (length b))) (fw_inner w) of
               (Inl e, s) \<Rightarrow> (Inl (FrameIo e), w\<lparr>fw_inner := s\<rparr>)
             | (Inr _, s) \<Rightarrow>
                 (case write_all b s of
                    (Inl e, s') \<Rightarrow> (Inl (FrameIo e), w\<lparr>fw_inner := s'\<rparr>)
                  | (Inr _, s') \<Rightarrow> (res_map_err FrameIo (flush s'), w\<lparr>fw_inner := s'\<rparr>))))"

text \<open>The asynchronous reader and writer of \<open>outboard-tokio\<close>. An \<open>await\<close> suspends the task and
  does not change what the call returns.\<close>

definition async_read ::
    "'a codec \<Rightarrow> framed_reader \<Rightarrow> (frame_error + 'a) \<times> framed_reader" where
  "async_read C r =
     (let (hd_res, s) = read_exact 4 (fr_inner r) in
      case res_map_err map_read hd_res of
        Inl e \<Rightarrow> (Inl e, r\<lparr>fr_inner := s\<rparr>)
      | Inr header \<Rightarrow>
          let len = unat (from_be_bytes header) in
          if len > fr_max r then (Inl (TooLarge len (fr_max r)), r\<lparr>fr_inner := s\<rparr>)
          else
            let (body_res, s') = read_exact len s in
            (res_bind (res_map_err map_read body_res) (\<lambda>b. res_map_err FrameJson (from_slice C b)),
             r\<lparr>fr_inner := s'\<rparr>))"

definition async_write ::
    "'a codec \<Rightarrow> 'a \<Rightarrow> framed_writer \<Rightarrow> (frame_error + unit) \<times> framed_writer" where
  "async_write C v w =
     (case res_map_err FrameJson (to_vec C v) of
        Inl e \<Rightarrow> (Inl e, w)
      | Inr b \<Rightarrow>
          if length b > fw_max w then (Inl (TooLarge (length b) (fw_max w)), w)
          else if \<not> length b < 2 ^ 32 then (Inl (TooLarge (length b) (2 ^ 32 - 1)), w)
          else
            let (r1, s1) = write_all (to_be_bytes (word_of_nat (length b))) (fw_inner w) in
            (case r1 of
               Inl e \<Rightarrow> (Inl (FrameIo e), w\<lparr>fw_inner := s1\<rparr>)
             | Inr _ \<Rightarrow>
                 let (r2, s2) = write_all b s1 in
                 (case r2 of
                    Inl e \<Rightarrow> (Inl (FrameIo e), w\<lparr>fw_inner := s2\<rparr>)
                  | Inr _ \<Rightarrow> (res_map_err FrameIo (flush s2), w\<lparr>fw_inner := s2\<rparr>))))"

text \<open>The bytes of one frame: the length in four big-endian bytes, then the JSON.\<close>

definition frame_bytes :: "'a codec \<Rightarrow> 'a \<Rightarrow> bytes" where
  "frame_bytes C v =
     (case to_vec C v of Inl _ \<Rightarrow> [] | Inr b \<Rightarrow> to_be_bytes (word_of_nat (length b)) @ b)"

section \<open>Lemmas on OS strings\<close>

lemma into_os_from_os [simp]: "into_os (from_os v) = Inr v"
  by (simp add: from_os_def to_str_def)

lemma from_os_not_windows: "from_os v \<noteq> Windows w"
  by (simp add: from_os_def split: option.splits)

section \<open>Lemmas on framing\<close>

lemma length_to_be_bytes [simp]: "length (to_be_bytes n) = 4"
  by (simp add: to_be_bytes_def)

lemma from_be_to_be [simp]: "from_be_bytes (to_be_bytes n) = n"
proof (rule bit_word_eqI)
  fix k
  assume "k < LENGTH(32)"
  then consider "k < 8" | "8 \<le> k" "k < 16" | "16 \<le> k" "k < 24" | "24 \<le> k" "k < 32"
    by fastforce
  then show "bit (from_be_bytes (to_be_bytes n)) k \<longleftrightarrow> bit n k"
    by cases (auto simp: from_be_bytes_def to_be_bytes_def bit_simps)
qed

lemma to_be_from_be: "length h = 4 \<Longrightarrow> to_be_bytes (from_be_bytes h) = h"
proof -
  assume "length h = 4"
  then obtain a b c d where h: "h = [a, b, c, d]"
    by (auto simp: numeral_eq_Suc length_Suc_conv)
  show ?thesis
    unfolding from_be_bytes_def to_be_bytes_def h
    by (simp, intro conjI; rule bit_word_eqI; auto simp: bit_simps dest: bit_imp_le_length)
qed

lemma read_exact_append:
  "length b = n \<Longrightarrow> read_exact n \<lparr>in_bytes = b @ t, in_end = e\<rparr> = (Inr b, \<lparr>in_bytes = t, in_end = e\<rparr>)"
  by (simp add: read_exact_def)

lemma read_exact_short:
  "length (in_bytes s) < n \<Longrightarrow>
   read_exact n s = (Inl (case in_end s of None \<Rightarrow> IoUnexpectedEof | Some e \<Rightarrow> e), s\<lparr>in_bytes := []\<rparr>)"
  by (simp add: read_exact_def)

lemma async_read_eq: "async_read C r = framed_read C r"
  by (auto simp: async_read_def framed_read_def map_read_def Let_def res_bind_def res_map_err_def
      split: prod.splits sum.splits)

lemma async_write_eq: "async_write C v w = framed_write C v w"
  by (auto simp: async_write_def framed_write_def Let_def res_map_err_def
      split: prod.splits sum.splits)

text \<open>What a frame that fits looks like and what reading it does.\<close>

definition frame_fits :: "'a codec \<Rightarrow> nat \<Rightarrow> 'a \<Rightarrow> bool" where
  "frame_fits C mx v \<longleftrightarrow> (\<exists>b. to_vec C v = Inr b \<and> length b \<le> mx \<and> length b < 2 ^ 32)"

lemma framed_write_fits:
  assumes "frame_fits C (fw_max w) v" "out_limit (fw_inner w) = None" "out_flush (fw_inner w) = None"
  shows "framed_write C v w =
    (Inr (), w\<lparr>fw_inner := (fw_inner w)\<lparr>out_bytes := out_bytes (fw_inner w) @ frame_bytes C v\<rparr>\<rparr>)"
  using assms by (auto simp: frame_fits_def framed_write_def frame_bytes_def write_all_def flush_def)

lemma framed_read_bytes:
  assumes "to_vec C v = Inr b" "length b \<le> mx" "length b < 2 ^ 32"
  shows "framed_read C (reader_with_max \<lparr>in_bytes = frame_bytes C v @ t, in_end = e\<rparr> mx) =
    (res_map_err FrameJson (from_slice C b), reader_with_max \<lparr>in_bytes = t, in_end = e\<rparr> mx)"
proof -
  have n: "unat (from_be_bytes (to_be_bytes (word_of_nat (length b)))) = length b"
    using assms(3) by (simp add: unat_of_nat take_bit_nat_eq_self)
  show ?thesis
    using assms n
    by (simp add: framed_read_def frame_bytes_def reader_with_max_def read_exact_append)
qed

lemma framed_read_frame:
  assumes "codec_keeps C v" "frame_fits C mx v"
  shows "framed_read C (reader_with_max \<lparr>in_bytes = frame_bytes C v @ t, in_end = e\<rparr> mx) =
    (Inr v, reader_with_max \<lparr>in_bytes = t, in_end = e\<rparr> mx)"
  using assms by (auto simp: codec_keeps_def frame_fits_def framed_read_bytes)

text \<open>Reading consumes the header and at most the declared length.\<close>

lemma read_exact_consumes:
  "read_exact n s = (r, s') \<Longrightarrow>
   length (in_bytes s') \<le> length (in_bytes s) \<and> length (in_bytes s) - length (in_bytes s') \<le> n"
  by (auto simp: read_exact_def split: if_splits)

lemma framed_read_decreases:
  "framed_read C r = (Inr v, r') \<Longrightarrow>
   length (in_bytes (fr_inner r')) + 4 \<le> length (in_bytes (fr_inner r)) \<and> fr_max r' = fr_max r"
  by (auto simp: framed_read_def read_exact_def Let_def split: if_splits)

section \<open>Streams of frames\<close>

text \<open>Writing frames until one fails.\<close>

fun write_frames ::
    "'a codec \<Rightarrow> 'a list \<Rightarrow> framed_writer \<Rightarrow> (frame_error + unit) \<times> framed_writer" where
  "write_frames C [] w = (Inr (), w)"
| "write_frames C (v # vs) w =
     (case framed_write C v w of
        (Inl e, w') \<Rightarrow> (Inl e, w')
      | (Inr _, w') \<Rightarrow> write_frames C vs w')"

text \<open>A reader that is asked for one frame after another until it fails, as the client's reader
  thread does: the frames in order and the error that ends them.\<close>

function read_frames :: "'a codec \<Rightarrow> framed_reader \<Rightarrow> 'a list \<times> frame_error" where
  "read_frames C r =
     (case framed_read C r of
        (Inl e, _) \<Rightarrow> ([], e)
      | (Inr v, r') \<Rightarrow> (let (vs, e) = read_frames C r' in (v # vs, e)))"
  by pat_completeness auto
termination
  by (relation "measure (\<lambda>(C, r). length (in_bytes (fr_inner r)))")
    (auto dest: framed_read_decreases[OF sym])

declare read_frames.simps [simp del]

lemma write_frames_fit:
  assumes "\<forall>v \<in> set vs. frame_fits C (fw_max w) v"
    and "out_limit (fw_inner w) = None" "out_flush (fw_inner w) = None"
  shows "write_frames C vs w =
    (Inr (), w\<lparr>fw_inner := (fw_inner w)\<lparr>out_bytes :=
       out_bytes (fw_inner w) @ concat (map (frame_bytes C) vs)\<rparr>\<rparr>)"
  using assms by (induction vs arbitrary: w) (simp_all add: framed_write_fits)

lemma framed_read_empty:
  "framed_read C (reader_with_max \<lparr>in_bytes = [], in_end = None\<rparr> mx) =
     (Inl UnexpectedEof, reader_with_max \<lparr>in_bytes = [], in_end = None\<rparr> mx)"
  by (simp add: framed_read_def reader_with_max_def read_exact_def)

lemma read_frames_frames:
  assumes "\<forall>v \<in> set vs. codec_keeps C v \<and> frame_fits C mx v"
  shows "read_frames C (reader_with_max \<lparr>in_bytes = concat (map (frame_bytes C) vs), in_end = None\<rparr> mx)
    = (vs, UnexpectedEof)"
  using assms
proof (induction vs)
  case Nil
  then show ?case by (subst read_frames.simps) (simp add: framed_read_empty)
next
  case (Cons v vs)
  then show ?case by (subst read_frames.simps) (simp add: framed_read_frame)
qed

section \<open>Interfaces\<close>

text \<open>A lossless encoding: what is encoded decodes to the same value.\<close>

locale lossless =
  fixes enc :: "'a \<Rightarrow> 'w"
    and dec :: "'w \<Rightarrow> 'e + 'a"
  assumes dec_enc: "dec (enc x) = Inr x"
begin

lemma enc_inject: "enc x = enc y \<longleftrightarrow> x = y"
  by (metis dec_enc sum.inject(2))

lemma collect_map_enc: "res_collect dec (map enc xs) = Inr xs"
  by (induction xs) (simp_all add: dec_enc)

end

interpretation wire_os: lossless from_os into_os
  by unfold_locales simp

interpretation length_header: lossless to_be_bytes "\<lambda>h. Inr (from_be_bytes h)"
  by unfold_locales simp

text \<open>A sink for frames: the trait \<open>FrameSink\<close> of \<open>worker.rs\<close>. A frame that is sent is appended
  whole; a failed send appends at most a prefix of one frame.\<close>

locale frame_sink =
  fixes send :: "'f \<Rightarrow> 'w \<Rightarrow> (frame_error + unit) \<times> 'w"
    and sent :: "'w \<Rightarrow> bytes"
    and encode :: "'f \<Rightarrow> bytes"
  assumes send_ok: "send f w = (Inr (), w') \<Longrightarrow> sent w' = sent w @ encode f"
    and send_error: "send f w = (Inl e, w') \<Longrightarrow> \<exists>k \<le> length (encode f). sent w' = sent w @ take k (encode f)"
begin

fun send_all :: "'f list \<Rightarrow> 'w \<Rightarrow> (frame_error + unit) \<times> 'w" where
  "send_all [] w = (Inr (), w)"
| "send_all (f # fs) w =
     (case send f w of (Inl e, w') \<Rightarrow> (Inl e, w') | (Inr _, w') \<Rightarrow> send_all fs w')"

lemma send_all_ok:
  "send_all fs w = (Inr (), w') \<Longrightarrow> sent w' = sent w @ concat (map encode fs)"
proof (induction fs arbitrary: w)
  case Nil
  then show ?case by simp
next
  case (Cons f fs)
  then obtain w1 where "send f w = (Inr (), w1)" "send_all fs w1 = (Inr (), w')"
    by (auto split: prod.splits sum.splits)
  with Cons.IH[of w1] send_ok[of f w w1] show ?case by simp
qed

lemma send_all_prefix:
  "send_all fs w = (r, w') \<Longrightarrow> \<exists>t. sent w' = sent w @ t \<and> (\<exists>u. concat (map encode fs) = t @ u)"
proof (induction fs arbitrary: w)
  case Nil
  then show ?case by simp
next
  case (Cons f fs)
  obtain r1 w1 where s: "send f w = (r1, w1)" by fastforce
  show ?case
  proof (cases r1)
    case (Inl e)
    with s Cons.prems have w: "w' = w1" by simp
    from send_error[of f w e w1] s Inl obtain k where "sent w1 = sent w @ take k (encode f)" by blast
    moreover have "concat (map encode (f # fs)) =
        take k (encode f) @ drop k (encode f) @ concat (map encode fs)" by simp
    ultimately show ?thesis using w by blast
  next
    case (Inr u)
    with s Cons.prems have "send_all fs w1 = (r, w')" by simp
    from Cons.IH[OF this] send_ok[of f w w1] s Inr show ?thesis by auto
  qed
qed

end

lemma write_all_ok: "write_all b s = (Inr u, s') \<Longrightarrow> out_bytes s' = out_bytes s @ b"
  by (auto simp: write_all_def split: option.splits prod.splits if_splits)

lemma write_all_error:
  assumes "write_all b s = (Inl e, s')"
  shows "\<exists>k \<le> length b. out_bytes s' = out_bytes s @ take k b"
proof -
  from assms obtain k where "\<not> length b \<le> k" "out_bytes s' = out_bytes s @ take k b"
    by (auto simp: write_all_def split: option.splits prod.splits if_splits)
  then show ?thesis by (intro exI[of _ k]) simp
qed

lemma framed_write_ok:
  assumes "framed_write C v w = (Inr u, w')"
  shows "out_bytes (fw_inner w') = out_bytes (fw_inner w) @ frame_bytes C v \<and> fw_max w' = fw_max w
    \<and> frame_fits C (fw_max w) v"
  using assms
  by (auto simp: framed_write_def frame_bytes_def frame_fits_def not_less not_le
      split: sum.splits prod.splits if_splits dest!: write_all_ok)

lemma write_all_prefix:
  assumes "write_all b s = (r, s')"
  shows "\<exists>k \<le> length b. out_bytes s' = out_bytes s @ take k b"
proof (cases r)
  case (Inl e)
  with assms show ?thesis by (simp add: write_all_error)
next
  case (Inr u)
  with assms have "out_bytes s' = out_bytes s @ b" by (simp add: write_all_ok)
  then show ?thesis by (intro exI[of _ "length b"]) simp
qed

lemma framed_write_out:
  assumes "to_vec C v = Inr b" "\<not> fw_max w < length b" "\<not> 2 ^ 32 \<le> length b"
    and "write_all (to_be_bytes (word_of_nat (length b))) (fw_inner w) = (r1, s1)"
    and "write_all b s1 = (r2, s2)"
  shows "fw_inner (snd (framed_write C v w)) = (if is_ok r1 then s2 else s1)"
  using assms by (cases r1; cases r2) (simp_all add: framed_write_def)

lemma framed_write_prefix:
  "\<exists>k \<le> length (frame_bytes C v).
     out_bytes (fw_inner (snd (framed_write C v w))) = out_bytes (fw_inner w) @ take k (frame_bytes C v)"
proof (cases "\<exists>b. to_vec C v = Inr b \<and> \<not> fw_max w < length b \<and> \<not> 2 ^ 32 \<le> length b")
  case False
  then have "snd (framed_write C v w) = w"
    by (cases "to_vec C v") (auto simp: framed_write_def)
  then show ?thesis by (intro exI[of _ 0]) simp
next
  case True
  then obtain b where b: "to_vec C v = Inr b" "\<not> fw_max w < length b" "\<not> 2 ^ 32 \<le> length b" by blast
  let ?h = "to_be_bytes (word_of_nat (length b))"
  have fb: "frame_bytes C v = ?h @ b" using b by (simp add: frame_bytes_def)
  obtain r1 s1 where w1: "write_all ?h (fw_inner w) = (r1, s1)" by fastforce
  obtain r2 s2 where w2: "write_all b s1 = (r2, s2)" by fastforce
  note out = framed_write_out[OF b w1 w2]
  show ?thesis
  proof (cases r1)
    case (Inl d)
    obtain k where "k \<le> length ?h" "out_bytes s1 = out_bytes (fw_inner w) @ take k ?h"
      using write_all_prefix[OF w1] by blast
    with out Inl show ?thesis unfolding fb by (intro exI[of _ k]) simp
  next
    case (Inr u)
    have "out_bytes s1 = out_bytes (fw_inner w) @ ?h" using write_all_ok w1 Inr by blast
    moreover obtain k where "k \<le> length b" "out_bytes s2 = out_bytes s1 @ take k b"
      using write_all_prefix[OF w2] by blast
    ultimately show ?thesis using out Inr unfolding fb by (intro exI[of _ "4 + k"]) simp
  qed
qed

lemma framed_write_error:
  "framed_write C v w = (Inl e, w') \<Longrightarrow>
   \<exists>k \<le> length (frame_bytes C v).
     out_bytes (fw_inner w') = out_bytes (fw_inner w) @ take k (frame_bytes C v)"
  using framed_write_prefix[of C v w] by simp

interpretation framed_sink: frame_sink "framed_write C" "\<lambda>w. out_bytes (fw_inner w)" "frame_bytes C"
  for C
proof unfold_locales
  show "out_bytes (fw_inner w') = out_bytes (fw_inner w) @ frame_bytes C f"
    if "framed_write C f w = (Inr (), w')" for f w w'
    using framed_write_ok[OF that] by blast
  show "\<exists>k \<le> length (frame_bytes C f).
      out_bytes (fw_inner w') = out_bytes (fw_inner w) @ take k (frame_bytes C f)"
    if "framed_write C f w = (Inl e, w')" for f w e w'
    using that by (rule framed_write_error)
qed

section \<open>Properties\<close>

text \<open>C15. A sequence of frames, each of which fits the limit and survives serialisation, comes out
  of \<open>FramedReader\<close> exactly as it went into \<open>FramedWriter\<close>, in order and with nothing left
  over.\<close>

theorem framing_roundtrip:
  assumes "\<forall>v \<in> set vs. codec_keeps C v \<and> frame_fits C mx v"
  shows "\<exists>w. write_frames C vs
        (writer_with_max \<lparr>out_bytes = [], out_limit = None, out_flush = None\<rparr> mx) = (Inr (), w)
    \<and> read_frames C (reader_with_max \<lparr>in_bytes = out_bytes (fw_inner w), in_end = None\<rparr> mx)
        = (vs, UnexpectedEof)"
  using assms by (simp add: write_frames_fit read_frames_frames writer_with_max_def)

text \<open>A codec for bytes, on which the witnesses evaluate the framing.\<close>

definition byte_codec :: "u8 codec" where
  "byte_codec = \<lparr>to_vec = (\<lambda>v. Inr [v, v]),
     from_slice = (\<lambda>b. case b of [v, _] \<Rightarrow> Inr v | _ \<Rightarrow> Inl ''not a value'')\<rparr>"

lemma byte_codec_keeps [simp]: "codec_keeps byte_codec v"
  by (simp add: codec_keeps_def byte_codec_def)

lemma byte_codec_fits [simp]: "2 \<le> mx \<Longrightarrow> frame_fits byte_codec mx v"
  by (simp add: frame_fits_def byte_codec_def)

theorem framing_roundtrip_witness:
  "\<exists>w. write_frames byte_codec [7, 8]
        (writer_with_max \<lparr>out_bytes = [], out_limit = None, out_flush = None\<rparr> 16) = (Inr (), w)
    \<and> read_frames byte_codec
        (reader_with_max \<lparr>in_bytes = out_bytes (fw_inner w), in_end = None\<rparr> 16)
        = ([7, 8], UnexpectedEof)"
  by (rule framing_roundtrip) simp

text \<open>A stream that ends inside a frame is never taken for a frame: whatever proper prefix of
  its bytes arrives before the end of file, \<open>FramedReader::read\<close> reports \<open>UnexpectedEof\<close>.\<close>

theorem truncated_frame_is_eof:
  assumes "frame_fits C mx v" and "k < length (frame_bytes C v)"
  shows "fst (framed_read C (reader_with_max \<lparr>in_bytes = take k (frame_bytes C v), in_end = None\<rparr> mx))
    = Inl UnexpectedEof"
proof -
  from assms(1) obtain b where b: "to_vec C v = Inr b" "length b \<le> mx" "length b < 2 ^ 32"
    by (auto simp: frame_fits_def)
  let ?h = "to_be_bytes (word_of_nat (length b))"
  have n: "unat (from_be_bytes ?h) = length b"
    using b(3) by (simp add: unat_of_nat take_bit_nat_eq_self)
  show ?thesis
  proof (cases "k < 4")
    case True
    then show ?thesis
      by (simp add: framed_read_def reader_with_max_def read_exact_short frame_bytes_def b)
  next
    case False
    then have "take k (frame_bytes C v) = ?h @ take (k - 4) b" by (simp add: frame_bytes_def b)
    moreover have "k - 4 < length b" using assms(2) False by (simp add: frame_bytes_def b)
    ultimately show ?thesis using b n
      by (simp add: framed_read_def reader_with_max_def read_exact_append read_exact_short)
  qed
qed

theorem truncated_frame_is_eof_witness:
  "fst (framed_read byte_codec
     (reader_with_max \<lparr>in_bytes = take 5 (frame_bytes byte_codec 7), in_end = None\<rparr> 16))
   = Inl UnexpectedEof"
proof (rule truncated_frame_is_eof)
  show "frame_fits byte_codec 16 7" by simp
  show "5 < length (frame_bytes byte_codec 7)" by (simp add: frame_bytes_def byte_codec_def)
qed

text \<open>C29. A declared length above the limit is refused before any of the payload is read or
  allocated for, and no call of \<open>FramedReader::read\<close> takes more than the header and the limit
  from the stream.\<close>

theorem oversized_frame_refused:
  assumes "length h = 4" and "mx < unat (from_be_bytes h)"
  shows "framed_read C (reader_with_max \<lparr>in_bytes = h @ t, in_end = e\<rparr> mx) =
      (Inl (TooLarge (unat (from_be_bytes h)) mx), reader_with_max \<lparr>in_bytes = t, in_end = e\<rparr> mx)
    \<and> (\<forall>r. length (in_bytes (fr_inner r)) - length (in_bytes (fr_inner (snd (framed_read C r))))
          \<le> 4 + fr_max r)"
proof
  show "framed_read C (reader_with_max \<lparr>in_bytes = h @ t, in_end = e\<rparr> mx) =
      (Inl (TooLarge (unat (from_be_bytes h)) mx), reader_with_max \<lparr>in_bytes = t, in_end = e\<rparr> mx)"
    using assms by (simp add: framed_read_def reader_with_max_def read_exact_append)
  show "\<forall>r. length (in_bytes (fr_inner r)) - length (in_bytes (fr_inner (snd (framed_read C r))))
      \<le> 4 + fr_max r"
    by (auto simp: framed_read_def read_exact_def Let_def)
qed

theorem oversized_frame_refused_witness:
  "framed_read byte_codec (reader_with_max \<lparr>in_bytes = [1, 0, 0, 0] @ [9], in_end = None\<rparr> 16) =
      (Inl (TooLarge 16777216 16), reader_with_max \<lparr>in_bytes = [9], in_end = None\<rparr> 16)"
proof -
  have n: "unat (from_be_bytes [1, 0, 0, 0]) = 16777216" by (simp add: from_be_bytes_def)
  then show ?thesis
    using oversized_frame_refused[of "[1, 0, 0, 0]" 16 byte_codec "[9]" None] by simp
qed

text \<open>The asynchronous reader and writer of \<open>outboard-tokio\<close> are the synchronous ones: same
  results, same errors, same bytes, so a host and a plugin may mix the two.\<close>

theorem async_framing_equals_sync:
  "async_read C r = framed_read C r \<and> async_write C v w = framed_write C v w"
  by (simp add: async_read_eq async_write_eq)

text \<open>An argument vector crosses the wire without loss, also where an argument is not UTF-8:
  decoding the encoded arguments of a request gives back the OS strings it was made from.\<close>

theorem wire_args_lossless:
  "args_os \<lparr>rq_id = i, rq_interface = f, rq_command = c, rq_args = map from_os argv, rq_metadata = m\<rparr>
     = Inr argv"
  by (simp add: args_os_def wire_os.collect_map_enc)

text \<open>A failed write never leaves more on the stream than a prefix of the frame, and a frame
  the writer refuses as too large leaves the stream untouched; a successful one leaves exactly the
  frame, within the limit.\<close>

theorem framed_write_effect:
  "case framed_write C v w of
     (Inr _, w') \<Rightarrow> out_bytes (fw_inner w') = out_bytes (fw_inner w) @ frame_bytes C v
       \<and> length (frame_bytes C v) \<le> 4 + fw_max w
   | (Inl (TooLarge n mx), w') \<Rightarrow> w' = w
   | (Inl e, w') \<Rightarrow> (\<exists>k \<le> length (frame_bytes C v).
       out_bytes (fw_inner w') = out_bytes (fw_inner w) @ take k (frame_bytes C v))"
proof -
  obtain r w' where rw: "framed_write C v w = (r, w')" by fastforce
  have large: "w' = w" if "r = Inl (TooLarge n mx)" for n mx
    using rw that
    by (auto simp: framed_write_def res_map_err_def split: sum.splits prod.splits if_splits)
  have ok: "out_bytes (fw_inner w') = out_bytes (fw_inner w) @ frame_bytes C v
      \<and> length (frame_bytes C v) \<le> 4 + fw_max w" if "r = Inr u" for u
    using framed_write_ok[of C v w u w'] rw that
    by (auto simp: frame_fits_def frame_bytes_def)
  show ?thesis
    using rw large ok framed_write_prefix[of C v w]
    by (auto split: sum.splits frame_error.splits)
qed

end
