(* ===== verification/Worker_Server.thy ===== *)
theory Worker_Server
  imports Protocol
begin

text \<open>
  The plugin side of the worker protocol: \<open>WorkerHandler\<close>, \<open>SyncResponder\<close>, \<open>serve_worker\<close> and
  \<open>validate_hello\<close> of \<open>src/crates/outboard/src/worker.rs\<close>. The handler is the plugin's own code, an
  argument: what it does with an invocation is a tree of the responses it sends, each followed by what
  it does on the result of sending, and it ends with its own result and state. The bytes the host sends
  are the reader's stream, what the plugin writes is the writer's.
\<close>

section \<open>Handlers\<close>

datatype ('j, 'h) invocation_run =
    Return "'j worker_error + 'j invocation_result" 'h
  | SendProgress "f64 option" "string option" "(frame_error + unit) \<Rightarrow> ('j, 'h) invocation_run"
  | SendOutput "'j payload" "(frame_error + unit) \<Rightarrow> ('j, 'h) invocation_run"

record ('j, 'h) worker_handler =
  wh_invoke :: "'j invoke_request \<Rightarrow> 'h \<Rightarrow> ('j, 'h) invocation_run"
  wh_cancel :: "request_id \<Rightarrow> 'h \<Rightarrow> ('j worker_error + unit) \<times> 'h"

text \<open>The default \<open>cancel\<close> of the trait.\<close>

definition cancel_default :: "request_id \<Rightarrow> 'h \<Rightarrow> ('j worker_error + unit) \<times> 'h" where
  "cancel_default i h = (Inr (), h)"

type_synonym ('v, 'r, 'j) plugin_codec = "('v, 'r, 'j) plugin_frame codec"
type_synonym ('v, 'r, 'j) host_codec = "('v, 'r, 'j) host_frame codec"

section \<open>The responder\<close>

definition responder_progress ::
    "('v, 'r, 'j) plugin_codec \<Rightarrow> request_id \<Rightarrow> f64 option \<Rightarrow> string option \<Rightarrow> framed_writer
     \<Rightarrow> (frame_error + unit) \<times> framed_writer" where
  "responder_progress C i fraction message w = framed_write C (ProgressF i fraction message) w"

definition responder_output ::
    "('v, 'r, 'j) plugin_codec \<Rightarrow> request_id \<Rightarrow> 'j payload \<Rightarrow> framed_writer
     \<Rightarrow> (frame_error + unit) \<times> framed_writer" where
  "responder_output C i p w = framed_write C (OutputF i p) w"

primrec run_invocation ::
    "('v, 'r, 'j) plugin_codec \<Rightarrow> request_id \<Rightarrow> ('j, 'h) invocation_run \<Rightarrow> framed_writer
     \<Rightarrow> ('j worker_error + 'j invocation_result) \<times> 'h \<times> framed_writer" where
  "run_invocation C i (Return r h) w = (r, h, w)"
| "run_invocation C i (SendProgress fraction message k) w =
     run_invocation C i (k (fst (responder_progress C i fraction message w)))
       (snd (responder_progress C i fraction message w))"
| "run_invocation C i (SendOutput p k) w =
     run_invocation C i (k (fst (responder_output C i p w))) (snd (responder_output C i p w))"

section \<open>The server\<close>

datatype ('v, 'r) worker_server_error =
    SrvFrame frame_error
  | SrvExpectedHello
  | SrvFramework 'v 'r
  | SrvProtocol 'v 'r
  | SrvInterface string

definition check_interface ::
    "('v, 'r, 'j) crates \<Rightarrow> ('v, 'r, 'j) manifest \<Rightarrow> 'r interface_requirement
     \<Rightarrow> ('v, 'r) worker_server_error + unit" where
  "check_interface X m r =
     (case m_interface m (ir_id r) of
        None \<Rightarrow> Inl (SrvInterface (''missing '' @ as_str (ir_id r)))
      | Some i \<Rightarrow>
          if \<not> req_matches X (ir_version r) (im_version i)
          then Inl (SrvInterface (as_str (ir_id r) @ '' requires '' @ show_req X (ir_version r)
                 @ '', plugin provides '' @ show_version X (im_version i)))
          else Inr ())"

definition validate_hello ::
    "('v, 'r, 'j) crates \<Rightarrow> ('v, 'r, 'j) manifest \<Rightarrow> ('v, 'r, 'j) host_hello
     \<Rightarrow> ('v, 'r) worker_server_error + unit" where
  "validate_hello X m hello =
     (if \<not> req_matches X (m_framework m) (hh_framework hello)
      then Inl (SrvFramework (hh_framework hello) (m_framework m))
      else if \<not> req_matches X (m_worker_protocol m) (hh_protocol hello)
      then Inl (SrvProtocol (hh_protocol hello) (m_worker_protocol m))
      else res_all (check_interface X m) (hh_requested_interfaces hello))"

text \<open>One frame of the host: an error ends the server with it, \<open>True\<close> ends it normally.\<close>

definition reply ::
    "('v, 'r, 'j) plugin_codec \<Rightarrow> ('v, 'r, 'j) plugin_frame \<Rightarrow> bool \<Rightarrow> 'h \<Rightarrow> framed_writer
     \<Rightarrow> (('v, 'r) worker_server_error + bool) \<times> 'h \<times> framed_writer" where
  "reply C f stop h w =
     (case framed_write C f w of
        (Inl e, w') \<Rightarrow> (Inl (SrvFrame e), h, w')
      | (Inr _, w') \<Rightarrow> (Inr stop, h, w'))"

fun handle_host_frame ::
    "('v, 'r, 'j) plugin_codec \<Rightarrow> ('j, 'h) worker_handler \<Rightarrow> ('v, 'r, 'j) host_frame \<Rightarrow> 'h
     \<Rightarrow> framed_writer \<Rightarrow> (('v, 'r) worker_server_error + bool) \<times> 'h \<times> framed_writer" where
  "handle_host_frame C H (HostHelloF _) h w =
     reply C (ErrorF None (worker_error_new ''duplicate_hello'' ''host hello may only be sent once''))
       False h w"
| "handle_host_frame C H (PingF nonce) h w = reply C (PongF nonce) False h w"
| "handle_host_frame C H ShutdownF h w = reply C ShutdownAckF True h w"
| "handle_host_frame C H (CancelF i) h w =
     (case wh_cancel H i h of
        (Inl e, h') \<Rightarrow> reply C (ErrorF (Some i) e) False h' w
      | (Inr _, h') \<Rightarrow> (Inr False, h', w))"
| "handle_host_frame C H (InvokeF request) h w =
     (case framed_write C (StartedF (rq_id request)) w of
        (Inl e, w1) \<Rightarrow> (Inl (SrvFrame e), h, w1)
      | (Inr _, w1) \<Rightarrow>
          (case run_invocation C (rq_id request) (wh_invoke H request h) w1 of
             (Inr result, h', w2) \<Rightarrow> reply C (FinishedF (rq_id request) result) False h' w2
           | (Inl e, h', w2) \<Rightarrow> reply C (ErrorF (Some (rq_id request)) e) False h' w2))"

function serve_loop ::
    "('v, 'r, 'j) host_codec \<Rightarrow> ('v, 'r, 'j) plugin_codec \<Rightarrow> ('j, 'h) worker_handler
     \<Rightarrow> 'h \<Rightarrow> framed_reader \<Rightarrow> framed_writer
     \<Rightarrow> (('v, 'r) worker_server_error + unit) \<times> 'h \<times> framed_writer" where
  "serve_loop CH C H h r w =
     (case framed_read CH r of
        (Inl e, _) \<Rightarrow> (Inl (SrvFrame e), h, w)
      | (Inr f, r') \<Rightarrow>
          (case handle_host_frame C H f h w of
             (Inl e, h', w') \<Rightarrow> (Inl e, h', w')
           | (Inr True, h', w') \<Rightarrow> (Inr (), h', w')
           | (Inr False, h', w') \<Rightarrow> serve_loop CH C H h' r' w'))"
  by pat_completeness auto
termination
  by (relation "measure (\<lambda>(CH, C, H, h, r, w). length (in_bytes (fr_inner r)))")
    (auto dest: framed_read_decreases[OF sym])

declare serve_loop.simps [simp del]

definition serve_worker ::
    "('v, 'r, 'j) crates \<Rightarrow> ('v, 'r, 'j) host_codec \<Rightarrow> ('v, 'r, 'j) plugin_codec
     \<Rightarrow> ('v, 'r, 'j) manifest \<Rightarrow> ('j, 'h) worker_handler \<Rightarrow> 'h \<Rightarrow> istream \<Rightarrow> ostream
     \<Rightarrow> (('v, 'r) worker_server_error + unit) \<times> 'h \<times> framed_writer" where
  "serve_worker X CH C m H h stdin stdout =
     (let w = writer_new stdout in
      case framed_read CH (reader_new stdin) of
        (Inl e, _) \<Rightarrow> (Inl (SrvFrame e), h, w)
      | (Inr (HostHelloF hello), r) \<Rightarrow>
          (case validate_hello X m hello of
             Inl e \<Rightarrow> (Inl e, h, w)
           | Inr _ \<Rightarrow>
               (case framed_write C
                       (PluginHelloF \<lparr>ph_protocol = protocol_version X, ph_manifest = m\<rparr>) w of
                  (Inl e, w') \<Rightarrow> (Inl (SrvFrame e), h, w')
                | (Inr _, w') \<Rightarrow> serve_loop CH C H h r w'))
      | (Inr _, _) \<Rightarrow> (Inl SrvExpectedHello, h, w))"

section \<open>The protocol on frames\<close>

text \<open>What the server does, as a function from the frames of the host to the frames of the plugin.\<close>

primrec invocation_frames ::
    "request_id \<Rightarrow> ('j, 'h) invocation_run
     \<Rightarrow> ('v, 'r, 'j) plugin_frame list \<times> ('j worker_error + 'j invocation_result) \<times> 'h" where
  "invocation_frames i (Return r h) = ([], r, h)"
| "invocation_frames i (SendProgress fraction message k) =
     (ProgressF i fraction message # fst (invocation_frames i (k (Inr ()))), snd (invocation_frames i (k (Inr ()))))"
| "invocation_frames i (SendOutput p k) =
     (OutputF i p # fst (invocation_frames i (k (Inr ()))), snd (invocation_frames i (k (Inr ()))))"

definition terminal_frame ::
    "request_id \<Rightarrow> 'j worker_error + 'j invocation_result \<Rightarrow> ('v, 'r, 'j) plugin_frame" where
  "terminal_frame i r = (case r of Inr x \<Rightarrow> FinishedF i x | Inl e \<Rightarrow> ErrorF (Some i) e)"

fun respond ::
    "('j, 'h) worker_handler \<Rightarrow> ('v, 'r, 'j) host_frame \<Rightarrow> 'h \<Rightarrow> ('v, 'r, 'j) plugin_frame list \<times> 'h" where
  "respond H (HostHelloF _) h =
     ([ErrorF None (worker_error_new ''duplicate_hello'' ''host hello may only be sent once'')], h)"
| "respond H (PingF nonce) h = ([PongF nonce], h)"
| "respond H ShutdownF h = ([ShutdownAckF], h)"
| "respond H (CancelF i) h =
     (case wh_cancel H i h of (Inl e, h') \<Rightarrow> ([ErrorF (Some i) e], h') | (Inr _, h') \<Rightarrow> ([], h'))"
| "respond H (InvokeF rq) h =
     (case invocation_frames (rq_id rq) (wh_invoke H rq h) of
        (fs, r, h') \<Rightarrow> (StartedF (rq_id rq) # fs @ [terminal_frame (rq_id rq) r], h'))"

fun respond_all ::
    "('j, 'h) worker_handler \<Rightarrow> ('v, 'r, 'j) host_frame list \<Rightarrow> 'h \<Rightarrow> ('v, 'r, 'j) plugin_frame list \<times> 'h" where
  "respond_all H [] h = ([], h)"
| "respond_all H (ShutdownF # fs) h = respond H ShutdownF h"
| "respond_all H (f # fs) h =
     (case respond H f h of (out, h') \<Rightarrow>
        (case respond_all H fs h' of (out', h'') \<Rightarrow> (out @ out', h'')))"

section \<open>The server on bytes refines the server on frames\<close>

definition writer_ok :: "framed_writer \<Rightarrow> bool" where
  "writer_ok w \<longleftrightarrow> out_limit (fw_inner w) = None \<and> out_flush (fw_inner w) = None"

definition appended :: "'a codec \<Rightarrow> 'a list \<Rightarrow> framed_writer \<Rightarrow> framed_writer" where
  "appended C fs w =
     w\<lparr>fw_inner := (fw_inner w)\<lparr>out_bytes := out_bytes (fw_inner w) @ concat (map (frame_bytes C) fs)\<rparr>\<rparr>"

lemma appended_simps [simp]:
  "appended C [] w = w"
  "fw_max (appended C fs w) = fw_max w"
  "writer_ok (appended C fs w) \<longleftrightarrow> writer_ok w"
  "out_bytes (fw_inner (appended C fs w)) = out_bytes (fw_inner w) @ concat (map (frame_bytes C) fs)"
  "appended C gs (appended C fs w) = appended C (fs @ gs) w"
  by (simp_all add: appended_def writer_ok_def)

lemma write_appends:
  "writer_ok w \<Longrightarrow> frame_fits C (fw_max w) f \<Longrightarrow> framed_write C f w = (Inr (), appended C [f] w)"
  by (simp add: framed_write_fits appended_def writer_ok_def)

lemma reply_appends:
  "writer_ok w \<Longrightarrow> frame_fits C (fw_max w) f \<Longrightarrow> reply C f stop h w = (Inr stop, h, appended C [f] w)"
  by (simp add: reply_def write_appends)

lemma run_invocation_frames:
  fixes C :: "('v, 'r, 'j) plugin_codec" and t :: "('j, 'h) invocation_run"
  assumes "writer_ok w"
    and "list_all (frame_fits C (fw_max w)) (fst (invocation_frames i t))"
  shows "run_invocation C i t w =
    (fst (snd (invocation_frames i t :: ('v, 'r, 'j) plugin_frame list \<times> _)),
     snd (snd (invocation_frames i t :: ('v, 'r, 'j) plugin_frame list \<times> _)),
     appended C (fst (invocation_frames i t)) w)"
  using assms
proof (induction t arbitrary: w)
  case (Return r h)
  then show ?case by simp
next
  case (SendProgress fr msg k)
  let ?f = "ProgressF i fr msg :: ('v, 'r, 'j) plugin_frame"
  have "framed_write C ?f w = (Inr (), appended C [?f] w)"
    using SendProgress.prems by (simp add: write_appends)
  then show ?case
    using SendProgress.prems SendProgress.IH[OF rangeI[of k "Inr ()"], of "appended C [?f] w"]
    by (simp add: responder_progress_def)
next
  case (SendOutput p k)
  let ?f = "OutputF i p :: ('v, 'r, 'j) plugin_frame"
  have "framed_write C ?f w = (Inr (), appended C [?f] w)"
    using SendOutput.prems by (simp add: write_appends)
  then show ?case
    using SendOutput.prems SendOutput.IH[OF rangeI[of k "Inr ()"], of "appended C [?f] w"]
    by (simp add: responder_output_def)
qed

lemma handle_invoke_frames:
  fixes C :: "('v, 'r, 'j) plugin_codec"
  assumes "writer_ok w" "list_all (frame_fits C (fw_max w)) (fst (respond H (InvokeF rq) h))"
  shows "handle_host_frame C H (InvokeF rq) h w =
    (Inr False, snd (respond H (InvokeF rq :: ('v, 'r, 'j) host_frame) h),
     appended C (fst (respond H (InvokeF rq) h)) w)"
proof -
  let ?i = "rq_id rq" and ?t = "wh_invoke H rq h"
  obtain fs r h' where inv: "(invocation_frames ?i ?t :: ('v, 'r, 'j) plugin_frame list \<times> _) = (fs, r, h')"
    by (rule prod_cases3)
  have fits: "frame_fits C (fw_max w) (StartedF ?i)" "list_all (frame_fits C (fw_max w)) fs"
    "frame_fits C (fw_max w) (terminal_frame ?i r)"
    using assms(2) inv by simp_all
  have start: "framed_write C (StartedF ?i) w = (Inr (), appended C [StartedF ?i] w)"
    using assms(1) fits(1) by (rule write_appends)
  have run: "run_invocation C ?i ?t (appended C [StartedF ?i] w) = (r, h', appended C (StartedF ?i # fs) w)"
    using run_invocation_frames[of "appended C [StartedF ?i] w" C ?i ?t] assms(1) fits(2) inv by simp
  show ?thesis
    using start run inv fits(3) assms(1)
    by (cases r) (simp_all add: reply_appends terminal_frame_def)
qed

lemma handle_frame_frames:
  fixes C :: "('v, 'r, 'j) plugin_codec"
  assumes "writer_ok w" "list_all (frame_fits C (fw_max w)) (fst (respond H f h))"
  shows "handle_host_frame C H f h w =
    (Inr (f = ShutdownF), snd (respond H f h), appended C (fst (respond H f h)) w)"
proof (cases f)
  case (InvokeF rq)
  then show ?thesis using handle_invoke_frames[of w C H rq h] assms by simp
next
  case (CancelF i)
  then show ?thesis
    using assms by (cases "wh_cancel H i h"; cases "fst (wh_cancel H i h)") (auto simp: reply_appends)
qed (use assms in \<open>auto simp: reply_appends\<close>)

lemma respond_all_Cons:
  "f \<noteq> ShutdownF \<Longrightarrow> respond_all H (f # fs) h =
     (fst (respond H f h) @ fst (respond_all H fs (snd (respond H f h))),
      snd (respond_all H fs (snd (respond H f h))))"
  by (cases f) (simp_all add: split_beta)

abbreviation frames_reader :: "'a codec \<Rightarrow> nat \<Rightarrow> 'a list \<Rightarrow> framed_reader" where
  "frames_reader C mx fs \<equiv> reader_with_max \<lparr>in_bytes = concat (map (frame_bytes C) fs), in_end = None\<rparr> mx"

lemma serve_loop_frames:
  fixes C :: "('v, 'r, 'j) plugin_codec"
  assumes "list_all (\<lambda>f. codec_keeps CH f \<and> frame_fits CH mx f) fs" "writer_ok w"
    and "list_all (frame_fits C (fw_max w)) (fst (respond_all H fs h))"
  shows "serve_loop CH C H h (frames_reader CH mx fs) w =
    (if ShutdownF \<in> set fs then Inr () else Inl (SrvFrame UnexpectedEof),
     snd (respond_all H fs h), appended C (fst (respond_all H fs h)) w)"
  using assms
proof (induction fs arbitrary: h w)
  case Nil
  then show ?case by (subst serve_loop.simps) (simp add: framed_read_empty)
next
  case (Cons f fs)
  have read: "framed_read CH (frames_reader CH mx (f # fs)) = (Inr f, frames_reader CH mx fs)"
    using Cons.prems(1) by (simp add: framed_read_frame)
  show ?case
  proof (cases "f = ShutdownF")
    case True
    then show ?thesis
      using read Cons.prems handle_frame_frames[of w C H f h]
      by (subst serve_loop.simps) simp
  next
    case False
    then have "handle_host_frame C H f h w =
        (Inr False, snd (respond H f h), appended C (fst (respond H f h)) w)"
      using handle_frame_frames[of w C H f h] Cons.prems by (simp add: respond_all_Cons)
    moreover have "serve_loop CH C H (snd (respond H f h)) (frames_reader CH mx fs) (appended C (fst (respond H f h)) w) =
        (if ShutdownF \<in> set fs then Inr () else Inl (SrvFrame UnexpectedEof),
         snd (respond_all H fs (snd (respond H f h))),
         appended C (fst (respond_all H fs (snd (respond H f h)))) (appended C (fst (respond H f h)) w))"
      using Cons.IH[of "appended C (fst (respond H f h)) w" "snd (respond H f h)"] Cons.prems False
      by (simp add: respond_all_Cons)
    ultimately show ?thesis
      using read False by (subst serve_loop.simps) (simp add: respond_all_Cons)
  qed
qed

section \<open>The order of the frames\<close>

text \<open>A monitor of the plugin's frames. Idle, a plugin may answer pings, report errors, acknowledge a
  shutdown or start a request; while it runs a request it may send only its progress and outputs, and
  the request ends with one \<open>Finished\<close> or \<open>Error\<close>.\<close>

fun monitor_step ::
    "request_id option \<Rightarrow> ('v, 'r, 'j) plugin_frame \<Rightarrow> request_id option option" where
  "monitor_step None (StartedF i) = Some (Some i)"
| "monitor_step None (ErrorF _ _) = Some None"
| "monitor_step None (PongF _) = Some None"
| "monitor_step None ShutdownAckF = Some None"
| "monitor_step (Some i) (ProgressF j _ _) = (if i = j then Some (Some i) else None)"
| "monitor_step (Some i) (OutputF j _) = (if i = j then Some (Some i) else None)"
| "monitor_step (Some i) (FinishedF j _) = (if i = j then Some None else None)"
| "monitor_step (Some i) (ErrorF j _) = (if j = Some i then Some None else None)"
| "monitor_step _ _ = None"

fun monitor ::
    "request_id option \<Rightarrow> ('v, 'r, 'j) plugin_frame list \<Rightarrow> request_id option option" where
  "monitor q [] = Some q"
| "monitor q (f # fs) = (case monitor_step q f of None \<Rightarrow> None | Some q' \<Rightarrow> monitor q' fs)"

lemma monitor_append:
  "monitor q (fs @ gs) = (case monitor q fs of None \<Rightarrow> None | Some q' \<Rightarrow> monitor q' gs)"
  by (induction fs arbitrary: q) (auto split: option.splits)

lemma monitor_invocation: "monitor (Some i) (fst (invocation_frames i t)) = Some (Some i)"
  by (induction t) (auto simp: rangeI)

lemma monitor_terminal: "monitor (Some i) [terminal_frame i r] = Some None"
  by (cases r) (simp_all add: terminal_frame_def)

lemma respond_invoke:
  "respond H (InvokeF rq) h =
     (let t = invocation_frames (rq_id rq) (wh_invoke H rq h) in
      (StartedF (rq_id rq) # fst t @ [terminal_frame (rq_id rq) (fst (snd t))], snd (snd t)))"
  by (simp add: split_beta Let_def)

lemma monitor_respond: "monitor None (fst (respond H f h)) = Some None"
proof (cases f)
  case (InvokeF rq)
  show ?thesis
    unfolding InvokeF respond_invoke
    using monitor_terminal by (simp add: Let_def monitor_append monitor_invocation del: monitor.simps(2))
      (simp add: monitor_append monitor_invocation)
next
  case (CancelF i)
  then show ?thesis by (cases "wh_cancel H i h"; cases "fst (wh_cancel H i h)") auto
qed simp_all

lemma monitor_respond_all: "monitor None (fst (respond_all H fs h)) = Some None"
proof (induction fs arbitrary: h)
  case Nil
  then show ?case by simp
next
  case (Cons f fs)
  then show ?case
    by (cases "f = ShutdownF") (simp_all add: respond_all_Cons monitor_append monitor_respond)
qed

text \<open>The ids a plugin starts and the ids a host invokes.\<close>

definition started_ids :: "('v, 'r, 'j) plugin_frame list \<Rightarrow> request_id list" where
  "started_ids fs = List.map_filter (\<lambda>f. case f of StartedF i \<Rightarrow> Some i | _ \<Rightarrow> None) fs"

definition invoked_ids :: "('v, 'r, 'j) host_frame list \<Rightarrow> request_id list" where
  "invoked_ids fs = List.map_filter (\<lambda>f. case f of InvokeF rq \<Rightarrow> Some (rq_id rq) | _ \<Rightarrow> None)
     (takeWhile (\<lambda>f. f \<noteq> ShutdownF) fs)"

lemma started_ids_append [simp]: "started_ids (fs @ gs) = started_ids fs @ started_ids gs"
  by (simp add: started_ids_def List.map_filter_def)

lemma started_ids_simps [simp]:
  "started_ids [] = []"
  "started_ids (f # fs) = (case f of StartedF i \<Rightarrow> [i] | _ \<Rightarrow> []) @ started_ids fs"
  by (simp_all add: started_ids_def List.map_filter_simps split: plugin_frame.splits)

lemma started_ids_invocation: "started_ids (fst (invocation_frames i t)) = []"
  by (induction t) (auto simp: rangeI)

lemma started_ids_respond:
  "started_ids (fst (respond H f h)) = (case f of InvokeF rq \<Rightarrow> [rq_id rq] | _ \<Rightarrow> [])"
proof (cases f)
  case (InvokeF rq)
  have "started_ids [terminal_frame (rq_id rq) r] = []" for r :: "'c worker_error + 'c invocation_result"
    by (cases r) (simp_all add: terminal_frame_def)
  then show ?thesis
    unfolding InvokeF respond_invoke by (simp add: Let_def started_ids_invocation)
next
  case (CancelF i)
  then show ?thesis by (cases "wh_cancel H i h"; cases "fst (wh_cancel H i h)") auto
qed simp_all

lemma started_ids_respond_all: "started_ids (fst (respond_all H fs h)) = invoked_ids fs"
proof (induction fs arbitrary: h)
  case Nil
  then show ?case by (simp add: invoked_ids_def List.map_filter_simps)
next
  case (Cons f fs)
  then show ?case
    by (cases "f = ShutdownF")
      (simp_all add: respond_all_Cons started_ids_respond invoked_ids_def List.map_filter_simps
        split: host_frame.splits)
qed

lemma validate_hello_ok:
  "validate_hello X m hello = Inr () \<longleftrightarrow>
     req_matches X (m_framework m) (hh_framework hello)
     \<and> req_matches X (m_worker_protocol m) (hh_protocol hello)
     \<and> (\<forall>r \<in> set (hh_requested_interfaces hello).
          \<exists>i. m_interface m (ir_id r) = Some i \<and> req_matches X (ir_version r) (im_version i))"
  by (auto simp: validate_hello_def res_all_Inr is_ok_def check_interface_def split: option.splits)

section \<open>Properties\<close>

text \<open>C3. The server refines the protocol on frames. Fed the bytes of a hello it accepts and of any
  frames after it, each within the limit, it writes exactly the bytes of its own hello and of the frames
  the protocol prescribes in answer, in order; it returns normally if the host sent \<open>Shutdown\<close>, and
  otherwise reports that the stream ended.\<close>

theorem server_refines_protocol:
  assumes "validate_hello X m hello = Inr ()"
    and "list_all (\<lambda>f. codec_keeps CH f \<and> frame_fits CH DEFAULT_MAX_FRAME_SIZE f) (HostHelloF hello # fs)"
    and "list_all (frame_fits C DEFAULT_MAX_FRAME_SIZE)
      (PluginHelloF \<lparr>ph_protocol = protocol_version X, ph_manifest = m\<rparr> # fst (respond_all H fs h))"
  shows "\<exists>w. serve_worker X CH C m H h
      \<lparr>in_bytes = concat (map (frame_bytes CH) (HostHelloF hello # fs)), in_end = None\<rparr>
      \<lparr>out_bytes = [], out_limit = None, out_flush = None\<rparr> =
      (if ShutdownF \<in> set fs then Inr () else Inl (SrvFrame UnexpectedEof), snd (respond_all H fs h), w)
    \<and> out_bytes (fw_inner w) = concat (map (frame_bytes C)
        (PluginHelloF \<lparr>ph_protocol = protocol_version X, ph_manifest = m\<rparr> # fst (respond_all H fs h)))"
proof -
  let ?w = "writer_new \<lparr>out_bytes = [], out_limit = None, out_flush = None\<rparr>"
  let ?ph = "PluginHelloF \<lparr>ph_protocol = protocol_version X, ph_manifest = m\<rparr>"
  have ok: "writer_ok ?w" "fw_max ?w = DEFAULT_MAX_FRAME_SIZE"
    by (simp_all add: writer_ok_def writer_new_def)
  have "framed_read CH (frames_reader CH DEFAULT_MAX_FRAME_SIZE (HostHelloF hello # fs)) =
      (Inr (HostHelloF hello), frames_reader CH DEFAULT_MAX_FRAME_SIZE fs)"
    using assms(2) by (simp add: framed_read_frame)
  then have read: "framed_read CH (reader_new \<lparr>in_bytes = concat (map (frame_bytes CH) (HostHelloF hello # fs)), in_end = None\<rparr>)
      = (Inr (HostHelloF hello), frames_reader CH DEFAULT_MAX_FRAME_SIZE fs)"
    by (simp add: reader_new_def reader_with_max_def)
  have hi: "framed_write C ?ph ?w = (Inr (), appended C [?ph] ?w)"
    by (rule write_appends) (use ok assms(3) in simp_all)
  have loop: "serve_loop CH C H h (frames_reader CH DEFAULT_MAX_FRAME_SIZE fs) (appended C [?ph] ?w) =
    (if ShutdownF \<in> set fs then Inr () else Inl (SrvFrame UnexpectedEof),
     snd (respond_all H fs h), appended C (fst (respond_all H fs h)) (appended C [?ph] ?w))"
    by (rule serve_loop_frames) (use assms(2,3) ok in simp_all)
  show ?thesis
    by (rule exI[of _ "appended C (fst (respond_all H fs h)) (appended C [?ph] ?w)"], rule conjI)
      (use assms(1) read hi loop in \<open>simp add: serve_worker_def\<close>, simp add: writer_new_def)
qed

text \<open>A codec for the witnesses: each frame of a table is its position, in one byte.\<close>

definition table_codec :: "'a list \<Rightarrow> 'a codec" where
  "table_codec xs =
     \<lparr>to_vec = (\<lambda>v. Inr [word_of_nat (length (takeWhile (\<lambda>x. x \<noteq> v) xs))]),
      from_slice = (\<lambda>b. case b of [k] \<Rightarrow> if unat k < length xs then Inr (xs ! unat k) else Inl ''range''
                               | _ \<Rightarrow> Inl ''length'')\<rparr>"

lemma table_codec_fits: "1 \<le> mx \<Longrightarrow> frame_fits (table_codec xs) mx v"
  by (simp add: frame_fits_def table_codec_def)

lemma table_codec_keeps:
  assumes "v \<in> set xs" "length xs \<le> 256"
  shows "codec_keeps (table_codec xs) v"
proof -
  let ?n = "length (takeWhile (\<lambda>x. x \<noteq> v) xs)"
  obtain ys zs where xs: "xs = ys @ v # zs" "v \<notin> set ys" using assms(1) split_list_first by fast
  have t: "takeWhile (\<lambda>x. x \<noteq> v) xs = ys"
    unfolding xs(1) by (subst takeWhile_append2) (use xs(2) in auto)
  have "unat (word_of_nat (length ys) :: u8) = length ys"
    using assms(2) xs(1) by (simp add: unat_of_nat take_bit_nat_eq_self)
  then show ?thesis by (simp add: codec_keeps_def table_codec_def t) (simp add: xs)
qed

definition sample_hello :: "(version3, version3, string) host_hello" where
  "sample_hello = \<lparr>hh_framework = (0, 1, 0), hh_protocol = (1, 0, 0), hh_requested_interfaces = [],
     hh_metadata = []\<rparr>"

definition echo_handler :: "(string, nat) worker_handler" where
  "echo_handler = \<lparr>wh_invoke = (\<lambda>rq h. SendOutput (PText (rq_command rq))
       (\<lambda>_. Return (Inr (result_success (PText ''done''))) (Suc h))), wh_cancel = cancel_default\<rparr>"

definition sample_session :: "(version3, version3, string) host_frame list" where
  "sample_session = [PingF 7, ShutdownF]"

lemma sample_hello_ok: "validate_hello caret_crates sample_manifest sample_hello = Inr ()"
  by code_simp

theorem server_refines_protocol_witness:
  "\<exists>w. serve_worker caret_crates (table_codec (HostHelloF sample_hello # sample_session)) (table_codec [])
      sample_manifest echo_handler 0
      \<lparr>in_bytes = concat (map (frame_bytes (table_codec (HostHelloF sample_hello # sample_session)))
         (HostHelloF sample_hello # sample_session)), in_end = None\<rparr>
      \<lparr>out_bytes = [], out_limit = None, out_flush = None\<rparr> =
      (if ShutdownF \<in> set sample_session then Inr () else Inl (SrvFrame UnexpectedEof),
       snd (respond_all echo_handler sample_session 0), w)
    \<and> out_bytes (fw_inner w) = concat (map (frame_bytes (table_codec []))
        (PluginHelloF \<lparr>ph_protocol = protocol_version caret_crates, ph_manifest = sample_manifest\<rparr>
          # fst (respond_all echo_handler sample_session 0)))"
proof (rule server_refines_protocol[OF sample_hello_ok])
  let ?fs = "HostHelloF sample_hello # sample_session"
  have k: "codec_keeps (table_codec ?fs) f" if "f \<in> set ?fs" for f
    by (rule table_codec_keeps[OF that]) (simp add: sample_session_def)
  have m: "1 \<le> DEFAULT_MAX_FRAME_SIZE" by (simp add: DEFAULT_MAX_FRAME_SIZE_def)
  show "list_all (\<lambda>f. codec_keeps (table_codec ?fs) f \<and> frame_fits (table_codec ?fs) DEFAULT_MAX_FRAME_SIZE f) ?fs"
    unfolding list_all_iff by (intro ballI conjI k table_codec_fits[OF m])
  show "list_all (frame_fits (table_codec []) DEFAULT_MAX_FRAME_SIZE)
      (PluginHelloF \<lparr>ph_protocol = protocol_version caret_crates, ph_manifest = sample_manifest\<rparr>
        # fst (respond_all echo_handler sample_session 0))"
    unfolding list_all_iff by (intro ballI table_codec_fits[OF m])
qed


text \<open>C24. The handshake is strict: a host whose first frame is not a hello, or whose framework version,
  protocol version or requested interfaces the plugin does not accept, gets nothing but an error exit;
  the handler is not called and not a byte is written. A hello is accepted exactly when the plugin's
  requirements accept both versions and it provides every requested interface at an accepted version.\<close>

theorem handshake_strict:
  "(validate_hello X m hello = Inr () \<longleftrightarrow>
      req_matches X (m_framework m) (hh_framework hello)
      \<and> req_matches X (m_worker_protocol m) (hh_protocol hello)
      \<and> list_all (\<lambda>r. case m_interface m (ir_id r) of None \<Rightarrow> False
          | Some i \<Rightarrow> req_matches X (ir_version r) (im_version i)) (hh_requested_interfaces hello))
   \<and> (case framed_read CH (reader_new stdin) of
        (Inr (HostHelloF hello'), _) \<Rightarrow>
          is_ok (validate_hello X m hello')
          \<or> (\<exists>e. serve_worker X CH C m H h stdin stdout = (Inl e, h, writer_new stdout))
      | _ \<Rightarrow> \<exists>e. serve_worker X CH C m H h stdin stdout = (Inl e, h, writer_new stdout))"
proof
  show "validate_hello X m hello = Inr () \<longleftrightarrow>
      req_matches X (m_framework m) (hh_framework hello)
      \<and> req_matches X (m_worker_protocol m) (hh_protocol hello)
      \<and> list_all (\<lambda>r. case m_interface m (ir_id r) of None \<Rightarrow> False
          | Some i \<Rightarrow> req_matches X (ir_version r) (im_version i)) (hh_requested_interfaces hello)"
    by (auto simp: validate_hello_ok list_all_iff split: option.splits)
  show "case framed_read CH (reader_new stdin) of
        (Inr (HostHelloF hello'), _) \<Rightarrow>
          is_ok (validate_hello X m hello')
          \<or> (\<exists>e. serve_worker X CH C m H h stdin stdout = (Inl e, h, writer_new stdout))
      | _ \<Rightarrow> \<exists>e. serve_worker X CH C m H h stdin stdout = (Inl e, h, writer_new stdout)"
    by (auto simp: serve_worker_def is_ok_def split: prod.splits sum.splits host_frame.splits)
qed

end
