(* ===== verification/Worker_Client.thy ===== *)
theory Worker_Client
  imports Registry Worker_Server
begin

text \<open>
  The host side of the worker protocol: \<open>WorkerClient\<close> of \<open>src/crates/outboard/src/worker.rs\<close>. The
  reader thread sends what it reads through a channel: the client sees a sequence of results, each with
  the time after which it arrives, and afterwards the channel is closed or stays silent. A call that
  waits for ever is \<open>None\<close>. What the operating system gives for a spawn is the argument
  \<open>connector\<close>.
\<close>

section \<open>Data\<close>

definition DEFAULT_CONTROL_TIMEOUT :: duration where
  "DEFAULT_CONTROL_TIMEOUT = 10000"

datatype ('v, 'r, 'j) worker_client_error =
    WorkerNotSupported
  | CliSpawn io_error
  | CliFrame frame_error
  | CliExpectedHello "('v, 'r, 'j) plugin_frame"
  | ManifestChanged
  | CliProtocol 'v 'r
  | CliWorker "'j worker_error"
  | Incomplete request_id
  | CliTimeout duration
  | ChannelClosed
  | CliWait io_error

record ('v, 'r, 'j) invocation_transcript =
  it_id :: request_id
  it_events :: "('v, 'r, 'j) plugin_frame list"
  it_result :: "'j invocation_result"

type_synonym ('v, 'r, 'j) item = "frame_error + ('v, 'r, 'j) plugin_frame"

record ('v, 'r, 'j) channel =
  rx_items :: "(duration \<times> ('v, 'r, 'j) item) list"
  rx_closed :: bool

record ('v, 'r, 'j) connection =
  cn_stdin :: ostream
  cn_channel :: "('v, 'r, 'j) channel"
  cn_wait :: "io_error option"

type_synonym ('v, 'r, 'j) connector = "command \<Rightarrow> io_error + ('v, 'r, 'j) connection"

record ('v, 'r, 'j) worker_client =
  wc_wait :: "io_error option"
  wc_reader_rx :: "('v, 'r, 'j) channel"
  wc_writer :: framed_writer
  wc_next_id :: request_id
  wc_manifest :: "('v, 'r, 'j) manifest"
  wc_control_timeout :: duration

section \<open>The channel\<close>

text \<open>The reader thread: every frame until the first error, which it sends too; then the channel is
  closed.\<close>

definition reader_thread :: "('v, 'r, 'j) plugin_codec \<Rightarrow> istream \<Rightarrow> ('v, 'r, 'j) item list" where
  "reader_thread C stdout =
     (case read_frames C (reader_new stdout) of (fs, e) \<Rightarrow> map Inr fs @ [Inl e])"

definition recv_control ::
    "('v, 'r, 'j) channel \<Rightarrow> duration
     \<Rightarrow> (('v, 'r, 'j) worker_client_error + ('v, 'r, 'j) plugin_frame) \<times> ('v, 'r, 'j) channel" where
  "recv_control ch timeout =
     (case rx_items ch of
        [] \<Rightarrow> (Inl (if rx_closed ch then ChannelClosed else CliTimeout timeout), ch)
      | (d, x) # items \<Rightarrow>
          if timeout < d then (Inl (CliTimeout timeout), ch\<lparr>rx_items := (d - timeout, x) # items\<rparr>)
          else (res_map_err CliFrame x, ch\<lparr>rx_items := items\<rparr>))"

section \<open>Spawning\<close>

definition host_protocol_hello ::
    "('v, 'r, 'j) crates \<Rightarrow> 'r interface_requirement list \<Rightarrow> ('v, 'r, 'j) host_hello" where
  "host_protocol_hello X reqs =
     \<lparr>hh_framework = framework_version X, hh_protocol = protocol_version X,
      hh_requested_interfaces = reqs, hh_metadata = []\<rparr>"

text \<open>What is done with the child after a failed handshake.\<close>

abbreviation abandon :: "child_event list" where
  "abandon \<equiv> [EvSpawned, EvKilled, EvReaped, EvJoined]"

definition serve_command :: "('v, 'r, 'j) resolved_plugin \<Rightarrow> command" where
  "serve_command p = (rp_command_with p [''__outboard'', ''serve''])\<lparr>cmd_stdin_piped := True\<rparr>"

definition spawn_with_interfaces_timeout ::
    "('v, 'r, 'j) crates \<Rightarrow> ('v, 'r, 'j) host_codec \<Rightarrow> ('v, 'r, 'j) connector
     \<Rightarrow> ('v, 'r, 'j) resolved_plugin \<Rightarrow> 'r interface_requirement list \<Rightarrow> duration
     \<Rightarrow> (('v, 'r, 'j) worker_client_error + ('v, 'r, 'j) worker_client) \<times> child_event list" where
  "spawn_with_interfaces_timeout X CH K p reqs timeout =
     (if \<not> supports (rp_manifest p) Worker then (Inl WorkerNotSupported, [])
      else
        (case K (serve_command p) of
           Inl e \<Rightarrow> (Inl (CliSpawn e), [])
         | Inr cn \<Rightarrow>
             (case framed_write CH (HostHelloF (host_protocol_hello X reqs)) (writer_new (cn_stdin cn)) of
                (Inl e, _) \<Rightarrow> (Inl (CliFrame e), [EvSpawned])
              | (Inr _, w) \<Rightarrow>
                  (case recv_control (cn_channel cn) timeout of
                     (Inl e, _) \<Rightarrow> (Inl e, abandon)
                   | (Inr (PluginHelloF hello), rx) \<Rightarrow>
                       if ph_manifest hello \<noteq> rp_manifest p then (Inl ManifestChanged, abandon)
                       else if \<not> req_matches X (caret_protocol X) (ph_protocol hello)
                       then (Inl (CliProtocol (ph_protocol hello) (caret_protocol X)), abandon)
                       else (Inr \<lparr>wc_wait = cn_wait cn, wc_reader_rx = rx, wc_writer = w, wc_next_id = 1,
                                  wc_manifest = ph_manifest hello, wc_control_timeout = timeout\<rparr>,
                             [EvSpawned])
                   | (Inr f, _) \<Rightarrow> (Inl (CliExpectedHello f), abandon)))))"

definition spawn_with_interfaces ::
    "('v, 'r, 'j) crates \<Rightarrow> ('v, 'r, 'j) host_codec \<Rightarrow> ('v, 'r, 'j) connector
     \<Rightarrow> ('v, 'r, 'j) resolved_plugin \<Rightarrow> 'r interface_requirement list
     \<Rightarrow> (('v, 'r, 'j) worker_client_error + ('v, 'r, 'j) worker_client) \<times> child_event list" where
  "spawn_with_interfaces X CH K p reqs =
     spawn_with_interfaces_timeout X CH K p reqs DEFAULT_CONTROL_TIMEOUT"

definition worker_spawn ::
    "('v, 'r, 'j) crates \<Rightarrow> ('v, 'r, 'j) host_codec \<Rightarrow> ('v, 'r, 'j) connector
     \<Rightarrow> ('v, 'r, 'j) resolved_plugin
     \<Rightarrow> (('v, 'r, 'j) worker_client_error + ('v, 'r, 'j) worker_client) \<times> child_event list" where
  "worker_spawn X CH K p = spawn_with_interfaces X CH K p []"

section \<open>Calls\<close>

definition saturating_add :: "u64 \<Rightarrow> u64 \<Rightarrow> u64" where
  "saturating_add a b = (if unat a + unat b < 2 ^ 64 then a + b else - 1)"

text \<open>The loop of \<open>invoke\<close>: the events so far, the result and the channel that is left; \<open>None\<close> where
  the call waits for ever.\<close>

fun collect_events ::
    "request_id \<Rightarrow> bool \<Rightarrow> (duration \<times> ('v, 'r, 'j) item) list \<Rightarrow> ('v, 'r, 'j) plugin_frame list
     \<Rightarrow> ((('v, 'r, 'j) worker_client_error + ('v, 'r, 'j) invocation_transcript)
         \<times> (duration \<times> ('v, 'r, 'j) item) list) option" where
  "collect_events i closed [] events = (if closed then Some (Inl (Incomplete i), []) else None)"
| "collect_events i closed ((d, Inl UnexpectedEof) # items) events = Some (Inl (Incomplete i), items)"
| "collect_events i closed ((d, Inl e) # items) events = Some (Inl (CliFrame e), items)"
| "collect_events i closed ((d, Inr f) # items) events =
     (case f of
        FinishedF j result \<Rightarrow>
          if j = i
          then Some (Inr \<lparr>it_id = i, it_events = events @ [FinishedF j result], it_result = result\<rparr>, items)
          else collect_events i closed items (events @ [f])
      | ErrorF (Some j) e \<Rightarrow>
          if j = i then Some (Inl (CliWorker e), items)
          else collect_events i closed items (events @ [f])
      | _ \<Rightarrow> collect_events i closed items (events @ [f]))"

definition client_invoke ::
    "('v, 'r, 'j) host_codec \<Rightarrow> interface_id \<Rightarrow> string \<Rightarrow> os_string list \<Rightarrow> ('v, 'r, 'j) worker_client
     \<Rightarrow> ((('v, 'r, 'j) worker_client_error + ('v, 'r, 'j) invocation_transcript)
         \<times> ('v, 'r, 'j) worker_client) option" where
  "client_invoke CH interface command args c =
     (let i = wc_next_id c;
          c1 = c\<lparr>wc_next_id := saturating_add (wc_next_id c) 1\<rparr>;
          rq = \<lparr>rq_id = i, rq_interface = interface, rq_command = command,
                rq_args = map from_os args, rq_metadata = []\<rparr> in
      case framed_write CH (InvokeF rq) (wc_writer c1) of
        (Inl e, w) \<Rightarrow> Some (Inl (CliFrame e), c1\<lparr>wc_writer := w\<rparr>)
      | (Inr _, w) \<Rightarrow>
          map_option (\<lambda>(r, items). (r, c1\<lparr>wc_writer := w, wc_reader_rx := (wc_reader_rx c1)\<lparr>rx_items := items\<rparr>\<rparr>))
            (collect_events i (rx_closed (wc_reader_rx c1)) (rx_items (wc_reader_rx c1)) []))"

definition client_cancel ::
    "('v, 'r, 'j) host_codec \<Rightarrow> request_id \<Rightarrow> ('v, 'r, 'j) worker_client
     \<Rightarrow> (('v, 'r, 'j) worker_client_error + unit) \<times> ('v, 'r, 'j) worker_client" where
  "client_cancel CH i c =
     (case framed_write CH (CancelF i) (wc_writer c) of
        (r, w) \<Rightarrow> (res_map_err CliFrame r, c\<lparr>wc_writer := w\<rparr>))"

text \<open>The loop of \<open>ping\<close> and \<open>shutdown\<close>: frames are received until one is the awaited one or an
  error; each receive has the whole time limit.\<close>

function await_frame ::
    "(('v, 'r, 'j) plugin_frame \<Rightarrow> bool) \<Rightarrow> duration \<Rightarrow> ('v, 'r, 'j) channel
     \<Rightarrow> (('v, 'r, 'j) worker_client_error + unit) \<times> ('v, 'r, 'j) channel" where
  "await_frame good timeout ch =
     (case recv_control ch timeout of
        (Inl e, ch') \<Rightarrow> (Inl e, ch')
      | (Inr f, ch') \<Rightarrow>
          if good f then (Inr (), ch')
          else (case f of ErrorF _ e \<Rightarrow> (Inl (CliWorker e), ch') | _ \<Rightarrow> await_frame good timeout ch'))"
  by pat_completeness auto

lemma recv_control_decreases:
  "recv_control ch t = (Inr f, ch') \<Longrightarrow> length (rx_items ch') < length (rx_items ch)"
  by (auto simp: recv_control_def split: list.splits if_splits)

termination await_frame
  by (relation "measure (\<lambda>(good, t, ch). length (rx_items ch))")
    (auto dest: recv_control_decreases[OF sym])

declare await_frame.simps [simp del]

definition client_ping ::
    "('v, 'r, 'j) host_codec \<Rightarrow> u64 \<Rightarrow> ('v, 'r, 'j) worker_client
     \<Rightarrow> (('v, 'r, 'j) worker_client_error + unit) \<times> ('v, 'r, 'j) worker_client" where
  "client_ping CH nonce c =
     (case framed_write CH (PingF nonce) (wc_writer c) of
        (Inl e, w) \<Rightarrow> (Inl (CliFrame e), c\<lparr>wc_writer := w\<rparr>)
      | (Inr _, w) \<Rightarrow>
          (case await_frame (\<lambda>f. f = PongF nonce) (wc_control_timeout c) (wc_reader_rx c) of
             (r, rx) \<Rightarrow> (r, c\<lparr>wc_writer := w, wc_reader_rx := rx\<rparr>)))"

text \<open>\<open>Drop\<close> runs on every client, also at the end of \<open>shutdown\<close>, which consumes it. A reader thread
  that was joined is not joined again.\<close>

definition client_drop :: "bool \<Rightarrow> child_event list" where
  "client_drop joined = [EvKilled, EvReaped] @ (if joined then [] else [EvJoined])"

definition client_shutdown ::
    "('v, 'r, 'j) host_codec \<Rightarrow> ('v, 'r, 'j) worker_client
     \<Rightarrow> (('v, 'r, 'j) worker_client_error + unit) \<times> child_event list" where
  "client_shutdown CH c =
     (case framed_write CH ShutdownF (wc_writer c) of
        (Inl e, _) \<Rightarrow> (Inl (CliFrame e), client_drop False)
      | (Inr _, _) \<Rightarrow>
          (case await_frame (\<lambda>f. f = ShutdownAckF) (wc_control_timeout c) (wc_reader_rx c) of
             (Inl e, _) \<Rightarrow> (Inl e, client_drop False)
           | (Inr _, _) \<Rightarrow>
               (case wc_wait c of
                  Some e \<Rightarrow> (Inl (CliWait e), client_drop False)
                | None \<Rightarrow> (Inr (), [EvReaped, EvJoined] @ client_drop True))))"

section \<open>Lemmas on the calls\<close>

definition ends_request :: "request_id \<Rightarrow> ('v, 'r, 'j) plugin_frame \<Rightarrow> bool" where
  "ends_request i f =
     (case f of FinishedF j _ \<Rightarrow> j = i | ErrorF (Some j) _ \<Rightarrow> j = i | _ \<Rightarrow> False)"

definition outcome ::
    "request_id \<Rightarrow> ('v, 'r, 'j) plugin_frame list \<Rightarrow> ('v, 'r, 'j) plugin_frame
     \<Rightarrow> ('v, 'r, 'j) worker_client_error + ('v, 'r, 'j) invocation_transcript" where
  "outcome i events t =
     (case t of
        FinishedF _ r \<Rightarrow> Inr \<lparr>it_id = i, it_events = events @ [t], it_result = r\<rparr>
      | ErrorF _ e \<Rightarrow> Inl (CliWorker e)
      | _ \<Rightarrow> Inl (Incomplete i))"

lemma collect_events_pending:
  "\<not> ends_request i f \<Longrightarrow>
   collect_events i closed ((d, Inr f) # items) events = collect_events i closed items (events @ [f])"
  by (cases f) (auto simp: ends_request_def split: option.splits)

lemma collect_events_end:
  "ends_request i t \<Longrightarrow>
   collect_events i closed ((d, Inr t) # items) events = Some (outcome i events t, items)"
  by (cases t) (auto simp: ends_request_def outcome_def split: option.splits)

text \<open>What collects the frames of one call, on whatever carries them: it keeps the frames that do not end the
  call and stops at the one that does.\<close>

locale call_collector =
  fixes arrives :: "'x \<Rightarrow> ('v, 'r, 'j) plugin_frame \<Rightarrow> bool"
    and collect :: "request_id \<Rightarrow> 'x list \<Rightarrow> ('v, 'r, 'j) plugin_frame list \<Rightarrow> 'res"
    and stop :: "request_id \<Rightarrow> ('v, 'r, 'j) plugin_frame list \<Rightarrow> ('v, 'r, 'j) plugin_frame \<Rightarrow> 'x list \<Rightarrow> 'res"
  assumes skips: "arrives x f \<Longrightarrow> \<not> ends_request i f \<Longrightarrow> collect i (x # xs) ev = collect i xs (ev @ [f])"
    and stops: "arrives x t \<Longrightarrow> ends_request i t \<Longrightarrow> collect i (x # xs) ev = stop i ev t xs"
begin

lemma collect_pending:
  "list_all2 arrives xs fs \<Longrightarrow> list_all (\<lambda>f. \<not> ends_request i f) fs \<Longrightarrow>
   collect i (xs @ rest) ev = collect i rest (ev @ fs)"
  by (induction arbitrary: ev rule: list_all2_induct) (simp_all add: skips)

lemma collect_call:
  assumes "list_all2 arrives xs fs" "list_all (\<lambda>f. \<not> ends_request i f) fs" "arrives x t" "ends_request i t"
  shows "collect i (xs @ x # rest) ev = stop i (ev @ fs) t rest"
  using collect_pending[OF assms(1,2)] stops[OF assms(3,4)] by simp

end

interpretation sync_call: call_collector "\<lambda>x f. snd x = Inr f" "\<lambda>i. collect_events i closed"
  "\<lambda>i ev t items. Some (outcome i ev t, items)"
proof
  show "collect_events i closed (x # xs) ev = collect_events i closed xs (ev @ [f])"
    if "snd x = Inr f" "\<not> ends_request i f" for x f i xs ev
    using collect_events_pending[OF that(2), of closed "fst x"] that(1) by (metis prod.collapse)
  show "collect_events i closed (x # xs) ev = Some (outcome i ev t, xs)"
    if "snd x = Inr t" "ends_request i t" for x t i xs ev
    using collect_events_end[OF that(2), of closed "fst x"] that(1) by (metis prod.collapse)
qed

lemma items_carry: "map snd xs = map Inr fs \<Longrightarrow> list_all2 (\<lambda>x f. snd x = Inr f) xs fs"
  by (induction xs arbitrary: fs) (auto simp: Cons_eq_map_conv)

lemma invocation_frames_pending:
  "list_all (\<lambda>f. \<not> ends_request i f) (fst (invocation_frames i t))"
  by (induction t) (auto simp: ends_request_def rangeI)

lemma saturating_add_unat:
  "unat (saturating_add a b) = min (unat a + unat b) (2 ^ 64 - 1)"
proof (cases "unat a + unat b < 2 ^ 64")
  case True
  then have "unat (a + b) = unat a + unat b"
    by (simp add: unat_word_ariths)
  with True show ?thesis by (simp add: saturating_add_def)
next
  case False
  then show ?thesis by (simp add: saturating_add_def unsigned_minus_1_eq_mask mask_eq_exp_minus_1)
qed

lemma await_frame_good:
  assumes "rx_items ch = (d, Inr f) # items" "d \<le> t" "good f"
  shows "await_frame good t ch = (Inr (), ch\<lparr>rx_items := items\<rparr>)"
  using assms by (subst await_frame.simps) (simp add: recv_control_def)

section \<open>Properties\<close>

text \<open>C20. Spawning a worker is all or nothing for the host, with one exception. A client is returned only
  if the plugin advertises worker execution and answered in time with its hello, whose manifest is the
  one that was resolved and whose protocol the host accepts. Otherwise the child, if one was started,
  has been killed and reaped and its reader joined; but when writing the hello fails the child is left
  as it is.\<close>

theorem spawn_all_or_nothing:
  "case spawn_with_interfaces_timeout X CH K p reqs t of
     (Inr c, ev) \<Rightarrow> supports (rp_manifest p) Worker \<and> wc_manifest c = rp_manifest p
       \<and> wc_next_id c = 1 \<and> wc_control_timeout c = t \<and> ev = [EvSpawned]
       \<and> (\<exists>cn hello rx. K (serve_command p) = Inr cn
            \<and> recv_control (cn_channel cn) t = (Inr (PluginHelloF hello), rx)
            \<and> req_matches X (caret_protocol X) (ph_protocol hello) \<and> wc_reader_rx c = rx)
   | (Inl e, ev) \<Rightarrow> ev = []
       \<or> {EvKilled, EvReaped, EvJoined} \<subseteq> set ev
       \<or> ev = [EvSpawned] \<and> (\<exists>cn w fe. K (serve_command p) = Inr cn \<and> e = CliFrame fe
            \<and> framed_write CH (HostHelloF (host_protocol_hello X reqs)) (writer_new (cn_stdin cn)) = (Inl fe, w))"
proof (cases "supports (rp_manifest p) Worker")
  case False
  then show ?thesis by (simp add: spawn_with_interfaces_timeout_def)
next
  case sup: True
  show ?thesis
  proof (cases "K (serve_command p)")
    case (Inl e)
    then show ?thesis using sup by (simp add: spawn_with_interfaces_timeout_def)
  next
    case (Inr cn)
    obtain r w where w: "framed_write CH (HostHelloF (host_protocol_hello X reqs)) (writer_new (cn_stdin cn)) = (r, w)"
      by (rule prod.exhaust)
    obtain f rx where rx: "recv_control (cn_channel cn) t = (f, rx)" by (rule prod.exhaust)
    show ?thesis
      using sup Inr w rx
      by (cases r; cases f; cases "projr f") (auto simp: spawn_with_interfaces_timeout_def)
  qed
qed


text \<open>C1. A call reaches the handler and comes back. If the channel carries what the server of the
  protocol answers to the very request that \<open>invoke\<close> writes, then \<open>invoke\<close> returns: with the handler's
  result and all frames of the request in order, or with the handler's error; it leaves what follows on
  the channel, and the arguments the handler decodes are those the caller gave.\<close>

theorem worker_call_end_to_end:
  assumes "rq = \<lparr>rq_id = wc_next_id c, rq_interface = interface, rq_command = command,
      rq_args = map from_os argv, rq_metadata = []\<rparr>"
    and "writer_ok (wc_writer c)" "frame_fits CH (fw_max (wc_writer c)) (InvokeF rq)"
    and "rx_items (wc_reader_rx c) = items @ rest"
    and "map snd items = map Inr (fst (respond H (InvokeF rq :: ('v, 'r, 'j) host_frame) h))"
  shows "\<exists>c'. client_invoke CH interface command argv (c :: ('v, 'r, 'j) worker_client) =
      Some (case fst (snd (invocation_frames (wc_next_id c) (wh_invoke H rq h)
               :: ('v, 'r, 'j) plugin_frame list \<times> _)) of
              Inr result \<Rightarrow> Inr \<lparr>it_id = wc_next_id c,
                it_events = fst (respond H (InvokeF rq) h), it_result = result\<rparr>
            | Inl e \<Rightarrow> Inl (CliWorker e), c')
    \<and> rx_items (wc_reader_rx c') = rest \<and> wc_next_id c' = saturating_add (wc_next_id c) 1
    \<and> args_os rq = Inr argv"
proof -
  let ?i = "wc_next_id c"
  let ?t = "invocation_frames ?i (wh_invoke H rq h) :: ('v, 'r, 'j) plugin_frame list \<times> _"
  let ?pre = "StartedF ?i # fst ?t" and ?fin = "terminal_frame ?i (fst (snd ?t))"
  have rq: "rq_id rq = ?i" using assms(1) by simp
  have fr: "fst (respond H (InvokeF rq) h) = ?pre @ [?fin]" unfolding respond_invoke rq by (simp add: Let_def)
  then obtain xs d where items: "items = xs @ [(d, Inr ?fin)]" "map snd xs = map Inr ?pre"
    using assms(5) by (auto simp: map_eq_append_conv)
  have "list_all2 (\<lambda>x f. snd x = Inr f) xs ?pre"
    by (rule items_carry[OF items(2)])
  moreover have "list_all (\<lambda>f. \<not> ends_request ?i f) ?pre"
    using invocation_frames_pending[of ?i] by (simp add: ends_request_def)
  moreover have "ends_request ?i ?fin" by (cases "fst (snd ?t)") (simp_all add: terminal_frame_def ends_request_def)
  ultimately have "collect_events ?i cl (items @ rest) [] = Some (outcome ?i ?pre ?fin, rest)" for cl
    using sync_call.collect_call[of xs ?pre ?i "(d, Inr ?fin)" ?fin cl rest "[]"] items(1) by simp
  moreover have "outcome ?i ?pre ?fin = (case fst (snd ?t) of
      Inr result \<Rightarrow> Inr \<lparr>it_id = ?i, it_events = fst (respond H (InvokeF rq) h), it_result = result\<rparr>
    | Inl e \<Rightarrow> Inl (CliWorker e))"
    unfolding fr by (cases "fst (snd ?t)") (simp_all add: outcome_def terminal_frame_def)
  moreover have "args_os rq = Inr argv" by (simp add: assms(1) args_os_def wire_os.collect_map_enc)
  ultimately show ?thesis
    using write_appends[OF assms(2,3)] assms(1,4) by (auto simp: client_invoke_def Let_def)
qed

definition sample_request :: "string invoke_request" where
  "sample_request = \<lparr>rq_id = 1, rq_interface = Ident ''app.engine'', rq_command = ''run'',
     rq_args = map from_os [''--fast''], rq_metadata = []\<rparr>"

definition sample_client :: "(version3, version3, string) worker_client" where
  "sample_client =
     \<lparr>wc_wait = None,
      wc_reader_rx = \<lparr>rx_items = map (\<lambda>f. (3, Inr f)) (fst (respond echo_handler (InvokeF sample_request) 0)),
                      rx_closed = False\<rparr>,
      wc_writer = writer_new \<lparr>out_bytes = [], out_limit = None, out_flush = None\<rparr>, wc_next_id = 1,
      wc_manifest = sample_manifest, wc_control_timeout = 10000\<rparr>"

theorem worker_call_end_to_end_witness:
  "\<exists>c'. client_invoke (table_codec []) (Ident ''app.engine'') ''run'' [''--fast''] sample_client =
     Some (Inr \<lparr>it_id = 1, it_events = [StartedF 1, OutputF 1 (PText ''run''),
       FinishedF 1 (result_success (PText ''done''))], it_result = result_success (PText ''done'')\<rparr>, c')"
proof -
  let ?fs = "fst (respond echo_handler (InvokeF sample_request :: (version3, version3, string) host_frame) 0)"
  have fs: "?fs = [StartedF 1, OutputF 1 (PText ''run''), FinishedF 1 (result_success (PText ''done''))]"
    "fst (snd (invocation_frames 1 (wh_invoke echo_handler sample_request 0)
       :: (version3, version3, string) plugin_frame list \<times> _)) = Inr (result_success (PText ''done''))"
    by (simp_all add: echo_handler_def sample_request_def terminal_frame_def)
  have "writer_ok (wc_writer sample_client)"
    "frame_fits (table_codec []) (fw_max (wc_writer sample_client)) (InvokeF sample_request)"
    by (simp_all add: sample_client_def writer_ok_def writer_new_def DEFAULT_MAX_FRAME_SIZE_def table_codec_fits)
  moreover have "sample_request = \<lparr>rq_id = wc_next_id sample_client, rq_interface = Ident ''app.engine'',
      rq_command = ''run'', rq_args = map from_os [''--fast''], rq_metadata = []\<rparr>"
    by (simp add: sample_client_def sample_request_def)
  moreover have "rx_items (wc_reader_rx sample_client) = map (\<lambda>f. (3, Inr f)) ?fs @ []"
    by (simp add: sample_client_def)
  moreover have "map snd (map (\<lambda>f. (3 :: duration, Inr f :: (version3, version3, string) item)) ?fs) = map Inr ?fs"
    by simp
  moreover have "wc_next_id sample_client = 1" by (simp add: sample_client_def)
  ultimately show ?thesis
    using worker_call_end_to_end[of sample_request sample_client "Ident ''app.engine''" "''run''" "[''--fast'']"
        "table_codec []" "map (\<lambda>f. (3, Inr f)) ?fs" "[]" echo_handler 0] fs by auto
qed

text \<open>Request ids are fresh: the \<open>k\<close>-th call on a client uses id \<open>k\<close>, as long as fewer than
  \<open>2^64 - 1\<close> calls were made; from then on the counter stays at its largest value.\<close>

theorem request_ids_fresh:
  "(case client_invoke CH interface command args c of
      None \<Rightarrow> True | Some (r, c') \<Rightarrow> wc_next_id c' = saturating_add (wc_next_id c) 1)
   \<and> unat (((\<lambda>i. saturating_add i 1) ^^ k) (1 :: request_id)) = min (Suc k) (2 ^ 64 - 1)"
proof
  show "case client_invoke CH interface command args c of
      None \<Rightarrow> True | Some (r, c') \<Rightarrow> wc_next_id c' = saturating_add (wc_next_id c) 1"
    by (auto simp: client_invoke_def Let_def split: prod.splits sum.splits option.splits)
  show "unat (((\<lambda>i. saturating_add i 1) ^^ k) (1 :: request_id)) = min (Suc k) (2 ^ 64 - 1)"
    by (induction k) (simp_all add: saturating_add_unat)
qed

end
