(* ===== verification/Tokio_Client.thy ===== *)
theory Tokio_Client
  imports Worker_Client
begin

text \<open>
  The concurrent client of \<open>src/crates/outboard-tokio/src/lib.rs\<close>: any number of invocations and one
  reader task share a map from request ids to the channels of the invocations. The state holds the map,
  what was sent into each channel, the frames the reader has handled and the frames the host has
  written; a step is one section of code between two points where another task can run: the
  registration of an invocation, its write, the routing of a frame, the removal after a terminal frame,
  the end of the reader or its abortion by \<open>shutdown\<close>. The \<open>n\<close>-th invocation (from 0) has channel \<open>n\<close> and, \<open>fetch_add\<close> starting
  at 1 and wrapping, request id \<open>1 + n\<close> modulo \<open>2^64\<close>.
\<close>

section \<open>State\<close>

datatype reader_pc = Reading | Removing request_id | ReaderDone

record ('v, 'r, 'j) client_inner =
  ci_pending :: "request_id \<rightharpoonup> nat"
  ci_next_id :: request_id
  ci_channels :: nat
  ci_queue :: "nat \<Rightarrow> ('v, 'r, 'j) plugin_frame list"
  ci_global :: "('v, 'r, 'j) plugin_frame list"
  ci_reader :: reader_pc
  ci_unwritten :: "nat set"
  ci_failed :: "nat set"
  ci_log :: "('v, 'r, 'j) plugin_frame list"
  ci_written :: "('v, 'r, 'j) host_frame list"

definition client_init :: "('v, 'r, 'j) client_inner" where
  "client_init =
     \<lparr>ci_pending = Map.empty, ci_next_id = 1, ci_channels = 0, ci_queue = (\<lambda>_. []), ci_global = [],
      ci_reader = Reading, ci_unwritten = {}, ci_failed = {}, ci_log = [], ci_written = []\<rparr>"

definition chan_id :: "nat \<Rightarrow> request_id" where
  "chan_id n = 1 + word_of_nat n"

section \<open>Steps\<close>

text \<open>\<open>invoke\<close> up to the registration of its channel.\<close>

definition register :: "('v, 'r, 'j) client_inner \<Rightarrow> ('v, 'r, 'j) client_inner" where
  "register s =
     s\<lparr>ci_pending := (ci_pending s)(ci_next_id s \<mapsto> ci_channels s),
       ci_next_id := ci_next_id s + 1,
       ci_channels := Suc (ci_channels s),
       ci_unwritten := insert (ci_channels s) (ci_unwritten s)\<rparr>"

definition async_request :: "nat \<Rightarrow> interface_id \<Rightarrow> string \<Rightarrow> os_string list \<Rightarrow> 'j invoke_request" where
  "async_request n interface command args =
     \<lparr>rq_id = chan_id n, rq_interface = interface, rq_command = command,
      rq_args = map from_os args, rq_metadata = []\<rparr>"

text \<open>The write of \<open>invoke\<close>; where it fails the registration is taken back.\<close>

definition write_ok ::
    "nat \<Rightarrow> ('v, 'r, 'j) host_frame \<Rightarrow> ('v, 'r, 'j) client_inner \<Rightarrow> ('v, 'r, 'j) client_inner" where
  "write_ok n f s = s\<lparr>ci_unwritten := ci_unwritten s - {n}, ci_written := ci_written s @ [f]\<rparr>"

definition write_failed :: "nat \<Rightarrow> ('v, 'r, 'j) client_inner \<Rightarrow> ('v, 'r, 'j) client_inner" where
  "write_failed n s =
     s\<lparr>ci_unwritten := ci_unwritten s - {n}, ci_failed := insert n (ci_failed s),
       ci_pending := (ci_pending s)(chan_id n := None)\<rparr>"

text \<open>The reader task on a frame: to the channel of its request if there is one, to the global channel
  if it has no request; a terminal frame is followed by the removal of the request.\<close>

definition terminal :: "('v, 'r, 'j) plugin_frame \<Rightarrow> bool" where
  "terminal f = (case f of FinishedF _ _ \<Rightarrow> True | ErrorF _ _ \<Rightarrow> True | _ \<Rightarrow> False)"

definition route ::
    "('v, 'r, 'j) plugin_frame \<Rightarrow> ('v, 'r, 'j) client_inner \<Rightarrow> ('v, 'r, 'j) client_inner" where
  "route f s =
     (case frame_request_id f of
        Some i \<Rightarrow>
          (case ci_pending s i of
             Some n \<Rightarrow> s\<lparr>ci_queue := (ci_queue s)(n := ci_queue s n @ [f])\<rparr>
           | None \<Rightarrow> s)
          \<lparr>ci_reader := (if terminal f then Removing i else Reading), ci_log := ci_log s @ [f]\<rparr>
      | None \<Rightarrow> s\<lparr>ci_global := ci_global s @ [f], ci_log := ci_log s @ [f]\<rparr>)"

definition remove_request ::
    "request_id \<Rightarrow> ('v, 'r, 'j) client_inner \<Rightarrow> ('v, 'r, 'j) client_inner" where
  "remove_request i s = s\<lparr>ci_pending := (ci_pending s)(i := None), ci_reader := Reading\<rparr>"

definition reader_end :: "('v, 'r, 'j) client_inner \<Rightarrow> ('v, 'r, 'j) client_inner" where
  "reader_end s = s\<lparr>ci_pending := Map.empty, ci_reader := ReaderDone\<rparr>"

text \<open>What the protocol asks of the worker: a frame that names a request names one the host made.\<close>

definition solicited :: "('v, 'r, 'j) client_inner \<Rightarrow> ('v, 'r, 'j) plugin_frame \<Rightarrow> bool" where
  "solicited s f =
     (case frame_request_id f of None \<Rightarrow> True | Some i \<Rightarrow> \<exists>n < ci_channels s. i = chan_id n)"

inductive client_step :: "('v, 'r, 'j) client_inner \<Rightarrow> ('v, 'r, 'j) client_inner \<Rightarrow> bool" where
  step_register: "client_step s (register s)"
| step_write_ok: "n \<in> ci_unwritten s \<Longrightarrow>
     client_step s (write_ok n (InvokeF (async_request n interface command args)) s)"
| step_write_failed: "n \<in> ci_unwritten s \<Longrightarrow> client_step s (write_failed n s)"
| step_other_write: "client_step s (s\<lparr>ci_written := ci_written s @ [f]\<rparr>)"
| step_route: "ci_reader s = Reading \<Longrightarrow> solicited s f \<Longrightarrow> client_step s (route f s)"
| step_remove: "ci_reader s = Removing i \<Longrightarrow> client_step s (remove_request i s)"
| step_reader_end: "ci_reader s = Reading \<Longrightarrow> client_step s (reader_end s)"
| step_abort: "client_step s (s\<lparr>ci_reader := ReaderDone\<rparr>)"

inductive_cases client_stepE: "client_step s t"

inductive client_reachable :: "('v, 'r, 'j) client_inner \<Rightarrow> bool" where
  reach_init: "client_reachable client_init"
| reach_step: "client_reachable s \<Longrightarrow> client_step s t \<Longrightarrow> client_reachable t"

section \<open>Receiving\<close>

text \<open>A channel is closed when no sender is left: the map holds none.\<close>

definition channel_closed :: "('v, 'r, 'j) client_inner \<Rightarrow> nat \<Rightarrow> bool" where
  "channel_closed s n \<longleftrightarrow> n \<notin> ran (ci_pending s)"

datatype ('v, 'r, 'j) async_client_error =
    AsyncWorkerNotSupported
  | AsyncSpawn io_error
  | AsyncFrame frame_error
  | AsyncExpectedHello "('v, 'r, 'j) plugin_frame"
  | AsyncManifestChanged
  | AsyncProtocol 'v 'r
  | AsyncWorker "'j worker_error"
  | AsyncChannelClosed request_id
  | AsyncTimeout duration
  | AsyncWait io_error

text \<open>\<open>Invocation::next_event\<close>: the next frame and the rest of the channel, nothing once it is closed and
  empty; \<open>None\<close> while it waits.\<close>

fun next_event ::
    "bool \<Rightarrow> ('v, 'r, 'j) plugin_frame list
     \<Rightarrow> (('v, 'r, 'j) plugin_frame option \<times> ('v, 'r, 'j) plugin_frame list) option" where
  "next_event closed [] = (if closed then Some (None, []) else None)"
| "next_event closed (f # fs) = Some (Some f, fs)"

text \<open>\<open>Invocation::finish\<close> on what its channel holds and whether it is closed; \<open>None\<close> while it
  waits.\<close>

fun finish ::
    "request_id \<Rightarrow> bool \<Rightarrow> ('v, 'r, 'j) plugin_frame list \<Rightarrow> ('v, 'r, 'j) plugin_frame list
     \<Rightarrow> (('v, 'r, 'j) async_client_error + ('v, 'r, 'j) invocation_transcript) option" where
  "finish i closed [] events = (if closed then Some (Inl (AsyncChannelClosed i)) else None)"
| "finish i closed (f # fs) events =
     (case f of
        FinishedF j result \<Rightarrow>
          if j = i then Some (Inr \<lparr>it_id = i, it_events = events @ [FinishedF j result], it_result = result\<rparr>)
          else finish i closed fs (events @ [f])
      | ErrorF (Some j) e \<Rightarrow>
          if j = i then Some (Inl (AsyncWorker e)) else finish i closed fs (events @ [f])
      | _ \<Rightarrow> finish i closed fs (events @ [f]))"

text \<open>The receive loop of \<open>ping\<close> and \<open>shutdown\<close> on the global channel, which the time limit cuts
  off: the frames are those that arrive within it.\<close>

fun await_global ::
    "(('v, 'r, 'j) plugin_frame \<Rightarrow> bool) \<Rightarrow> duration \<Rightarrow> bool \<Rightarrow> ('v, 'r, 'j) plugin_frame list
     \<Rightarrow> ('v, 'r, 'j) async_client_error + unit" where
  "await_global good timeout closed [] =
     Inl (if closed then AsyncChannelClosed 0 else AsyncTimeout timeout)"
| "await_global good timeout closed (f # fs) =
     (if good f then Inr ()
      else (case f of ErrorF _ e \<Rightarrow> Inl (AsyncWorker e) | _ \<Rightarrow> await_global good timeout closed fs))"

section \<open>Spawning\<close>

text \<open>\<open>spawn_with_interfaces_timeout\<close>: the hello is read directly, within the time limit; the child is
  killed when it is dropped, which every failure after the spawn does.\<close>

datatype ('v, 'r, 'j) timed_read = ReadInTime "frame_error + ('v, 'r, 'j) plugin_frame" | ReadTimedOut

record ('v, 'r, 'j) async_connection =
  ac_stdin :: ostream
  ac_first :: "('v, 'r, 'j) timed_read"

definition async_spawn ::
    "('v, 'r, 'j) crates \<Rightarrow> ('v, 'r, 'j) host_codec \<Rightarrow> (command \<Rightarrow> io_error + ('v, 'r, 'j) async_connection)
     \<Rightarrow> ('v, 'r, 'j) resolved_plugin \<Rightarrow> 'r interface_requirement list \<Rightarrow> duration
     \<Rightarrow> (('v, 'r, 'j) async_client_error + ('v, 'r, 'j) manifest \<times> framed_writer) \<times> child_event list" where
  "async_spawn X CH K p reqs timeout =
     (if \<not> supports (rp_manifest p) Worker then (Inl AsyncWorkerNotSupported, [])
      else
        (case K (serve_command p) of
           Inl e \<Rightarrow> (Inl (AsyncSpawn e), [])
         | Inr cn \<Rightarrow>
             (case async_write CH (HostHelloF (host_protocol_hello X reqs)) (writer_new (ac_stdin cn)) of
                (Inl e, _) \<Rightarrow> (Inl (AsyncFrame e), [EvSpawned, EvKilled])
              | (Inr _, w) \<Rightarrow>
                  (case ac_first cn of
                     ReadTimedOut \<Rightarrow> (Inl (AsyncTimeout timeout), [EvSpawned, EvKilled])
                   | ReadInTime (Inl e) \<Rightarrow> (Inl (AsyncFrame e), [EvSpawned, EvKilled])
                   | ReadInTime (Inr (PluginHelloF hello)) \<Rightarrow>
                       if ph_manifest hello \<noteq> rp_manifest p
                       then (Inl AsyncManifestChanged, [EvSpawned, EvKilled])
                       else if \<not> req_matches X (caret_protocol X) (ph_protocol hello)
                       then (Inl (AsyncProtocol (ph_protocol hello) (caret_protocol X)), [EvSpawned, EvKilled])
                       else (Inr (ph_manifest hello, w), [EvSpawned])
                   | ReadInTime (Inr f) \<Rightarrow> (Inl (AsyncExpectedHello f), [EvSpawned, EvKilled])))))"

definition async_spawn_with_interfaces ::
    "('v, 'r, 'j) crates \<Rightarrow> ('v, 'r, 'j) host_codec \<Rightarrow> (command \<Rightarrow> io_error + ('v, 'r, 'j) async_connection)
     \<Rightarrow> ('v, 'r, 'j) resolved_plugin \<Rightarrow> 'r interface_requirement list
     \<Rightarrow> (('v, 'r, 'j) async_client_error + ('v, 'r, 'j) manifest \<times> framed_writer) \<times> child_event list" where
  "async_spawn_with_interfaces X CH K p reqs = async_spawn X CH K p reqs DEFAULT_CONTROL_TIMEOUT"

definition async_spawn_plain ::
    "('v, 'r, 'j) crates \<Rightarrow> ('v, 'r, 'j) host_codec \<Rightarrow> (command \<Rightarrow> io_error + ('v, 'r, 'j) async_connection)
     \<Rightarrow> ('v, 'r, 'j) resolved_plugin
     \<Rightarrow> (('v, 'r, 'j) async_client_error + ('v, 'r, 'j) manifest \<times> framed_writer) \<times> child_event list" where
  "async_spawn_plain X CH K p = async_spawn_with_interfaces X CH K p []"

definition tokio_command :: "('v, 'r, 'j) resolved_plugin \<Rightarrow> os_string list \<Rightarrow> command" where
  "tokio_command p args =
     \<lparr>cmd_program = c_path (rp_candidate p), cmd_args = args, cmd_stdin_piped = False\<rparr>"

section \<open>Calls on an established client\<close>

text \<open>What \<open>WorkerClient::shutdown\<close> meets when it waits for the child within the time limit.\<close>

datatype child_wait = ChildExited | WaitError io_error | StillRunning

definition async_cancel ::
    "('v, 'r, 'j) host_codec \<Rightarrow> request_id \<Rightarrow> framed_writer
     \<Rightarrow> (('v, 'r, 'j) async_client_error + unit) \<times> framed_writer" where
  "async_cancel CH i w =
     (case async_write CH (CancelF i) w of (r, w') \<Rightarrow> (res_map_err AsyncFrame r, w'))"

definition async_ping ::
    "('v, 'r, 'j) host_codec \<Rightarrow> u64 \<Rightarrow> duration \<Rightarrow> bool \<Rightarrow> ('v, 'r, 'j) plugin_frame list \<Rightarrow> framed_writer
     \<Rightarrow> (('v, 'r, 'j) async_client_error + unit) \<times> framed_writer" where
  "async_ping CH nonce timeout closed arrived w =
     (case async_write CH (PingF nonce) w of
        (Inl e, w') \<Rightarrow> (Inl (AsyncFrame e), w')
      | (Inr _, w') \<Rightarrow> (await_global (\<lambda>f. f = PongF nonce) timeout closed arrived, w'))"

text \<open>\<open>Drop\<close> kills the child, also after \<open>shutdown\<close>, which consumes the client. The last component
  says whether the reader task was aborted.\<close>

definition async_drop :: "child_event list" where
  "async_drop = [EvKilled]"

definition async_shutdown ::
    "('v, 'r, 'j) host_codec \<Rightarrow> duration \<Rightarrow> bool \<Rightarrow> ('v, 'r, 'j) plugin_frame list \<Rightarrow> child_wait
     \<Rightarrow> framed_writer \<Rightarrow> (('v, 'r, 'j) async_client_error + unit) \<times> child_event list \<times> bool" where
  "async_shutdown CH timeout closed arrived child w =
     (case async_write CH ShutdownF w of
        (Inl e, _) \<Rightarrow> (Inl (AsyncFrame e), async_drop, False)
      | (Inr _, _) \<Rightarrow>
          (case await_global (\<lambda>f. f = ShutdownAckF) timeout closed arrived of
             Inl e \<Rightarrow> (Inl e, async_drop, False)
           | Inr _ \<Rightarrow>
               (case child of
                  ChildExited \<Rightarrow> (Inr (), EvReaped # async_drop, True)
                | WaitError e \<Rightarrow> (Inl (AsyncWait e), async_drop, False)
                | StillRunning \<Rightarrow>
                    (Inl (AsyncTimeout timeout), [EvKilled, EvReaped] @ async_drop, False))))"

section \<open>Lemmas on terminal frames\<close>

fun upto_terminal :: "('v, 'r, 'j) plugin_frame list \<Rightarrow> ('v, 'r, 'j) plugin_frame list" where
  "upto_terminal [] = []"
| "upto_terminal (f # fs) = f # (if terminal f then [] else upto_terminal fs)"

lemma upto_terminal_none: "\<not> list_ex terminal fs \<Longrightarrow> upto_terminal fs = fs"
  by (induction fs) auto

lemma upto_terminal_snoc:
  "upto_terminal (fs @ [f]) = (if list_ex terminal fs then upto_terminal fs else fs @ [f])"
  by (induction fs) auto

lemma list_ex_upto_terminal [simp]: "list_ex terminal (upto_terminal fs) = list_ex terminal fs"
  by (induction fs) auto

lemma chan_id_inject:
  assumes "n < 2 ^ 64" "m < 2 ^ 64"
  shows "chan_id n = chan_id m \<longleftrightarrow> n = m"
proof -
  have "unat (word_of_nat n :: u64) = n" "unat (word_of_nat m :: u64) = m"
    using assms by (simp_all add: unat_of_nat take_bit_nat_eq_self)
  moreover have "chan_id n = chan_id m \<longleftrightarrow> (word_of_nat n :: u64) = word_of_nat m"
    by (simp add: chan_id_def)
  ultimately show ?thesis by metis
qed

definition own :: "nat \<Rightarrow> ('v, 'r, 'j) plugin_frame \<Rightarrow> bool" where
  "own n f \<longleftrightarrow> frame_request_id f = Some (chan_id n)"

text \<open>The frames of invocation \<open>n\<close> that the reader handled.\<close>

definition received ::
    "('v, 'r, 'j) client_inner \<Rightarrow> nat \<Rightarrow> ('v, 'r, 'j) plugin_frame list" where
  "received s n = filter (own n) (ci_log s)"

section \<open>The invariant\<close>

definition pending_ok :: "('v, 'r, 'j) client_inner \<Rightarrow> bool" where
  "pending_ok s \<longleftrightarrow>
     ci_next_id s = chan_id (ci_channels s)
     \<and> (\<forall>i n. ci_pending s i = Some n \<longrightarrow> i = chan_id n \<and> n < ci_channels s)
     \<and> (\<forall>n \<in> ci_unwritten s \<union> ci_failed s. n < ci_channels s)
     \<and> list_all (solicited s) (ci_log s)"

definition queues_ok :: "('v, 'r, 'j) client_inner \<Rightarrow> bool" where
  "queues_ok s \<longleftrightarrow>
     (\<forall>n < ci_channels s. n \<notin> ci_failed s \<longrightarrow> ci_queue s n = upto_terminal (received s n))
     \<and> (\<forall>n \<ge> ci_channels s. ci_queue s n = [])"

text \<open>A registered request is forgotten only after its terminal frame, and none is left with one but
  that which is being removed.\<close>

definition removal_ok :: "('v, 'r, 'j) client_inner \<Rightarrow> bool" where
  "removal_ok s \<longleftrightarrow>
     (ci_reader s \<noteq> ReaderDone \<longrightarrow> (\<forall>n < ci_channels s. n \<notin> ci_failed s \<longrightarrow>
        ci_pending s (chan_id n) = Some n \<or> list_ex terminal (received s n)))
     \<and> (\<forall>i n. ci_pending s i = Some n \<longrightarrow> ci_reader s \<noteq> ReaderDone \<longrightarrow> n \<notin> ci_failed s \<longrightarrow>
        ci_reader s \<noteq> Removing i \<longrightarrow> \<not> list_ex terminal (received s n))
     \<and> (\<forall>i n. ci_reader s = Removing i \<longrightarrow> i = chan_id n \<longrightarrow> n < ci_channels s \<longrightarrow>
        list_ex terminal (received s n))
     \<and> (\<forall>i. ci_reader s = Removing i \<longrightarrow> (\<exists>n < ci_channels s. i = chan_id n))"

definition client_ok :: "('v, 'r, 'j) client_inner \<Rightarrow> bool" where
  "client_ok s \<longleftrightarrow> pending_ok s \<and> queues_ok s \<and> removal_ok s"

lemma client_okD:
  assumes "client_ok s"
  shows "ci_next_id s = chan_id (ci_channels s)"
    and "ci_pending s i = Some n \<Longrightarrow> i = chan_id n \<and> n < ci_channels s"
    and "n \<in> ci_unwritten s \<or> n \<in> ci_failed s \<Longrightarrow> n < ci_channels s"
    and "f \<in> set (ci_log s) \<Longrightarrow> solicited s f"
    and "n < ci_channels s \<Longrightarrow> n \<notin> ci_failed s \<Longrightarrow> ci_queue s n = upto_terminal (received s n)"
    and "ci_channels s \<le> n \<Longrightarrow> ci_queue s n = []"
    and "ci_reader s \<noteq> ReaderDone \<Longrightarrow> n < ci_channels s \<Longrightarrow> n \<notin> ci_failed s \<Longrightarrow>
      ci_pending s (chan_id n) = Some n \<or> list_ex terminal (received s n)"
    and "ci_pending s i = Some n \<Longrightarrow> ci_reader s \<noteq> ReaderDone \<Longrightarrow> n \<notin> ci_failed s \<Longrightarrow>
      ci_reader s \<noteq> Removing i \<Longrightarrow> \<not> list_ex terminal (received s n)"
    and "ci_reader s = Removing i \<Longrightarrow> i = chan_id n \<Longrightarrow> n < ci_channels s \<Longrightarrow> list_ex terminal (received s n)"
    and "ci_reader s = Removing i \<Longrightarrow> \<exists>n < ci_channels s. i = chan_id n"
  using assms by (auto simp: client_ok_def pending_ok_def queues_ok_def removal_ok_def list_all_iff)

lemma client_okI:
  assumes "ci_next_id s = chan_id (ci_channels s)"
    and "\<And>i n. ci_pending s i = Some n \<Longrightarrow> i = chan_id n \<and> n < ci_channels s"
    and "\<And>n. n \<in> ci_unwritten s \<or> n \<in> ci_failed s \<Longrightarrow> n < ci_channels s"
    and "\<And>f. f \<in> set (ci_log s) \<Longrightarrow> solicited s f"
    and "\<And>n. n < ci_channels s \<Longrightarrow> n \<notin> ci_failed s \<Longrightarrow> ci_queue s n = upto_terminal (received s n)"
    and "\<And>n. ci_channels s \<le> n \<Longrightarrow> ci_queue s n = []"
    and "\<And>n. ci_reader s \<noteq> ReaderDone \<Longrightarrow> n < ci_channels s \<Longrightarrow> n \<notin> ci_failed s \<Longrightarrow>
      ci_pending s (chan_id n) = Some n \<or> list_ex terminal (received s n)"
    and "\<And>i n. ci_pending s i = Some n \<Longrightarrow> ci_reader s \<noteq> ReaderDone \<Longrightarrow> n \<notin> ci_failed s \<Longrightarrow>
      ci_reader s \<noteq> Removing i \<Longrightarrow> \<not> list_ex terminal (received s n)"
    and "\<And>i n. ci_reader s = Removing i \<Longrightarrow> i = chan_id n \<Longrightarrow> n < ci_channels s \<Longrightarrow> list_ex terminal (received s n)"
    and "\<And>i. ci_reader s = Removing i \<Longrightarrow> \<exists>n < ci_channels s. i = chan_id n"
  shows "client_ok s"
  unfolding client_ok_def pending_ok_def queues_ok_def removal_ok_def list_all_iff
  using assms by blast

lemma register_simps [simp]:
  "ci_channels (register s) = Suc (ci_channels s)" "ci_failed (register s) = ci_failed s"
  "ci_pending (register s) = (ci_pending s)(ci_next_id s \<mapsto> ci_channels s)"
  "ci_next_id (register s) = ci_next_id s + 1" "ci_log (register s) = ci_log s"
  "ci_queue (register s) = ci_queue s" "ci_reader (register s) = ci_reader s"
  "ci_unwritten (register s) = insert (ci_channels s) (ci_unwritten s)"
  by (simp_all add: register_def)

lemma solicited_register: "solicited s f \<Longrightarrow> solicited (register s) f"
  by (auto simp: solicited_def split: option.splits intro: less_SucI)

lemma received_fresh:
  assumes "client_ok s" "Suc (ci_channels s) \<le> 2 ^ 64"
  shows "received s (ci_channels s) = []"
proof -
  have "\<not> own (ci_channels s) f" if mem: "f \<in> set (ci_log s)" for f
  proof
    assume "own (ci_channels s) f"
    then obtain n where "n < ci_channels s" "chan_id (ci_channels s) = chan_id n"
      using client_okD(4)[OF assms(1) mem] by (auto simp: solicited_def own_def)
    then show False using assms(2) by (simp add: chan_id_inject)
  qed
  then show ?thesis by (simp add: received_def filter_empty_conv)
qed

lemma received_register [simp]: "received (register s) n = received s n"
  by (simp add: received_def)

lemma register_ok:
  assumes ok: "client_ok s" and small: "Suc (ci_channels s) \<le> 2 ^ 64"
  shows "client_ok (register s)"
proof -
  note D = client_okD[OF ok]
  have fresh: "chan_id n \<noteq> chan_id (ci_channels s)" if "n < ci_channels s" for n
    using that small by (simp add: chan_id_inject)
  have nx: "ci_next_id s = chan_id (ci_channels s)" by (rule D(1))
  have none: "received s (ci_channels s) = []" by (rule received_fresh[OF assms])
  show ?thesis
  proof (rule client_okI)
    show "ci_next_id (register s) = chan_id (ci_channels (register s))"
      by (simp add: nx chan_id_def)
    show "i = chan_id n \<and> n < ci_channels (register s)" if "ci_pending (register s) i = Some n" for i n
      using that D(2)[of i n] nx by (auto split: if_splits)
    show "n < ci_channels (register s)" if "n \<in> ci_unwritten (register s) \<or> n \<in> ci_failed (register s)" for n
      using that D(3)[of n] by auto
    show "solicited (register s) f" if "f \<in> set (ci_log (register s))" for f
      using that D(4)[of f] by (simp add: solicited_register)
    show "ci_queue (register s) n = upto_terminal (received (register s) n)"
      if "n < ci_channels (register s)" "n \<notin> ci_failed (register s)" for n
      using that D(5)[of n] D(6)[of n] none by (cases "n = ci_channels s") auto
    show "ci_queue (register s) n = []" if "ci_channels (register s) \<le> n" for n
      using that D(6)[of n] by simp
    show "ci_pending (register s) (chan_id n) = Some n \<or> list_ex terminal (received (register s) n)"
      if "ci_reader (register s) \<noteq> ReaderDone" "n < ci_channels (register s)" "n \<notin> ci_failed (register s)" for n
      using that D(7)[of n] fresh[of n] nx by (cases "n = ci_channels s") auto
    show "\<not> list_ex terminal (received (register s) n)"
      if "ci_pending (register s) i = Some n" "ci_reader (register s) \<noteq> ReaderDone"
        "n \<notin> ci_failed (register s)" "ci_reader (register s) \<noteq> Removing i" for i n
      using that D(8)[of i n] none by (cases "i = ci_next_id s") auto
    show "list_ex terminal (received (register s) n)"
      if rm: "ci_reader (register s) = Removing i" "i = chan_id n" "n < ci_channels (register s)" for i n
    proof (cases "n = ci_channels s")
      case True
      obtain m where "m < ci_channels s" "chan_id n = chan_id m" using D(10)[of i] rm by auto
      with fresh[of m] True show ?thesis by simp
    next
      case False
      then show ?thesis using rm D(9)[of i n] by simp
    qed
    show "\<exists>n < ci_channels (register s). i = chan_id n" if "ci_reader (register s) = Removing i" for i
      using that D(10)[of i] by (auto intro: less_SucI)
  qed
qed

lemma route_simps [simp]:
  "ci_channels (route f s) = ci_channels s" "ci_failed (route f s) = ci_failed s"
  "ci_pending (route f s) = ci_pending s" "ci_unwritten (route f s) = ci_unwritten s"
  "ci_next_id (route f s) = ci_next_id s" "ci_log (route f s) = ci_log s @ [f]"
  "solicited (route f s) g = solicited s g"
  by (simp_all add: route_def solicited_def split: option.splits)

lemma route_queue:
  "ci_queue (route f s) n =
     ci_queue s n @ (case frame_request_id f of None \<Rightarrow> [] | Some i \<Rightarrow> if ci_pending s i = Some n then [f] else [])"
  by (auto simp: route_def split: option.splits)

lemma route_reader:
  assumes "ci_reader s = Reading"
  shows "ci_reader (route f s) =
    (case frame_request_id f of Some i \<Rightarrow> if terminal f then Removing i else Reading | None \<Rightarrow> Reading)"
  using assms by (simp add: route_def split: option.splits)

lemma received_route: "received (route f s) n = received s n @ (if own n f then [f] else [])"
  by (simp add: received_def)

lemma route_queue_ok:
  assumes ok: "client_ok s" and r: "ci_reader s = Reading"
    and n: "n < ci_channels s" "n \<notin> ci_failed s"
  shows "ci_queue (route f s) n = upto_terminal (received (route f s) n)"
proof (cases "own n f")
  case True
  note D = client_okD[OF ok]
  have f: "frame_request_id f = Some (chan_id n)" using True by (simp add: own_def)
  have q: "ci_queue s n = upto_terminal (received s n)" by (rule D(5)[OF n])
  consider "ci_pending s (chan_id n) = Some n" "\<not> list_ex terminal (received s n)"
    | "ci_pending s (chan_id n) \<noteq> Some n" "list_ex terminal (received s n)"
    using D(7)[of n] D(8)[of "chan_id n" n] r n by auto
  then show ?thesis
    using True q by cases (simp_all add: route_queue f received_route upto_terminal_snoc upto_terminal_none)
next
  case False
  then have "frame_request_id f = Some i \<Longrightarrow> ci_pending s i \<noteq> Some n" for i
    using client_okD(2)[OF ok, of i n] by (auto simp: own_def)
  then show ?thesis
    using False client_okD(5)[OF ok n] by (auto simp: route_queue received_route split: option.splits)
qed

lemma route_ok:
  assumes ok: "client_ok s" and r: "ci_reader s = Reading" and f: "solicited s f"
    and small: "ci_channels s \<le> 2 ^ 64"
  shows "client_ok (route f s)"
proof -
  note D = client_okD[OF ok]
  have rd: "ci_reader (route f s) = Removing i \<longleftrightarrow> frame_request_id f = Some i \<and> terminal f" for i
    using r by (auto simp: route_reader split: option.splits)
  show ?thesis
  proof (rule client_okI)
    show "ci_queue (route f s) n = upto_terminal (received (route f s) n)"
      if "n < ci_channels (route f s)" "n \<notin> ci_failed (route f s)" for n
      using that by (intro route_queue_ok[OF ok r]) simp_all
    show "ci_queue (route f s) n = []" if "ci_channels (route f s) \<le> n" for n
      using that D(6)[of n] D(2)[of _ n] by (auto simp: route_queue split: option.splits)
    show "ci_pending (route f s) (chan_id n) = Some n \<or> list_ex terminal (received (route f s) n)"
      if "ci_reader (route f s) \<noteq> ReaderDone" "n < ci_channels (route f s)" "n \<notin> ci_failed (route f s)" for n
      using that D(7)[of n] r by (auto simp: received_route)
    show "\<not> list_ex terminal (received (route f s) n)"
      if "ci_pending (route f s) i = Some n" "n \<notin> ci_failed (route f s)" "ci_reader (route f s) \<noteq> Removing i" for i n
      using that D(2)[of i n] D(8)[of i n] r by (auto simp: received_route rd own_def)
    show "list_ex terminal (received (route f s) n)"
      if "ci_reader (route f s) = Removing i" "i = chan_id n" for i n
      using that by (auto simp: received_route rd own_def)
    show "\<exists>n < ci_channels (route f s). i = chan_id n" if "ci_reader (route f s) = Removing i" for i
      using that f by (auto simp: rd solicited_def)
  qed (use D(1-4) f in auto)
qed

lemma solicited_cong: "ci_channels t = ci_channels s \<Longrightarrow> solicited t f = solicited s f"
  by (simp only: solicited_def)

lemma received_cong: "ci_log t = ci_log s \<Longrightarrow> received t n = received s n"
  by (simp only: received_def)

text \<open>A step that only forgets requests or ends the reader: what is left of the invariant to check is
  that each forgotten request was told its end.\<close>

lemma forget_ok:
  assumes ok: "client_ok s"
    and same: "ci_next_id t = ci_next_id s" "ci_channels t = ci_channels s" "ci_queue t = ci_queue s"
      "ci_log t = ci_log s"
    and sub: "ci_unwritten t \<subseteq> ci_unwritten s" "ci_failed s \<subseteq> ci_failed t" "\<forall>n \<in> ci_failed t. n < ci_channels s"
    and less: "\<And>i n. ci_pending t i = Some n \<Longrightarrow> ci_pending s i = Some n"
    and live: "\<And>n. ci_reader t \<noteq> ReaderDone \<Longrightarrow> n < ci_channels s \<Longrightarrow> n \<notin> ci_failed t \<Longrightarrow>
      ci_pending t (chan_id n) = Some n \<or> list_ex terminal (received s n)"
    and clean: "\<And>i n. ci_pending t i = Some n \<Longrightarrow> ci_reader t \<noteq> ReaderDone \<Longrightarrow> n \<notin> ci_failed t \<Longrightarrow>
      ci_reader t \<noteq> Removing i \<Longrightarrow> \<not> list_ex terminal (received s n)"
    and rm: "\<And>i. ci_reader t = Removing i \<Longrightarrow> ci_reader s = Removing i"
  shows "client_ok t"
proof -
  note D = client_okD[OF ok]
  have [simp]: "received t n = received s n" "solicited t f = solicited s f" for n f
    using received_cong[OF same(4)] solicited_cong[OF same(2)] by auto
  show ?thesis
  proof (rule client_okI)
    show "i = chan_id n \<and> n < ci_channels t" if "ci_pending t i = Some n" for i n
      using D(2)[OF less[OF that]] same(2) by simp
    show "n < ci_channels t" if "n \<in> ci_unwritten t \<or> n \<in> ci_failed t" for n
      using that sub D(3)[of n] same(2) by auto
    show "ci_queue t n = upto_terminal (received t n)" if "n < ci_channels t" "n \<notin> ci_failed t" for n
      using that D(5)[of n] same sub(2) by auto
    show "ci_pending t (chan_id n) = Some n \<or> list_ex terminal (received t n)"
      if "ci_reader t \<noteq> ReaderDone" "n < ci_channels t" "n \<notin> ci_failed t" for n
      using live[of n] that same(2) by simp
    show "\<not> list_ex terminal (received t n)"
      if "ci_pending t i = Some n" "ci_reader t \<noteq> ReaderDone" "n \<notin> ci_failed t" "ci_reader t \<noteq> Removing i" for i n
      using clean[OF that] by simp
    show "list_ex terminal (received t n)"
      if "ci_reader t = Removing i" "i = chan_id n" "n < ci_channels t" for i n
      using D(9)[OF rm[OF that(1)] that(2)] that(3) same(2) by simp
    show "\<exists>n < ci_channels t. i = chan_id n" if "ci_reader t = Removing i" for i
      using D(10)[OF rm[OF that]] same(2) by simp
  qed (use D(1,4,6) same in auto)
qed

lemma write_ok_ok: "client_ok s \<Longrightarrow> client_ok (write_ok n f s)"
  by (rule forget_ok[of s]) (auto simp: write_ok_def dest: client_okD)

lemma other_write_ok: "client_ok s \<Longrightarrow> client_ok (s\<lparr>ci_written := w\<rparr>)"
  by (rule forget_ok[of s]) (auto dest: client_okD)

lemma write_failed_ok:
  assumes ok: "client_ok s" and n: "n \<in> ci_unwritten s" and small: "ci_channels s \<le> 2 ^ 64"
  shows "client_ok (write_failed n s)"
proof -
  have lt: "n < ci_channels s" using client_okD(3)[OF ok] n by blast
  then have ne: "chan_id m \<noteq> chan_id n" if "m < ci_channels s" "m \<noteq> n" for m
    using that small by (simp add: chan_id_inject)
  show ?thesis
    by (rule forget_ok[OF ok])
      (use lt ne client_okD(3,7,8)[OF ok] in \<open>auto simp: write_failed_def split: if_splits\<close>)
qed

lemma remove_request_ok:
  assumes ok: "client_ok s" and r: "ci_reader s = Removing i" and small: "ci_channels s \<le> 2 ^ 64"
  shows "client_ok (remove_request i s)"
proof (rule forget_ok[OF ok])
  show "ci_pending (remove_request i s) (chan_id n) = Some n \<or> list_ex terminal (received s n)"
    if "n < ci_channels s" "n \<notin> ci_failed (remove_request i s)" for n
    using client_okD(7)[OF ok, of n] client_okD(9)[OF ok r, of n] that r
    by (auto simp: remove_request_def)
  show "\<not> list_ex terminal (received s n)"
    if "ci_pending (remove_request i s) j = Some n" "n \<notin> ci_failed (remove_request i s)" for j n
    using client_okD(8)[OF ok, of j n] that r by (auto simp: remove_request_def split: if_splits)
qed (use client_okD(3)[OF ok] in \<open>auto simp: remove_request_def split: if_splits\<close>)

lemma reader_end_ok: "client_ok s \<Longrightarrow> client_ok (reader_end s)"
  by (rule forget_ok[of s]) (auto simp: reader_end_def dest: client_okD)

lemma abort_ok: "client_ok s \<Longrightarrow> client_ok (s\<lparr>ci_reader := ReaderDone\<rparr>)"
  by (rule forget_ok[of s]) (auto dest: client_okD)

lemma client_init_ok: "client_ok client_init"
  by (rule client_okI) (auto simp: client_init_def chan_id_def)

lemma client_step_channels: "client_step s t \<Longrightarrow> ci_channels s \<le> ci_channels t"
  by (auto elim!: client_stepE simp: write_ok_def write_failed_def remove_request_def reader_end_def)

lemma client_step_ok:
  assumes "client_step s t" "client_ok s" "ci_channels t \<le> 2 ^ 64"
  shows "client_ok t"
proof -
  have small: "ci_channels s \<le> 2 ^ 64" using client_step_channels[OF assms(1)] assms(3) by linarith
  from assms(1) show ?thesis
  proof cases
    case step_register
    then show ?thesis using assms register_ok by auto
  next
    case (step_route f)
    then show ?thesis using route_ok[OF assms(2) _ _ small] by blast
  next
    case (step_write_failed n)
    then show ?thesis using write_failed_ok[OF assms(2) _ small] by blast
  next
    case (step_remove i)
    then show ?thesis using remove_request_ok[OF assms(2) _ small] by blast
  qed (use assms in \<open>auto simp: write_ok_ok other_write_ok reader_end_ok abort_ok\<close>)
qed

lemma client_reachable_ok:
  "client_reachable s \<Longrightarrow> ci_channels s \<le> 2 ^ 64 \<Longrightarrow> client_ok s"
proof (induction rule: client_reachable.induct)
  case reach_init
  then show ?case by (simp add: client_init_ok)
next
  case (reach_step s t)
  then show ?case using client_step_channels[of s t] client_step_ok by fastforce
qed

section \<open>Lemmas on receiving\<close>

lemma own_ends: "own n f \<Longrightarrow> terminal f \<longleftrightarrow> ends_request (chan_id n) f"
  by (cases f) (auto simp: own_def terminal_def ends_request_def split: option.splits)

text \<open>The two ends of a call: its result, or its error.\<close>

definition async_outcome ::
    "request_id \<Rightarrow> ('v, 'r, 'j) plugin_frame list \<Rightarrow> ('v, 'r, 'j) plugin_frame
     \<Rightarrow> ('v, 'r, 'j) async_client_error + ('v, 'r, 'j) invocation_transcript" where
  "async_outcome i events t =
     (case t of
        ErrorF _ e \<Rightarrow> Inl (AsyncWorker e)
      | FinishedF _ result \<Rightarrow> Inr \<lparr>it_id = i, it_events = events @ [t], it_result = result\<rparr>
      | _ \<Rightarrow> Inl (AsyncChannelClosed i))"

interpretation async_call: call_collector "(=)" "\<lambda>i. finish i closed" "\<lambda>i ev t fs. Some (async_outcome i ev t)"
proof
  show "finish i closed (x # xs) ev = finish i closed xs (ev @ [f])" if "x = f" "\<not> ends_request i f" for x f i xs ev
    using that by (cases f) (auto simp: ends_request_def split: option.splits)
  show "finish i closed (x # xs) ev = Some (async_outcome i ev t)" if "x = t" "ends_request i t" for x t i xs ev
    using that by (cases t) (auto simp: ends_request_def async_outcome_def split: option.splits)
qed

lemma finish_call:
  assumes "list_all (\<lambda>f. \<not> ends_request i f) fs"
  shows "finish i closed (fs @ [terminal_frame i r]) [] =
     Some (case r of Inr x \<Rightarrow> Inr \<lparr>it_id = i, it_events = fs @ [terminal_frame i r], it_result = x\<rparr>
                   | Inl e \<Rightarrow> Inl (AsyncWorker e))"
  using async_call.collect_call[OF list.rel_refl assms refl, of "terminal_frame i r" closed "[]" "[]"]
  by (cases r) (simp_all add: terminal_frame_def ends_request_def async_outcome_def)

lemma finish_closed: "finish i True fs ev \<noteq> None"
  by (induction fs arbitrary: ev) (auto split: plugin_frame.splits option.splits)

lemma upto_terminal_run:
  "list_all (\<lambda>f. \<not> terminal f) fs \<Longrightarrow> terminal t \<Longrightarrow> upto_terminal (fs @ t # gs) = fs @ [t]"
  by (induction fs) auto

lemma invocation_frames_not_terminal:
  "list_all (\<lambda>f. \<not> terminal f) (fst (invocation_frames i t))"
  by (induction t) (auto simp: terminal_def rangeI)

section \<open>Properties\<close>

text \<open>C5. Multiplexing loses, duplicates and mixes nothing: in every reachable state, and however
  invocations and frames interleave, the channel of an invocation holds exactly the frames of its
  request that arrived, in order, up to the first that ends it.\<close>

theorem multiplexing_routes_exactly:
  assumes "client_reachable s" "ci_channels s \<le> 2 ^ 64" "n < ci_channels s" "n \<notin> ci_failed s"
  shows "ci_queue s n = upto_terminal (filter (own n) (ci_log s))"
  using client_okD(5)[OF client_reachable_ok[OF assms(1,2)] assms(3,4)] by (simp add: received_def)

text \<open>Two invocations whose frames interleave.\<close>

definition two_calls :: "(version3, version3, string) client_inner" where
  "two_calls =
     fold route [StartedF 2, StartedF 1, OutputF 1 (PText ''run''), OutputF 2 (PText ''x''),
                 FinishedF 1 (result_success (PText ''done''))] (register (register client_init))"

lemma two_calls_reachable: "client_reachable two_calls"
proof -
  have reg: "client_reachable (register (register client_init))"
    by (intro reach_step[OF _ step_register] reach_init)
  have route: "client_reachable (fold route (fs @ [f]) t)"
    if "client_reachable (fold route fs t)" "ci_reader (fold route fs t) = Reading" "solicited (fold route fs t) f"
    for fs f and t :: "(version3, version3, string) client_inner"
    using reach_step[OF that(1) step_route[OF that(2,3)]] by simp
  have ids: "(1 :: u64) = chan_id 0" "(2 :: u64) = chan_id 1" by (simp_all add: chan_id_def)
  have sol: "solicited (fold route fs t) f = solicited t f" for fs f and t :: "(version3, version3, string) client_inner"
    by (induction fs arbitrary: t) simp_all
  let ?s = "register (register client_init) :: (version3, version3, string) client_inner"
  have ok: "solicited ?s f" if "frame_request_id f \<in> {Some 1, Some 2}" for f
    using that ids by (auto simp: solicited_def client_init_def)
  have rd: "ci_reader (fold route fs ?s) = Reading" if "list_all (\<lambda>f. \<not> terminal f) fs" for fs
    using that by (induction fs rule: rev_induct) (auto simp: route_reader client_init_def split: option.splits)
  have "client_reachable (fold route ([] @ [StartedF 2]) ?s)"
    using reg by (intro route rd) (simp_all add: ok)
  then have "client_reachable (fold route ([StartedF 2] @ [StartedF 1]) ?s)"
    by (intro route rd) (simp_all add: sol ok terminal_def del: fold_simps)
  then have "client_reachable (fold route ([StartedF 2, StartedF 1] @ [OutputF 1 (PText ''run'')]) ?s)"
    by (intro route rd) (simp_all add: sol ok terminal_def del: fold_simps)
  then have "client_reachable (fold route ([StartedF 2, StartedF 1, OutputF 1 (PText ''run'')] @ [OutputF 2 (PText ''x'')]) ?s)"
    by (intro route rd) (simp_all add: sol ok terminal_def del: fold_simps)
  then have "client_reachable (fold route ([StartedF 2, StartedF 1, OutputF 1 (PText ''run''), OutputF 2 (PText ''x'')]
      @ [FinishedF 1 (result_success (PText ''done''))]) ?s)"
    by (intro route rd) (simp_all add: sol ok terminal_def del: fold_simps)
  then show ?thesis by (simp add: two_calls_def del: fold_simps)
qed

lemma two_calls_state:
  "ci_channels two_calls = 2" "ci_failed two_calls = {}"
  "ci_log two_calls = [StartedF 2, StartedF 1, OutputF 1 (PText ''run''), OutputF 2 (PText ''x''),
                       FinishedF 1 (result_success (PText ''done''))]"
  by (simp_all add: two_calls_def client_init_def)

theorem multiplexing_routes_exactly_witness:
  "ci_queue two_calls 1 = [StartedF 2, OutputF 2 (PText ''x'')]"
  using multiplexing_routes_exactly[of two_calls 1] two_calls_reachable
  by (simp add: two_calls_state own_def chan_id_def terminal_def)

text \<open>Concurrent calls come back to their callers: whatever else is on the wire, if the frames of
  a request that have arrived are those the protocol prescribes, \<open>Invocation::finish\<close> of that request
  returns the handler's result with exactly these frames, or the handler's error.\<close>

theorem concurrent_call_end_to_end:
  assumes "client_reachable (s :: ('v, 'r, 'j) client_inner)" "ci_channels s \<le> 2 ^ 64"
    and "n < ci_channels s" "n \<notin> ci_failed s" "rq_id rq = chan_id n"
    and "filter (own n) (ci_log s) = fst (respond H (InvokeF rq :: ('v, 'r, 'j) host_frame) h)"
  shows "finish (chan_id n) (channel_closed s n) (ci_queue s n) [] =
    Some (case fst (snd (invocation_frames (chan_id n) (wh_invoke H rq h)
             :: ('v, 'r, 'j) plugin_frame list \<times> _)) of
            Inr result \<Rightarrow> Inr \<lparr>it_id = chan_id n, it_events = fst (respond H (InvokeF rq) h), it_result = result\<rparr>
          | Inl e \<Rightarrow> Inl (AsyncWorker e))"
proof -
  let ?i = "chan_id n"
  let ?t = "invocation_frames ?i (wh_invoke H rq h) :: ('v, 'r, 'j) plugin_frame list \<times> _"
  let ?pre = "StartedF ?i # fst ?t" and ?fin = "terminal_frame ?i (fst (snd ?t))"
  have fr: "fst (respond H (InvokeF rq) h) = ?pre @ [?fin]"
    unfolding respond_invoke assms(5) by (simp add: Let_def)
  have "list_all (\<lambda>f. \<not> terminal f) ?pre"
    using invocation_frames_not_terminal[of ?i] by (simp add: terminal_def)
  moreover have "terminal ?fin" by (cases "fst (snd ?t)") (simp_all add: terminal_frame_def terminal_def)
  ultimately have "ci_queue s n = ?pre @ [?fin]"
    using client_okD(5)[OF client_reachable_ok[OF assms(1,2)] assms(3,4)] assms(6) fr
      upto_terminal_run[of ?pre ?fin "[]"] by (simp add: received_def)
  moreover have "list_all (\<lambda>f. \<not> ends_request ?i f) ?pre"
    using invocation_frames_pending[of ?i] by (simp add: ends_request_def)
  ultimately show ?thesis
    unfolding fr by (simp only: finish_call)
qed

theorem concurrent_call_end_to_end_witness:
  "finish 1 (channel_closed two_calls 0) (ci_queue two_calls 0) [] =
     Some (Inr \<lparr>it_id = 1, it_events = [StartedF 1, OutputF 1 (PText ''run''),
       FinishedF 1 (result_success (PText ''done''))], it_result = result_success (PText ''done'')\<rparr>)"
proof -
  have "filter (own 0) (ci_log two_calls)
      = fst (respond echo_handler (InvokeF sample_request :: (version3, version3, string) host_frame) 0)"
    by (simp add: two_calls_state own_def chan_id_def echo_handler_def sample_request_def terminal_frame_def)
  then show ?thesis
    using concurrent_call_end_to_end[of two_calls 0 sample_request echo_handler 0] two_calls_reachable
    by (simp add: two_calls_state chan_id_def echo_handler_def sample_request_def terminal_frame_def)
qed

text \<open>C34. When the worker's stream ends no call is left waiting: every channel registered by then is
  closed, so \<open>finish\<close> of every invocation returns.\<close>

theorem stream_end_wakes_everyone:
  "channel_closed (reader_end s) n
   \<and> finish (chan_id n) (channel_closed (reader_end s) n) (ci_queue (reader_end s) n) [] \<noteq> None"
  using finish_closed by (simp add: channel_closed_def reader_end_def)

text \<open>What stays true of an invocation that was registered after the reader ended.\<close>

definition stranded :: "nat \<Rightarrow> ('v, 'r, 'j) client_inner \<Rightarrow> bool" where
  "stranded n s \<longleftrightarrow>
     client_ok s \<and> ci_reader s = ReaderDone \<and> ci_queue s n = [] \<and> n < ci_channels s
     \<and> (n \<notin> ci_failed s \<longrightarrow> ci_pending s (chan_id n) = Some n)"

lemma stranded_step:
  assumes "client_step s t" "stranded n s" "ci_channels t \<le> 2 ^ 64"
  shows "stranded n t"
proof -
  have ok: "client_ok t" using client_step_ok assms by (auto simp: stranded_def)
  have S: "ci_reader s = ReaderDone" "ci_queue s n = []" "n < ci_channels s"
    "n \<notin> ci_failed s \<Longrightarrow> ci_pending s (chan_id n) = Some n" "client_ok s"
    using assms(2) by (auto simp: stranded_def)
  have ne: "chan_id m \<noteq> chan_id n" if "m \<le> ci_channels s" "ci_channels s < 2 ^ 64 \<or> m < ci_channels s" "m \<noteq> n" for m
    using that S(3) client_step_channels[OF assms(1)] assms(3) by (subst chan_id_inject) auto
  from assms(1) show ?thesis
  proof cases
    case step_register
    then show ?thesis
      using ok S assms(3) ne[of "ci_channels s"] client_okD(1)[OF S(5)] by (auto simp: stranded_def)
  next
    case (step_write_failed m)
    then show ?thesis
      using ok S ne[of m] client_okD(3)[OF S(5), of m]
      by (cases "m = n") (auto simp: stranded_def write_failed_def)
  qed (use ok S in \<open>auto simp: stranded_def write_ok_def\<close>)
qed

lemma stranded_steps:
  assumes "client_step\<^sup>*\<^sup>* s t" "stranded n s" "ci_channels t \<le> 2 ^ 64"
  shows "stranded n t"
  using assms
proof (induction rule: rtranclp_induct)
  case (step t u)
  then show ?case using client_step_channels[OF step.hyps(2)] stranded_step by fastforce
qed simp

lemma stranded_register:
  assumes "client_ok s" "ci_reader s = ReaderDone" "Suc (ci_channels s) \<le> 2 ^ 64"
  shows "stranded (ci_channels s) (register s)"
  using assms client_okD(1,6)[OF assms(1)] register_ok[OF assms(1)] by (simp add: stranded_def)

lemma client_steps_channels: "client_step\<^sup>*\<^sup>* s t \<Longrightarrow> ci_channels s \<le> ci_channels t"
  by (induction rule: rtranclp_induct) (auto dest: client_step_channels)

text \<open>C35. A call made after the worker's stream ended never returns: the registration is accepted, and
  unless its write fails its channel stays open and empty in every later state, so \<open>finish\<close> waits for
  ever.\<close>

theorem late_invocation_never_finishes:
  assumes "client_reachable s" "ci_reader s = ReaderDone"
    and "client_step\<^sup>*\<^sup>* (register s) t" "ci_channels t \<le> 2 ^ 64" "ci_channels s \<notin> ci_failed t"
  shows "finish (chan_id (ci_channels s)) (channel_closed t (ci_channels s)) (ci_queue t (ci_channels s)) [] = None"
proof -
  have lt: "Suc (ci_channels s) \<le> 2 ^ 64" using client_steps_channels[OF assms(3)] assms(4) by simp
  then have "client_ok s" using client_reachable_ok[OF assms(1)] by simp
  then have "stranded (ci_channels s) t"
    using stranded_steps[OF assms(3) stranded_register assms(4)] assms(2) lt by blast
  then show ?thesis
    using assms(5) by (auto simp: stranded_def channel_closed_def ran_def)
qed

theorem late_invocation_never_finishes_witness:
  "finish 1 (channel_closed (register (reader_end client_init) :: (version3, version3, string) client_inner) 0)
     (ci_queue (register (reader_end client_init)) 0) [] = None"
proof -
  let ?s = "reader_end client_init :: (version3, version3, string) client_inner"
  have "client_reachable ?s"
    by (rule reach_step[OF reach_init step_reader_end]) (simp add: client_init_def)
  then show ?thesis
    using late_invocation_never_finishes[of ?s "register ?s"]
    by (simp add: reader_end_def client_init_def chan_id_def channel_closed_def split: if_splits)
qed

end
