(* ===== verification/Tokio_Server.thy ===== *)
theory Tokio_Server
  imports Tokio_Client
begin

text \<open>
  The concurrent server of \<open>src/crates/outboard-tokio/src/lib.rs\<close>: \<open>serve_worker\<close> reads host frames, runs
  every invocation as a task of its own and sends all frames through one channel to a writer task. The
  state holds the map of active requests, the tasks, the channel with the origin of each frame in it and
  where the loop and the writer are; a step is one section of code between two points where another task
  can run. A handler is the plugin's own code: what it does with an invocation is a tree of what it
  sends, its looks at the cancellation token and its other waits, whose answers come from outside. The
  invocation's context is used by its own task only.
\<close>

section \<open>Handlers\<close>

datatype 'j async_run =
    AReturn "'j worker_error + 'j invocation_result"
  | AProgress "f64 option" "string option" "('j worker_error + unit) \<Rightarrow> 'j async_run"
  | AOutput "'j payload" "('j worker_error + unit) \<Rightarrow> 'j async_run"
  | AIsCancelled "bool \<Rightarrow> 'j async_run"
  | ACancelled "'j async_run"
  | AAwait "nat \<Rightarrow> 'j async_run"
  | APanic

text \<open>The hook \<open>cancel\<close> is given the answer of whatever it waits for.\<close>

record 'j async_worker_handler =
  ah_invoke :: "'j invoke_request \<Rightarrow> 'j async_run"
  ah_cancel :: "request_id \<Rightarrow> nat \<Rightarrow> 'j worker_error + unit"

definition async_cancel_default :: "request_id \<Rightarrow> nat \<Rightarrow> 'j worker_error + unit" where
  "async_cancel_default i answer = Inr ()"

definition transport_closed :: "'j worker_error" where
  "transport_closed = worker_error_new ''transport_closed'' ''worker output channel is closed''"

section \<open>The handshake\<close>

datatype ('v, 'r) async_server_error =
    ASrvFrame frame_error
  | ASrvExpectedHello
  | ASrvFramework 'v 'r
  | ASrvProtocol 'v 'r
  | ASrvInterface string
  | ASrvWriterJoin

fun async_check_interfaces ::
    "('v, 'r, 'j) crates \<Rightarrow> ('v, 'r, 'j) manifest \<Rightarrow> 'r interface_requirement list
     \<Rightarrow> ('v, 'r) async_server_error + unit" where
  "async_check_interfaces X m [] = Inr ()"
| "async_check_interfaces X m (requirement # rs) =
     (case m_interface m (ir_id requirement) of
        None \<Rightarrow> Inl (ASrvInterface (''missing '' @ as_str (ir_id requirement)))
      | Some interface \<Rightarrow>
          if \<not> req_matches X (ir_version requirement) (im_version interface)
          then Inl (ASrvInterface (as_str (ir_id requirement) @ '' requires ''
                 @ show_req X (ir_version requirement) @ '', plugin provides ''
                 @ show_version X (im_version interface)))
          else async_check_interfaces X m rs)"

definition async_validate_hello ::
    "('v, 'r, 'j) crates \<Rightarrow> ('v, 'r, 'j) manifest \<Rightarrow> ('v, 'r, 'j) host_hello
     \<Rightarrow> ('v, 'r) async_server_error + unit" where
  "async_validate_hello X m hello =
     (if \<not> req_matches X (m_framework m) (hh_framework hello)
      then Inl (ASrvFramework (hh_framework hello) (m_framework m))
      else if \<not> req_matches X (m_worker_protocol m) (hh_protocol hello)
      then Inl (ASrvProtocol (hh_protocol hello) (m_worker_protocol m))
      else async_check_interfaces X m (hh_requested_interfaces hello))"

text \<open>\<open>serve_worker\<close> up to its loop: an error ends it; otherwise the reader and the writer go on.\<close>

definition async_open ::
    "('v, 'r, 'j) crates \<Rightarrow> ('v, 'r, 'j) host_codec \<Rightarrow> ('v, 'r, 'j) plugin_codec
     \<Rightarrow> ('v, 'r, 'j) manifest \<Rightarrow> istream \<Rightarrow> ostream
     \<Rightarrow> (('v, 'r) async_server_error + framed_reader) \<times> framed_writer" where
  "async_open X CH C m stdin stdout =
     (let w = writer_new stdout in
      case async_read CH (reader_new stdin) of
        (Inl e, _) \<Rightarrow> (Inl (ASrvFrame e), w)
      | (Inr (HostHelloF hello), r) \<Rightarrow>
          (case async_validate_hello X m hello of
             Inl e \<Rightarrow> (Inl e, w)
           | Inr _ \<Rightarrow>
               (case async_write C
                       (PluginHelloF \<lparr>ph_protocol = protocol_version X, ph_manifest = m\<rparr>) w of
                  (Inl e, w') \<Rightarrow> (Inl (ASrvFrame e), w')
                | (Inr _, w') \<Rightarrow> (Inr r, w')))
      | (Inr _, _) \<Rightarrow> (Inl ASrvExpectedHello, w))"

section \<open>State\<close>

datatype origin = FromLoop | FromTask nat

text \<open>A task runs its handler; it has sent its terminal frame and goes on to leave the map; it is over, it
  panicked, or it was aborted with the task set.\<close>

datatype 'j task_pc = TRunning "'j async_run" | TRemoving | TDone | TPanicked | TAborted

record 'j server_task =
  tk_request :: "'j invoke_request"
  tk_pc :: "'j task_pc"
  tk_cancelled :: bool

abbreviation tk_id :: "'j server_task \<Rightarrow> request_id" where
  "tk_id t \<equiv> rq_id (tk_request t)"

text \<open>The loop waits for a frame; in the hook of a cancellation; before it rejects a duplicate; joins the
  tasks; waits for the writer; or \<open>serve_worker\<close> has returned.\<close>

datatype ('v, 'r) loop_pc =
    Serving
  | Cancelling request_id
  | Rejecting request_id
  | Draining
  | Closing
  | Returned "('v, 'r) async_server_error + unit"

datatype writer_pc = Writing | WriteFailed frame_error | WriterDone

record ('v, 'r, 'j) server_state =
  sv_pending :: "request_id \<rightharpoonup> nat"
  sv_tasks :: "'j server_task list"
  sv_loop :: "('v, 'r) loop_pc"
  sv_sent :: "(origin \<times> ('v, 'r, 'j) plugin_frame) list"
  sv_written :: nat
  sv_writer :: writer_pc

definition server_init :: "('v, 'r, 'j) server_state" where
  "server_init =
     \<lparr>sv_pending = Map.empty, sv_tasks = [], sv_loop = Serving, sv_sent = [], sv_written = 0,
      sv_writer = Writing\<rparr>"

section \<open>Steps\<close>

text \<open>A send succeeds while the receiver is there: until the writer task has ended.\<close>

definition sv_send ::
    "origin \<Rightarrow> ('v, 'r, 'j) plugin_frame \<Rightarrow> ('v, 'r, 'j) server_state \<Rightarrow> ('v, 'r, 'j) server_state" where
  "sv_send org f s = (if sv_writer s = Writing then s\<lparr>sv_sent := sv_sent s @ [(org, f)]\<rparr> else s)"

definition send_result :: "('v, 'r, 'j) server_state \<Rightarrow> 'j worker_error + unit" where
  "send_result s = (if sv_writer s = Writing then Inr () else Inl transport_closed)"

definition context_progress ::
    "nat \<Rightarrow> request_id \<Rightarrow> f64 option \<Rightarrow> string option \<Rightarrow> ('v, 'r, 'j) server_state
     \<Rightarrow> ('j worker_error + unit) \<times> ('v, 'r, 'j) server_state" where
  "context_progress n i fraction message s =
     (send_result s, sv_send (FromTask n) (ProgressF i fraction message) s)"

definition context_output ::
    "nat \<Rightarrow> request_id \<Rightarrow> 'j payload \<Rightarrow> ('v, 'r, 'j) server_state
     \<Rightarrow> ('j worker_error + unit) \<times> ('v, 'r, 'j) server_state" where
  "context_output n i p s = (send_result s, sv_send (FromTask n) (OutputF i p) s)"

definition set_task ::
    "nat \<Rightarrow> 'j task_pc \<Rightarrow> ('v, 'r, 'j) server_state \<Rightarrow> ('v, 'r, 'j) server_state" where
  "set_task n pc s = s\<lparr>sv_tasks := (sv_tasks s)[n := (sv_tasks s ! n)\<lparr>tk_pc := pc\<rparr>]\<rparr>"

definition cancel_task :: "nat \<Rightarrow> 'j server_task list \<Rightarrow> 'j server_task list" where
  "cancel_task n ts = (if n < length ts then ts[n := (ts ! n)\<lparr>tk_cancelled := True\<rparr>] else ts)"

definition spawn_task ::
    "'j async_worker_handler \<Rightarrow> 'j invoke_request \<Rightarrow> ('v, 'r, 'j) server_state \<Rightarrow> ('v, 'r, 'j) server_state" where
  "spawn_task H rq s =
     (let n = length (sv_tasks s) in
      (sv_send (FromTask n) (StartedF (rq_id rq)) s)
        \<lparr>sv_pending := (sv_pending s)(rq_id rq \<mapsto> n),
         sv_tasks := sv_tasks s
           @ [\<lparr>tk_request = rq, tk_pc = TRunning (ah_invoke H rq), tk_cancelled = False\<rparr>]\<rparr>)"

text \<open>The loop on a frame of the host.\<close>

fun async_handle ::
    "'j async_worker_handler \<Rightarrow> ('v, 'r, 'j) host_frame \<Rightarrow> ('v, 'r, 'j) server_state \<Rightarrow> ('v, 'r, 'j) server_state" where
  "async_handle H (HostHelloF _) s =
     sv_send FromLoop (ErrorF None (worker_error_new ''duplicate_hello'' ''hello may only be sent once'')) s"
| "async_handle H (PingF nonce) s = sv_send FromLoop (PongF nonce) s"
| "async_handle H (CancelF i) s =
     (case sv_pending s i of
        Some n \<Rightarrow> s\<lparr>sv_tasks := cancel_task n (sv_tasks s), sv_loop := Cancelling i\<rparr>
      | None \<Rightarrow> s\<lparr>sv_loop := Cancelling i\<rparr>)"
| "async_handle H ShutdownF s =
     s\<lparr>sv_tasks := map (\<lambda>(n, t). if sv_pending s (tk_id t) = Some n then t\<lparr>tk_cancelled := True\<rparr> else t)
         (enumerate 0 (sv_tasks s)),
       sv_loop := Draining\<rparr>"
| "async_handle H (InvokeF rq) s =
     (if sv_pending s (rq_id rq) \<noteq> None then s\<lparr>sv_loop := Rejecting (rq_id rq)\<rparr>
      else spawn_task H rq s)"

definition finish_cancel ::
    "'j async_worker_handler \<Rightarrow> request_id \<Rightarrow> nat \<Rightarrow> ('v, 'r, 'j) server_state \<Rightarrow> ('v, 'r, 'j) server_state" where
  "finish_cancel H i answer s =
     (case ah_cancel H i answer of Inl e \<Rightarrow> sv_send FromLoop (ErrorF (Some i) e) s | Inr _ \<Rightarrow> s)
     \<lparr>sv_loop := Serving\<rparr>"

definition reject_duplicate :: "request_id \<Rightarrow> ('v, 'r, 'j) server_state \<Rightarrow> ('v, 'r, 'j) server_state" where
  "reject_duplicate i s =
     (sv_send FromLoop
        (ErrorF (Some i) (worker_error_new ''duplicate_request'' ''request id is already active'')) s)
     \<lparr>sv_loop := Serving\<rparr>"

definition finished_task :: "'j server_task \<Rightarrow> bool" where
  "finished_task t = (case tk_pc t of TRunning _ \<Rightarrow> False | TRemoving \<Rightarrow> False | _ \<Rightarrow> True)"

lemma finished_task_iff:
  "finished_task t \<longleftrightarrow> tk_pc t = TDone \<or> tk_pc t = TPanicked \<or> tk_pc t = TAborted"
  by (simp add: finished_task_def split: task_pc.splits)

definition acknowledge :: "('v, 'r, 'j) server_state \<Rightarrow> ('v, 'r, 'j) server_state" where
  "acknowledge s = (sv_send FromLoop ShutdownAckF s)\<lparr>sv_loop := Closing\<rparr>"

text \<open>A task, at what its handler does next. Where it waits for its cancellation it can move only once
  its token is cancelled.\<close>

fun task_step :: "nat \<Rightarrow> nat \<Rightarrow> ('v, 'r, 'j) server_state \<Rightarrow> ('v, 'r, 'j) server_state" where
  "task_step n answer s =
     (let t = sv_tasks s ! n; i = tk_id t in
      case tk_pc t of
        TRunning (AReturn r) \<Rightarrow> set_task n TRemoving (sv_send (FromTask n) (terminal_frame i r) s)
      | TRunning (AProgress fraction message k) \<Rightarrow>
          (case context_progress n i fraction message s of (r, s') \<Rightarrow> set_task n (TRunning (k r)) s')
      | TRunning (AOutput p k) \<Rightarrow>
          (case context_output n i p s of (r, s') \<Rightarrow> set_task n (TRunning (k r)) s')
      | TRunning (AIsCancelled k) \<Rightarrow> set_task n (TRunning (k (tk_cancelled t))) s
      | TRunning (ACancelled k) \<Rightarrow> (if tk_cancelled t then set_task n (TRunning k) s else s)
      | TRunning (AAwait k) \<Rightarrow> set_task n (TRunning (k answer)) s
      | TRunning APanic \<Rightarrow> set_task n TPanicked s
      | TRemoving \<Rightarrow> (set_task n TDone s)\<lparr>sv_pending := (sv_pending s)(i := None)\<rparr>
      | _ \<Rightarrow> s)"

definition write_next :: "(frame_error + unit) \<Rightarrow> ('v, 'r, 'j) server_state \<Rightarrow> ('v, 'r, 'j) server_state" where
  "write_next r s =
     (case r of Inr _ \<Rightarrow> s\<lparr>sv_written := Suc (sv_written s)\<rparr> | Inl e \<Rightarrow> s\<lparr>sv_writer := WriteFailed e\<rparr>)"

definition join_writer :: "('v, 'r, 'j) server_state \<Rightarrow> ('v, 'r, 'j) server_state" where
  "join_writer s =
     s\<lparr>sv_loop := Returned (case sv_writer s of WriteFailed e \<Rightarrow> Inl (ASrvFrame e) | _ \<Rightarrow> Inr ())\<rparr>"

inductive server_step ::
    "'j async_worker_handler \<Rightarrow> ('v, 'r, 'j) server_state \<Rightarrow> ('v, 'r, 'j) server_state \<Rightarrow> bool"
  for H where
  sv_frame: "sv_loop s = Serving \<Longrightarrow> server_step H s (async_handle H f s)"
| sv_read_error: "sv_loop s = Serving \<Longrightarrow> server_step H s (s\<lparr>sv_loop := Returned (Inl (ASrvFrame e))\<rparr>)"
| sv_cancel: "sv_loop s = Cancelling i \<Longrightarrow> server_step H s (finish_cancel H i answer s)"
| sv_reject: "sv_loop s = Rejecting i \<Longrightarrow> server_step H s (reject_duplicate i s)"
| sv_acknowledge: "sv_loop s = Draining \<Longrightarrow> list_all finished_task (sv_tasks s) \<Longrightarrow> server_step H s (acknowledge s)"
| sv_join: "sv_loop s = Closing \<Longrightarrow> sv_writer s \<noteq> Writing \<Longrightarrow> server_step H s (join_writer s)"
| sv_task: "n < length (sv_tasks s) \<Longrightarrow> server_step H s (task_step n answer s)"
| sv_abort: "sv_loop s = Returned r \<Longrightarrow> n < length (sv_tasks s) \<Longrightarrow> \<not> finished_task (sv_tasks s ! n) \<Longrightarrow>
     server_step H s (set_task n TAborted s)"
| sv_write: "sv_writer s = Writing \<Longrightarrow> sv_written s < length (sv_sent s) \<Longrightarrow> server_step H s (write_next r s)"
| sv_writer_end: "sv_writer s = Writing \<Longrightarrow> sv_written s = length (sv_sent s) \<Longrightarrow>
     sv_loop s = Closing \<or> (\<exists>r. sv_loop s = Returned r) \<Longrightarrow> list_all finished_task (sv_tasks s) \<Longrightarrow>
     server_step H s (s\<lparr>sv_writer := WriterDone\<rparr>)"

inductive_cases server_stepE: "server_step H s t"

inductive server_reachable :: "'j async_worker_handler \<Rightarrow> ('v, 'r, 'j) server_state \<Rightarrow> bool" for H where
  srv_init: "server_reachable H server_init"
| srv_step: "server_reachable H s \<Longrightarrow> server_step H s t \<Longrightarrow> server_reachable H t"

section \<open>What a task has sent\<close>

text \<open>A run of the handler: the frames it has sent and what it does next, along some answers to its
  waits, all sends being accepted.\<close>

inductive handler_run ::
    "request_id \<Rightarrow> 'j async_run \<Rightarrow> ('v, 'r, 'j) plugin_frame list \<Rightarrow> 'j async_run \<Rightarrow> bool"
  for i t where
  hr_start: "handler_run i t [] t"
| hr_progress: "handler_run i t fs (AProgress fraction message k) \<Longrightarrow>
     handler_run i t (fs @ [ProgressF i fraction message]) (k (Inr ()))"
| hr_output: "handler_run i t fs (AOutput p k) \<Longrightarrow> handler_run i t (fs @ [OutputF i p]) (k (Inr ()))"
| hr_is_cancelled: "handler_run i t fs (AIsCancelled k) \<Longrightarrow> handler_run i t fs (k b)"
| hr_cancelled: "handler_run i t fs (ACancelled k) \<Longrightarrow> handler_run i t fs k"
| hr_await: "handler_run i t fs (AAwait k) \<Longrightarrow> handler_run i t fs (k answer)"

definition task_frames :: "nat \<Rightarrow> ('v, 'r, 'j) server_state \<Rightarrow> ('v, 'r, 'j) plugin_frame list" where
  "task_frames n s = map snd (filter (\<lambda>(org, f). org = FromTask n) (sv_sent s))"

definition open_trace ::
    "'j async_worker_handler \<Rightarrow> 'j invoke_request \<Rightarrow> 'j async_run \<Rightarrow> ('v, 'r, 'j) plugin_frame list \<Rightarrow> bool" where
  "open_trace H rq k fs \<longleftrightarrow>
     (\<exists>gs. fs = StartedF (rq_id rq) # gs \<and> handler_run (rq_id rq) (ah_invoke H rq) gs k)"

definition closed_trace ::
    "'j async_worker_handler \<Rightarrow> 'j invoke_request \<Rightarrow> ('v, 'r, 'j) plugin_frame list \<Rightarrow> bool" where
  "closed_trace H rq fs \<longleftrightarrow>
     (\<exists>gs r. fs = StartedF (rq_id rq) # gs @ [terminal_frame (rq_id rq) r]
        \<and> handler_run (rq_id rq) (ah_invoke H rq) gs (AReturn r))"

definition task_trace ::
    "'j async_worker_handler \<Rightarrow> 'j server_task \<Rightarrow> ('v, 'r, 'j) plugin_frame list \<Rightarrow> bool" where
  "task_trace H t fs =
     (case tk_pc t of
        TRunning k \<Rightarrow> open_trace H (tk_request t) k fs
      | TPanicked \<Rightarrow> open_trace H (tk_request t) APanic fs
      | TAborted \<Rightarrow> closed_trace H (tk_request t) fs \<or> (\<exists>k. open_trace H (tk_request t) k fs)
      | _ \<Rightarrow> closed_trace H (tk_request t) fs)"

section \<open>The invariant\<close>

definition write_failed_pc :: "('v, 'r, 'j) server_state \<Rightarrow> bool" where
  "write_failed_pc s \<longleftrightarrow> (\<exists>e. sv_writer s = WriteFailed e)"

definition returned :: "('v, 'r, 'j) server_state \<Rightarrow> bool" where
  "returned s \<longleftrightarrow> (\<exists>r. sv_loop s = Returned r)"

definition acked :: "('v, 'r, 'j) server_state \<Rightarrow> bool" where
  "acked s \<longleftrightarrow> ShutdownAckF \<in> snd ` set (sv_sent s)"

definition settled :: "'j server_task \<Rightarrow> bool" where
  "settled t \<longleftrightarrow> tk_pc t = TDone \<or> tk_pc t = TPanicked"

text \<open>The map holds exactly the tasks that are not over.\<close>

definition pending_agrees :: "('v, 'r, 'j) server_state \<Rightarrow> bool" where
  "pending_agrees s \<longleftrightarrow>
     (\<forall>n < length (sv_tasks s). sv_pending s (tk_id (sv_tasks s ! n)) = Some n \<longleftrightarrow> tk_pc (sv_tasks s ! n) \<noteq> TDone)
     \<and> (\<forall>i n. sv_pending s i = Some n \<longrightarrow> n < length (sv_tasks s) \<and> tk_id (sv_tasks s ! n) = i)"

definition traces_ok :: "'j async_worker_handler \<Rightarrow> ('v, 'r, 'j) server_state \<Rightarrow> bool" where
  "traces_ok H s \<longleftrightarrow>
     (\<forall>n \<ge> length (sv_tasks s). task_frames n s = [])
     \<and> (\<not> write_failed_pc s \<longrightarrow> (\<forall>n < length (sv_tasks s). task_trace H (sv_tasks s ! n) (task_frames n s)))"

definition stages_ok :: "('v, 'r, 'j) server_state \<Rightarrow> bool" where
  "stages_ok s \<longleftrightarrow>
     (sv_loop s = Draining \<longrightarrow> (\<forall>t \<in> set (sv_tasks s). tk_pc t \<noteq> TDone \<longrightarrow> tk_cancelled t))
     \<and> (\<forall>t \<in> set (sv_tasks s). tk_pc t = TAborted \<longrightarrow> returned s)
     \<and> (sv_loop s = Closing \<longrightarrow> list_all settled (sv_tasks s))
     \<and> (sv_writer s = WriterDone \<longrightarrow>
          (sv_loop s = Closing \<or> returned s) \<and> list_all finished_task (sv_tasks s) \<and> sv_written s = length (sv_sent s))
     \<and> (sv_loop s = Returned (Inr ()) \<longrightarrow> sv_writer s = WriterDone)
     \<and> sv_written s \<le> length (sv_sent s)"

definition ack_ok :: "('v, 'r, 'j) server_state \<Rightarrow> bool" where
  "ack_ok s \<longleftrightarrow>
     (acked s \<longrightarrow> (\<exists>xs. sv_sent s = xs @ [(FromLoop, ShutdownAckF)] \<and> ShutdownAckF \<notin> snd ` set xs)
        \<and> list_all settled (sv_tasks s) \<and> (sv_loop s = Closing \<or> returned s))
     \<and> (sv_loop s = Closing \<or> sv_loop s = Returned (Inr ()) \<longrightarrow> \<not> write_failed_pc s \<longrightarrow> acked s)"

definition server_ok :: "'j async_worker_handler \<Rightarrow> ('v, 'r, 'j) server_state \<Rightarrow> bool" where
  "server_ok H s \<longleftrightarrow> pending_agrees s \<and> traces_ok H s \<and> stages_ok s \<and> ack_ok s"

lemmas server_ok_defs = server_ok_def pending_agrees_def traces_ok_def stages_ok_def ack_ok_def

subsection \<open>Frames and tasks after an operation\<close>

lemma send_simps [simp]:
  "sv_pending (sv_send org f s) = sv_pending s" "sv_tasks (sv_send org f s) = sv_tasks s"
  "sv_loop (sv_send org f s) = sv_loop s" "sv_written (sv_send org f s) = sv_written s"
  "sv_writer (sv_send org f s) = sv_writer s"
  "sv_sent (sv_send org f s) = (if sv_writer s = Writing then sv_sent s @ [(org, f)] else sv_sent s)"
  by (simp_all add: sv_send_def)

lemma set_task_simps [simp]:
  "sv_pending (set_task n pc s) = sv_pending s" "sv_sent (set_task n pc s) = sv_sent s"
  "sv_loop (set_task n pc s) = sv_loop s" "sv_written (set_task n pc s) = sv_written s"
  "sv_writer (set_task n pc s) = sv_writer s" "length (sv_tasks (set_task n pc s)) = length (sv_tasks s)"
  by (simp_all add: set_task_def)

lemma set_task_nth:
  "n < length (sv_tasks s) \<Longrightarrow>
   sv_tasks (set_task n pc s) ! m = (if m = n then (sv_tasks s ! n)\<lparr>tk_pc := pc\<rparr> else sv_tasks s ! m)"
  by (simp add: set_task_def nth_list_update)

lemma task_frames_snoc:
  "sv_sent t = sv_sent s @ [(org, f)] \<Longrightarrow>
   task_frames n t = task_frames n s @ (if org = FromTask n then [f] else [])"
  by (simp add: task_frames_def)

lemma task_frames_cong: "sv_sent t = sv_sent s \<Longrightarrow> task_frames n t = task_frames n s"
  by (simp add: task_frames_def)

lemma task_trace_cancelled [simp]:
  "task_trace H (t\<lparr>tk_cancelled := b\<rparr>) fs = task_trace H t fs"
  by (cases "tk_pc t") (simp_all add: task_trace_def)

lemma server_okI:
  "pending_agrees s \<Longrightarrow> traces_ok H s \<Longrightarrow> stages_ok s \<Longrightarrow> ack_ok s \<Longrightarrow> server_ok H s"
  by (simp add: server_ok_def)

lemma server_okD:
  assumes "server_ok H s"
  shows "pending_agrees s" "traces_ok H s" "stages_ok s" "ack_ok s"
  using assms by (simp_all add: server_ok_def)

lemma pending_agreesI:
  assumes "\<And>n. n < length (sv_tasks s) \<Longrightarrow>
      sv_pending s (tk_id (sv_tasks s ! n)) = Some n \<longleftrightarrow> tk_pc (sv_tasks s ! n) \<noteq> TDone"
    and "\<And>i n. sv_pending s i = Some n \<Longrightarrow> n < length (sv_tasks s) \<and> tk_id (sv_tasks s ! n) = i"
  shows "pending_agrees s"
  using assms by (simp add: pending_agrees_def)

lemma pending_agreesD:
  assumes "pending_agrees s"
  shows "n < length (sv_tasks s) \<Longrightarrow>
      sv_pending s (tk_id (sv_tasks s ! n)) = Some n \<longleftrightarrow> tk_pc (sv_tasks s ! n) \<noteq> TDone"
    and "sv_pending s i = Some n \<Longrightarrow> n < length (sv_tasks s) \<and> tk_id (sv_tasks s ! n) = i"
  using assms by (simp_all add: pending_agrees_def)

lemma pending_agrees_cong:
  assumes "sv_pending t = sv_pending s" "length (sv_tasks t) = length (sv_tasks s)"
    and "\<And>n. n < length (sv_tasks s) \<Longrightarrow> tk_request (sv_tasks t ! n) = tk_request (sv_tasks s ! n)
      \<and> (tk_pc (sv_tasks t ! n) = TDone \<longleftrightarrow> tk_pc (sv_tasks s ! n) = TDone)"
    and "pending_agrees s"
  shows "pending_agrees t"
  using assms unfolding pending_agrees_def by simp

text \<open>Where a task is not over, neither has the shutdown been acknowledged nor has the writer ended.\<close>

lemma busy_task:
  assumes "server_ok H s" "n < length (sv_tasks s)" "\<not> finished_task (sv_tasks s ! n)"
  shows "\<not> acked s" "sv_loop s \<noteq> Closing" "sv_loop s \<noteq> Returned (Inr ())"
    "write_failed_pc s \<or> sv_writer s = Writing"
proof -
  have mem: "sv_tasks s ! n \<in> set (sv_tasks s)" using assms(2) by simp
  then have "\<not> list_all finished_task (sv_tasks s)" "\<not> list_all settled (sv_tasks s)"
    using assms(3) by (auto simp: list_all_iff finished_task_iff settled_def)
  then show "\<not> acked s" "sv_loop s \<noteq> Closing" "sv_loop s \<noteq> Returned (Inr ())"
    "write_failed_pc s \<or> sv_writer s = Writing"
    using server_okD(3,4)[OF assms(1)]
    by (cases "sv_writer s"; auto simp: ack_ok_def stages_ok_def write_failed_pc_def)+
qed

subsection \<open>Every step keeps the invariant\<close>

text \<open>A running task goes on, sending nothing or one frame.\<close>

lemma task_moves_ok:
  assumes ok: "server_ok H s" and n: "n < length (sv_tasks s)" and run: "tk_pc (sv_tasks s ! n) = TRunning k"
    and t: "sv_pending t = sv_pending s" "sv_loop t = sv_loop s" "sv_written t = sv_written s"
      "sv_writer t = sv_writer s" "sv_tasks t = (sv_tasks s)[n := (sv_tasks s ! n)\<lparr>tk_pc := pc\<rparr>]"
    and sent: "sv_sent t = sv_sent s @ (if sv_writer s = Writing then map (Pair (FromTask n)) gs else [])"
    and pc: "pc \<noteq> TDone" "pc \<noteq> TAborted" "ShutdownAckF \<notin> set gs"
    and trace: "sv_writer s = Writing \<Longrightarrow> task_trace H (sv_tasks s ! n) (task_frames n s) \<Longrightarrow>
      task_trace H ((sv_tasks s ! n)\<lparr>tk_pc := pc\<rparr>) (task_frames n s @ gs)"
  shows "server_ok H t"
proof -
  have busy: "\<not> finished_task (sv_tasks s ! n)" using run by (simp add: finished_task_iff)
  note B = busy_task[OF ok n busy]
  have frames: "task_frames m t = task_frames m s @ (if m = n \<and> sv_writer s = Writing then gs else [])" for m
    by (auto simp: task_frames_def sent filter_empty_conv comp_def)
  show ?thesis
  proof (rule server_okI)
    show "pending_agrees t"
      by (rule pending_agrees_cong[OF t(1) _ _ server_okD(1)[OF ok]])
        (use t(5) n pc(1) run in \<open>auto simp: nth_list_update\<close>)
    show "traces_ok H t"
      using server_okD(2)[OF ok] n B(4) trace
      by (auto simp: traces_ok_def t frames write_failed_pc_def nth_list_update)
    show "stages_ok t"
      using server_okD(3)[OF ok] n B run pc(2) sent
      by (auto simp: stages_ok_def t returned_def write_failed_pc_def dest!: set_update_subset_insert[THEN subsetD] nth_mem)
    show "ack_ok t"
      using B pc(3) sent by (auto simp: ack_ok_def acked_def t)
  qed
qed

text \<open>A task leaves the map.\<close>

lemma task_leaves_ok:
  assumes ok: "server_ok H s" and n: "n < length (sv_tasks s)" and run: "tk_pc (sv_tasks s ! n) = TRemoving"
  shows "server_ok H ((set_task n TDone s)\<lparr>sv_pending := (sv_pending s)(tk_id (sv_tasks s ! n) := None)\<rparr>)"
    (is "server_ok H ?t")
proof -
  have busy: "\<not> finished_task (sv_tasks s ! n)" using run by (simp add: finished_task_iff)
  note B = busy_task[OF ok n busy]
  have frames: "task_frames m ?t = task_frames m s" for m by (rule task_frames_cong) simp
  have P: "sv_pending s (tk_id (sv_tasks s ! n)) = Some n"
    using server_okD(1)[OF ok] n run by (simp add: pending_agrees_def)
  show ?thesis
  proof (rule server_okI)
    show "pending_agrees ?t"
    proof (rule pending_agreesI)
      show "sv_pending ?t (tk_id (sv_tasks ?t ! m)) = Some m \<longleftrightarrow> tk_pc (sv_tasks ?t ! m) \<noteq> TDone"
        if "m < length (sv_tasks ?t)" for m
        using pending_agreesD(1)[OF server_okD(1)[OF ok], of m] P that n
        by (cases "m = n") (auto simp: set_task_nth)
      show "m < length (sv_tasks ?t) \<and> tk_id (sv_tasks ?t ! m) = i" if "sv_pending ?t i = Some m" for i m
        using pending_agreesD(2)[OF server_okD(1)[OF ok], of i m] that n
        by (auto simp: set_task_nth split: if_splits)
    qed
    have "task_trace H ((sv_tasks s ! n)\<lparr>tk_pc := TDone\<rparr>) fs"
      if "task_trace H (sv_tasks s ! n) fs" for fs :: "('b, 'c, 'a) plugin_frame list"
      using that run by (simp add: task_trace_def)
    then show "traces_ok H ?t"
      using server_okD(2)[OF ok] n
      by (auto simp: traces_ok_def frames write_failed_pc_def set_task_nth)
    show "stages_ok ?t"
      using server_okD(3)[OF ok] n B
      by (auto simp: stages_ok_def returned_def write_failed_pc_def set_task_def
          dest!: set_update_subset_insert[THEN subsetD] nth_mem)
    show "ack_ok ?t"
      using B by (auto simp: ack_ok_def acked_def)
  qed
qed

text \<open>An unfinished task is aborted after \<open>serve_worker\<close> returned with an error.\<close>

lemma task_aborts_ok:
  assumes ok: "server_ok H s" and n: "n < length (sv_tasks s)" and busy: "\<not> finished_task (sv_tasks s ! n)"
    and ret: "returned s"
  shows "server_ok H (set_task n TAborted s)" (is "server_ok H ?t")
proof -
  note B = busy_task[OF ok n busy]
  have frames: "task_frames m ?t = task_frames m s" for m by (rule task_frames_cong) simp
  have trace: "task_trace H ((sv_tasks s ! n)\<lparr>tk_pc := TAborted\<rparr>) fs"
    if "task_trace H (sv_tasks s ! n) fs" for fs :: "('b, 'c, 'a) plugin_frame list"
    using that busy by (auto simp: task_trace_def finished_task_iff split: task_pc.splits)
  show ?thesis
  proof (rule server_okI)
    show "pending_agrees ?t"
      by (rule pending_agrees_cong[OF _ _ _ server_okD(1)[OF ok]])
        (use n busy in \<open>auto simp: set_task_nth finished_task_iff\<close>)
    show "traces_ok H ?t"
      using server_okD(2)[OF ok] n trace
      by (auto simp: traces_ok_def frames write_failed_pc_def set_task_nth)
    show "stages_ok ?t"
      using server_okD(3)[OF ok] n B ret
      by (auto simp: stages_ok_def returned_def write_failed_pc_def set_task_def
          dest!: set_update_subset_insert[THEN subsetD] nth_mem)
    show "ack_ok ?t"
      using B by (auto simp: ack_ok_def acked_def)
  qed
qed

text \<open>The loop goes on: it may send frames of its own and cancel tasks.\<close>

definition same_tasks :: "'j server_task list \<Rightarrow> 'j server_task list \<Rightarrow> bool" where
  "same_tasks = list_all2 (\<lambda>a b. tk_request a = tk_request b \<and> tk_pc a = tk_pc b)"

lemma same_tasks_refl [simp]: "same_tasks ts ts"
  by (simp add: same_tasks_def list_all2_refl)

lemma same_tasks_set: "same_tasks ts us \<Longrightarrow> t \<in> set ts \<Longrightarrow> \<exists>u \<in> set us. tk_pc t = tk_pc u"
  unfolding same_tasks_def by (induction rule: list_all2_induct) auto

lemma task_trace_same:
  "tk_request a = tk_request b \<Longrightarrow> tk_pc a = tk_pc b \<Longrightarrow> task_trace H a fs = task_trace H b fs"
  by (cases "tk_pc b") (simp_all add: task_trace_def)

definition loop_active :: "('v, 'r) loop_pc \<Rightarrow> bool" where
  "loop_active l \<longleftrightarrow> l \<noteq> Closing \<and> l \<noteq> Draining \<and> (\<forall>r. l \<noteq> Returned r)"

lemma active_not_acked:
  assumes "server_ok H s" "loop_active (sv_loop s)"
  shows "\<not> acked s" "sv_writer s \<noteq> WriterDone"
  using assms by (auto simp: server_ok_defs loop_active_def returned_def)

lemma loop_moves_ok:
  assumes ok: "server_ok H s" and act: "loop_active (sv_loop s)"
    and t: "sv_pending t = sv_pending s" "sv_written t = sv_written s"
      "sv_writer t = sv_writer s" "same_tasks (sv_tasks t) (sv_tasks s)"
    and sent: "sv_sent t = sv_sent s @ (if sv_writer s = Writing then map (Pair FromLoop) gs else [])"
    and gs: "ShutdownAckF \<notin> set gs"
    and loop: "sv_loop t \<noteq> Closing" "sv_loop t \<noteq> Returned (Inr ())"
    and drain: "sv_loop t = Draining \<Longrightarrow> \<forall>x \<in> set (sv_tasks t). tk_pc x \<noteq> TDone \<longrightarrow> tk_cancelled x"
  shows "server_ok H t"
proof -
  note A = active_not_acked[OF ok act]
  have len: "length (sv_tasks t) = length (sv_tasks s)"
    using t(4) by (simp add: same_tasks_def list_all2_lengthD)
  have nth: "tk_request (sv_tasks t ! n) = tk_request (sv_tasks s ! n)" "tk_pc (sv_tasks t ! n) = tk_pc (sv_tasks s ! n)"
    if "n < length (sv_tasks s)" for n
    using t(4) that len by (auto simp: same_tasks_def list_all2_conv_all_nth)
  have frames: "task_frames m t = task_frames m s" for m
    by (auto simp: task_frames_def sent filter_empty_conv)
  show ?thesis
  proof (rule server_okI)
    show "pending_agrees t"
      by (rule pending_agrees_cong[OF t(1) len _ server_okD(1)[OF ok]]) (simp add: nth)
    show "traces_ok H t"
      using server_okD(2)[OF ok] len
      by (auto simp: traces_ok_def frames t(3) write_failed_pc_def task_trace_same[OF nth])
    have "tk_pc x \<noteq> TAborted" if "x \<in> set (sv_tasks t)" for x
      using server_okD(3)[OF ok] act same_tasks_set[OF t(4) that]
      by (auto simp: stages_ok_def loop_active_def returned_def)
    then show "stages_ok t"
      using server_okD(3)[OF ok] A(2) sent loop drain by (auto simp: stages_ok_def t)
    show "ack_ok t"
      using A(1) gs sent loop by (auto simp: ack_ok_def acked_def)
  qed
qed

text \<open>A new task.\<close>

lemma spawn_simps [simp]:
  "sv_pending (spawn_task H rq s) = (sv_pending s)(rq_id rq \<mapsto> length (sv_tasks s))"
  "sv_tasks (spawn_task H rq s) =
     sv_tasks s @ [\<lparr>tk_request = rq, tk_pc = TRunning (ah_invoke H rq), tk_cancelled = False\<rparr>]"
  "sv_loop (spawn_task H rq s) = sv_loop s" "sv_written (spawn_task H rq s) = sv_written s"
  "sv_writer (spawn_task H rq s) = sv_writer s"
  "sv_sent (spawn_task H rq s) =
     (if sv_writer s = Writing then sv_sent s @ [(FromTask (length (sv_tasks s)), StartedF (rq_id rq))] else sv_sent s)"
  by (simp_all add: spawn_task_def Let_def)

lemma spawn_task_ok:
  assumes ok: "server_ok H s" and act: "loop_active (sv_loop s)" and fresh: "sv_pending s (rq_id rq) = None"
  shows "server_ok H (spawn_task H rq s)" (is "server_ok H ?t")
proof -
  note A = active_not_acked[OF ok act]
  let ?n = "length (sv_tasks s)"
  have frames: "task_frames m ?t = task_frames m s
      @ (if m = ?n \<and> sv_writer s = Writing then [StartedF (rq_id rq)] else [])" for m
    by (auto simp: task_frames_def)
  show ?thesis
  proof (rule server_okI)
    show "pending_agrees ?t"
    proof (rule pending_agreesI)
      show "sv_pending ?t (tk_id (sv_tasks ?t ! m)) = Some m \<longleftrightarrow> tk_pc (sv_tasks ?t ! m) \<noteq> TDone"
        if "m < length (sv_tasks ?t)" for m
        using pending_agreesD(1)[OF server_okD(1)[OF ok], of m] that fresh
        by (cases "m = ?n") (auto simp: nth_append)
      show "m < length (sv_tasks ?t) \<and> tk_id (sv_tasks ?t ! m) = i" if "sv_pending ?t i = Some m" for i m
        using pending_agreesD(2)[OF server_okD(1)[OF ok], of i m] that
        by (auto simp: nth_append split: if_splits)
    qed
    have "task_trace H \<lparr>tk_request = rq, tk_pc = TRunning (ah_invoke H rq), tk_cancelled = False\<rparr> [StartedF (rq_id rq)]"
      by (simp add: task_trace_def open_trace_def hr_start)
    moreover have "sv_writer s = Writing" if "\<not> write_failed_pc s"
      using that A(2) by (cases "sv_writer s") (auto simp: write_failed_pc_def)
    ultimately show "traces_ok H ?t"
      using server_okD(2)[OF ok]
      by (auto simp: traces_ok_def frames write_failed_pc_def nth_append less_Suc_eq)
    show "stages_ok ?t"
      using server_okD(3)[OF ok] A act by (auto simp: stages_ok_def loop_active_def returned_def)
    show "ack_ok ?t"
      using A act by (auto simp: ack_ok_def acked_def loop_active_def)
  qed
qed

text \<open>The end of the shutdown and of the writer.\<close>

lemma no_frames_ok:
  assumes ok: "server_ok H s"
    and t: "sv_pending t = sv_pending s" "sv_tasks t = sv_tasks s"
    and frames: "\<And>n. task_frames n t = task_frames n s"
    and w: "write_failed_pc s \<longrightarrow> write_failed_pc t"
  shows "pending_agrees t" "traces_ok H t"
  using server_okD(1,2)[OF ok] t frames w by (auto simp: pending_agrees_def traces_ok_def)

lemma acknowledge_ok:
  assumes ok: "server_ok H s" and d: "sv_loop s = Draining" and fin: "list_all finished_task (sv_tasks s)"
  shows "server_ok H (acknowledge s)"
proof -
  have na: "\<not> acked s" "sv_writer s \<noteq> WriterDone"
    using ok d by (auto simp: server_ok_defs returned_def)
  have "list_all settled (sv_tasks s)"
    using fin server_okD(3)[OF ok] d
    by (auto simp: list_all_iff settled_def finished_task_iff stages_ok_def returned_def)
  moreover have "\<not> write_failed_pc s \<Longrightarrow> sv_writer s = Writing"
    using na(2) by (cases "sv_writer s") (auto simp: write_failed_pc_def)
  moreover have "task_frames n (acknowledge s) = task_frames n s" for n
    by (simp add: task_frames_def acknowledge_def)
  ultimately show ?thesis
    using na server_okD(3)[OF ok] d
    by (intro server_okI no_frames_ok[OF ok])
      (auto simp: acknowledge_def write_failed_pc_def stages_ok_def ack_ok_def acked_def returned_def)
qed

lemma join_writer_ok:
  assumes ok: "server_ok H s" and c: "sv_loop s = Closing" "sv_writer s \<noteq> Writing"
  shows "server_ok H (join_writer s)"
proof -
  have "task_frames n (join_writer s) = task_frames n s" for n
    by (simp add: task_frames_def join_writer_def)
  then show ?thesis
    using c server_okD(3,4)[OF ok]
    by (intro server_okI no_frames_ok[OF ok]; cases "sv_writer s")
      (auto simp: join_writer_def write_failed_pc_def stages_ok_def ack_ok_def acked_def returned_def
        list_all_iff settled_def)
qed

lemma write_next_ok:
  assumes ok: "server_ok H s" and w: "sv_writer s = Writing" "sv_written s < length (sv_sent s)"
  shows "server_ok H (write_next r s)"
proof -
  have "task_frames n (write_next r s) = task_frames n s" for n
    by (cases r) (simp_all add: task_frames_def write_next_def)
  then show ?thesis
    using w server_okD(3,4)[OF ok]
    by (intro server_okI no_frames_ok[OF ok]; cases r)
      (auto simp: write_next_def write_failed_pc_def stages_ok_def ack_ok_def acked_def returned_def)
qed

lemma writer_end_ok:
  assumes ok: "server_ok H s" and w: "sv_writer s = Writing" "sv_written s = length (sv_sent s)"
    "sv_loop s = Closing \<or> (\<exists>r. sv_loop s = Returned r)" "list_all finished_task (sv_tasks s)"
  shows "server_ok H (s\<lparr>sv_writer := WriterDone\<rparr>)"
proof -
  have "task_frames n (s\<lparr>sv_writer := WriterDone\<rparr>) = task_frames n s" for n
    by (simp add: task_frames_def)
  then show ?thesis
    using w server_okD(3,4)[OF ok]
    by (intro server_okI no_frames_ok[OF ok])
      (auto simp: write_failed_pc_def stages_ok_def ack_ok_def acked_def returned_def)
qed

lemma running_trace:
  "tk_pc t = TRunning k \<Longrightarrow> task_trace H t fs \<longleftrightarrow> open_trace H (tk_request t) k fs"
  by (simp add: task_trace_def)

lemma open_traceE:
  assumes "open_trace H rq k fs"
  obtains gs where "fs = StartedF (rq_id rq) # gs" "handler_run (rq_id rq) (ah_invoke H rq) gs k"
  using assms by (auto simp: open_trace_def)

lemma open_trace_moves:
  shows "open_trace H rq (AProgress fraction message k) fs \<Longrightarrow>
      open_trace H rq (k (Inr ())) (fs @ [ProgressF (rq_id rq) fraction message])"
    and "open_trace H rq (AOutput p k') fs \<Longrightarrow> open_trace H rq (k' (Inr ())) (fs @ [OutputF (rq_id rq) p])"
    and "open_trace H rq (AIsCancelled c) fs \<Longrightarrow> open_trace H rq (c b) fs"
    and "open_trace H rq (ACancelled l) fs \<Longrightarrow> open_trace H rq l fs"
    and "open_trace H rq (AAwait a) fs \<Longrightarrow> open_trace H rq (a answer) fs"
    and "open_trace H rq (AReturn r) fs \<Longrightarrow> closed_trace H rq (fs @ [terminal_frame (rq_id rq) r])"
  by (auto simp: open_trace_def closed_trace_def intro: handler_run.intros)

lemma terminal_not_ack [simp]: "terminal_frame i r \<noteq> ShutdownAckF"
  by (cases r) (simp_all add: terminal_frame_def)

lemma send_result_ok: "sv_writer s = Writing \<Longrightarrow> send_result s = Inr ()"
  by (simp add: send_result_def)

lemma task_sends_ok:
  assumes ok: "server_ok H s" and n: "n < length (sv_tasks s)" and run: "tk_pc (sv_tasks s ! n) = TRunning k"
    and pc: "\<And>r. pc r \<noteq> TDone \<and> pc r \<noteq> TAborted" and f: "f \<noteq> ShutdownAckF"
    and trace: "open_trace H (tk_request (sv_tasks s ! n)) k (task_frames n s) \<Longrightarrow>
      task_trace H ((sv_tasks s ! n)\<lparr>tk_pc := pc (Inr ())\<rparr>) (task_frames n s @ [f])"
  shows "server_ok H (set_task n (pc (send_result s)) (sv_send (FromTask n) f s))"
  by (rule task_moves_ok[OF ok n run, where gs = "[f]" and pc = "pc (send_result s)"])
    (use trace pc f in \<open>auto simp: send_result_ok set_task_def running_trace[OF run]\<close>)

lemma task_quiet_ok:
  assumes ok: "server_ok H s" and n: "n < length (sv_tasks s)" and run: "tk_pc (sv_tasks s ! n) = TRunning k"
    and pc: "pc \<noteq> TDone \<and> pc \<noteq> TAborted"
    and trace: "open_trace H (tk_request (sv_tasks s ! n)) k (task_frames n s) \<Longrightarrow>
      task_trace H ((sv_tasks s ! n)\<lparr>tk_pc := pc\<rparr>) (task_frames n s)"
  shows "server_ok H (set_task n pc s)"
  by (rule task_moves_ok[OF ok n run, where gs = "[]" and pc = pc])
    (use trace pc in \<open>auto simp: set_task_def running_trace[OF run]\<close>)

lemma task_step_ok:
  assumes ok: "server_ok H s" and n: "n < length (sv_tasks s)"
  shows "server_ok H (task_step n answer s)"
proof (cases "tk_pc (sv_tasks s ! n)")
  case (TRunning k)
  note Q = task_quiet_ok[OF ok n TRunning] and S = task_sends_ok[OF ok n TRunning]
  show ?thesis
  proof (cases k)
    case (AReturn r)
    with TRunning show ?thesis
      using S[of "\<lambda>_. TRemoving" "terminal_frame (tk_id (sv_tasks s ! n)) r"]
      by (simp add: Let_def task_trace_def open_trace_moves)
  next
    case (AProgress fraction message l)
    with TRunning show ?thesis
      using S[of "\<lambda>r. TRunning (l r)" "ProgressF (tk_id (sv_tasks s ! n)) fraction message"]
      by (simp add: Let_def task_trace_def open_trace_moves context_progress_def)
  next
    case (AOutput p l)
    with TRunning show ?thesis
      using S[of "\<lambda>r. TRunning (l r)" "OutputF (tk_id (sv_tasks s ! n)) p"]
      by (simp add: Let_def task_trace_def open_trace_moves context_output_def)
  next
    case APanic
    with TRunning show ?thesis using Q[of TPanicked] by (simp add: Let_def task_trace_def)
  qed (use TRunning Q ok in \<open>auto simp: Let_def task_trace_def open_trace_moves\<close>)
next
  case TRemoving
  then show ?thesis using task_leaves_ok[OF ok n] by (simp add: Let_def)
qed (use ok in \<open>simp_all add: Let_def\<close>)

lemma cancel_task_same: "same_tasks (cancel_task n ts) ts"
  by (auto simp: same_tasks_def cancel_task_def list_all2_conv_all_nth nth_list_update)

lemma async_handle_ok:
  assumes ok: "server_ok H s" and l: "sv_loop s = Serving"
  shows "server_ok H (async_handle H f s)"
proof -
  have act: "loop_active (sv_loop s)" using l by (simp add: loop_active_def)
  note M = loop_moves_ok[OF ok act]
  show ?thesis
  proof (cases f)
    case (CancelF i)
    then show ?thesis
      by (cases "sv_pending s i") (intro M[where gs = "[]"]; simp add: cancel_task_same)+
  next
    case ShutdownF
    have "same_tasks (sv_tasks (async_handle H f s)) (sv_tasks s)"
      using ShutdownF by (auto simp: same_tasks_def list_all2_conv_all_nth nth_enumerate_eq)
    moreover have "tk_cancelled x" if "x \<in> set (sv_tasks (async_handle H f s))" "tk_pc x \<noteq> TDone" for x
      using that ShutdownF pending_agreesD(1)[OF server_okD(1)[OF ok]]
      by (auto simp: in_set_enumerate_eq split: if_splits)
    ultimately show ?thesis
      using ShutdownF by (intro M[where gs = "[]"]) auto
  next
    case (InvokeF rq)
    then show ?thesis
      using spawn_task_ok[OF ok act] by (auto intro!: M[where gs = "[]"])
  next
    case (PingF nonce)
    then show ?thesis using l by (intro M[where gs = "[PongF nonce]"]) auto
  next
    case (HostHelloF h)
    then show ?thesis
      using l by (intro M[where gs = "[ErrorF None (worker_error_new ''duplicate_hello'' ''hello may only be sent once'')]"]) auto
  qed
qed

lemma finish_cancel_ok:
  assumes ok: "server_ok H s" and l: "sv_loop s = Cancelling i"
  shows "server_ok H (finish_cancel H i answer s)"
proof -
  have act: "loop_active (sv_loop s)" using l by (simp add: loop_active_def)
  show ?thesis
  proof (cases "ah_cancel H i answer")
    case (Inl e)
    then show ?thesis
      by (intro loop_moves_ok[OF ok act, where gs = "[ErrorF (Some i) e]"]) (auto simp: finish_cancel_def)
  next
    case (Inr u)
    then show ?thesis
      by (intro loop_moves_ok[OF ok act, where gs = "[]"]) (auto simp: finish_cancel_def)
  qed
qed

lemma reject_duplicate_ok:
  assumes ok: "server_ok H s" and l: "sv_loop s = Rejecting i"
  shows "server_ok H (reject_duplicate i s)"
proof -
  have act: "loop_active (sv_loop s)" using l by (simp add: loop_active_def)
  show ?thesis
    by (intro loop_moves_ok[OF ok act, where gs = "[ErrorF (Some i)
          (worker_error_new ''duplicate_request'' ''request id is already active'')]"])
      (auto simp: reject_duplicate_def)
qed

lemma server_step_ok:
  assumes "server_step H s t" "server_ok H s"
  shows "server_ok H t"
  using assms(1)
proof cases
  case (sv_read_error e)
  then show ?thesis
    by (intro loop_moves_ok[OF assms(2), where gs = "[]"]) (auto simp: loop_active_def)
next
  case (sv_abort r n)
  then show ?thesis using task_aborts_ok[OF assms(2)] by (auto simp: returned_def)
qed (use assms(2) in \<open>auto intro: async_handle_ok finish_cancel_ok reject_duplicate_ok acknowledge_ok join_writer_ok
       write_next_ok writer_end_ok simp del: task_step.simps intro!: task_step_ok\<close>)

lemma server_init_ok: "server_ok H server_init"
  by (simp add: server_ok_defs server_init_def task_frames_def acked_def returned_def write_failed_pc_def)

lemma server_reachable_ok: "server_reachable H s \<Longrightarrow> server_ok H s"
  by (induction rule: server_reachable.induct) (auto intro: server_init_ok server_step_ok)

section \<open>Shutting down\<close>

text \<open>While the loop joins the tasks, every task can be brought to its end: its token is cancelled.\<close>

definition only_task :: "nat \<Rightarrow> ('v, 'r, 'j) server_state \<Rightarrow> ('v, 'r, 'j) server_state \<Rightarrow> bool" where
  "only_task n s t \<longleftrightarrow>
     sv_loop t = sv_loop s \<and> sv_writer t = sv_writer s \<and> length (sv_tasks t) = length (sv_tasks s)
     \<and> (\<forall>m. m \<noteq> n \<longrightarrow> sv_tasks t ! m = sv_tasks s ! m) \<and> tk_cancelled (sv_tasks t ! n) = tk_cancelled (sv_tasks s ! n)"

lemma only_task_trans: "only_task n s t \<Longrightarrow> only_task n t u \<Longrightarrow> only_task n s u"
  by (simp add: only_task_def)

lemma task_step_only: "n < length (sv_tasks s) \<Longrightarrow> only_task n s (task_step n answer s)"
  by (auto simp: only_task_def Let_def set_task_nth context_progress_def context_output_def
      split: task_pc.splits async_run.splits)

lemma task_step_pc:
  assumes "n < length (sv_tasks s)" "tk_pc (sv_tasks s ! n) = pc"
  shows "tk_pc (sv_tasks (task_step n answer s) ! n) =
    (case pc of
       TRunning (AReturn r) \<Rightarrow> TRemoving
     | TRunning (AProgress fraction message k) \<Rightarrow> TRunning (k (send_result s))
     | TRunning (AOutput p k) \<Rightarrow> TRunning (k (send_result s))
     | TRunning (AIsCancelled k) \<Rightarrow> TRunning (k (tk_cancelled (sv_tasks s ! n)))
     | TRunning (ACancelled k) \<Rightarrow> if tk_cancelled (sv_tasks s ! n) then TRunning k else pc
     | TRunning (AAwait k) \<Rightarrow> TRunning (k answer)
     | TRunning APanic \<Rightarrow> TPanicked
     | TRemoving \<Rightarrow> TDone
     | _ \<Rightarrow> pc)"
  using assms
  by (auto simp: Let_def set_task_nth context_progress_def context_output_def split: task_pc.splits async_run.splits)

declare task_step.simps [simp del]

definition can_end :: "'j async_worker_handler \<Rightarrow> nat \<Rightarrow> ('v, 'r, 'j) server_state \<Rightarrow> bool" where
  "can_end H n s \<longleftrightarrow> (\<exists>t. (server_step H)\<^sup>*\<^sup>* s t \<and> only_task n s t \<and> finished_task (sv_tasks t ! n))"

lemma can_end_finished: "finished_task (sv_tasks s ! n) \<Longrightarrow> can_end H n s"
  by (auto simp: can_end_def only_task_def)

lemma can_end_step:
  assumes n: "n < length (sv_tasks s)" and "can_end H n (task_step n answer s)"
  shows "can_end H n s"
proof -
  from assms(2) obtain t where t: "(server_step H)\<^sup>*\<^sup>* (task_step n answer s) t" "only_task n (task_step n answer s) t"
    "finished_task (sv_tasks t ! n)" by (auto simp: can_end_def)
  have "(server_step H)\<^sup>*\<^sup>* s t" using sv_task[OF n] t(1) by (rule converse_rtranclp_into_rtranclp)
  then show ?thesis
    using only_task_trans[OF task_step_only[OF n] t(2)] t(3) by (auto simp: can_end_def)
qed

lemma removing_ends:
  assumes "n < length (sv_tasks s)" "tk_pc (sv_tasks s ! n) = TRemoving"
  shows "can_end H n s"
  using task_step_pc[OF assms]
  by (intro can_end_step[OF assms(1), of _ 0] can_end_finished) (simp add: finished_task_iff)

lemma running_ends:
  assumes "n < length (sv_tasks s)" "tk_pc (sv_tasks s ! n) = TRunning k" "tk_cancelled (sv_tasks s ! n)"
  shows "can_end H n s"
  using assms
proof (induction k arbitrary: s)
  case (AReturn r)
  then show ?case
    using removing_ends[of n "task_step n 0 s"] task_step_pc[OF AReturn(1,2)] task_step_only[OF AReturn(1)]
    by (intro can_end_step[OF AReturn(1), of _ 0]) (simp add: only_task_def)
next
  case APanic
  then show ?case
    using task_step_pc[OF APanic(1,2)]
    by (intro can_end_step[OF APanic(1), of _ 0] can_end_finished) (simp add: finished_task_iff)
next
  case (ACancelled k)
  then show ?case
    using task_step_pc[OF ACancelled(2,3)] task_step_only[OF ACancelled(2)]
    by (intro can_end_step[OF ACancelled(2), of _ 0] ACancelled.IH) (simp_all add: only_task_def)
next
  case (AProgress fraction message k)
  then show ?case
    using task_step_pc[OF AProgress(2,3)] task_step_only[OF AProgress(2)]
    by (intro can_end_step[OF AProgress(2), of _ 0] AProgress.IH[OF rangeI[of k "send_result s"]])
      (simp_all add: only_task_def)
next
  case (AOutput p k)
  then show ?case
    using task_step_pc[OF AOutput(2,3)] task_step_only[OF AOutput(2)]
    by (intro can_end_step[OF AOutput(2), of _ 0] AOutput.IH[OF rangeI[of k "send_result s"]])
      (simp_all add: only_task_def)
next
  case (AIsCancelled k)
  then show ?case
    using task_step_pc[OF AIsCancelled(2,3)] task_step_only[OF AIsCancelled(2)]
    by (intro can_end_step[OF AIsCancelled(2), of _ 0] AIsCancelled.IH[OF rangeI[of k True]])
      (simp_all add: only_task_def)
next
  case (AAwait k)
  then show ?case
    using task_step_pc[OF AAwait(2,3)] task_step_only[OF AAwait(2)]
    by (intro can_end_step[OF AAwait(2), of _ 0] AAwait.IH[OF rangeI[of k 0]]) (simp_all add: only_task_def)
qed

lemma task_ends:
  assumes "n < length (sv_tasks s)" "tk_pc (sv_tasks s ! n) \<noteq> TDone \<Longrightarrow> tk_cancelled (sv_tasks s ! n)"
  shows "can_end H n s"
  using assms running_ends removing_ends
  by (cases "tk_pc (sv_tasks s ! n)") (auto intro: can_end_finished simp: finished_task_iff)

text \<open>All tasks, one after the other.\<close>

lemma tasks_end:
  assumes "m \<le> length (sv_tasks s)" "\<forall>n < length (sv_tasks s). tk_pc (sv_tasks s ! n) \<noteq> TDone \<longrightarrow> tk_cancelled (sv_tasks s ! n)"
  shows "\<exists>t. (server_step H)\<^sup>*\<^sup>* s t \<and> sv_loop t = sv_loop s \<and> sv_writer t = sv_writer s
    \<and> length (sv_tasks t) = length (sv_tasks s) \<and> (\<forall>n < m. finished_task (sv_tasks t ! n))
    \<and> (\<forall>n \<ge> m. sv_tasks t ! n = sv_tasks s ! n)"
  using assms(1)
proof (induction m)
  case 0
  then show ?case by blast
next
  case (Suc m)
  then obtain t where t: "(server_step H)\<^sup>*\<^sup>* s t" "sv_loop t = sv_loop s" "sv_writer t = sv_writer s"
    "length (sv_tasks t) = length (sv_tasks s)" "\<forall>n < m. finished_task (sv_tasks t ! n)"
    "\<forall>n \<ge> m. sv_tasks t ! n = sv_tasks s ! n" by auto
  have "can_end H m t" using assms(2) Suc.prems t(4,6) by (intro task_ends) auto
  then obtain u where u: "(server_step H)\<^sup>*\<^sup>* t u" "only_task m t u" "finished_task (sv_tasks u ! m)"
    by (auto simp: can_end_def)
  have "(server_step H)\<^sup>*\<^sup>* s u" using t(1) u(1) by (rule rtranclp_trans)
  then show ?case
    using t u by (intro exI[of _ u]) (auto simp: only_task_def less_Suc_eq)
qed

lemma writer_drains:
  assumes "sv_writer s = Writing" "length (sv_sent s) - sv_written s = d" "sv_written s \<le> length (sv_sent s)"
  shows "\<exists>t. (server_step H)\<^sup>*\<^sup>* s t \<and> t = s\<lparr>sv_written := length (sv_sent s)\<rparr>"
  using assms
proof (induction d arbitrary: s)
  case 0
  then have "s\<lparr>sv_written := length (sv_sent s)\<rparr> = s" by simp
  then show ?case by auto
next
  case (Suc d)
  let ?s = "write_next (Inr ()) s"
  have "server_step H s ?s" using Suc by (intro sv_write) auto
  moreover have "(server_step H)\<^sup>*\<^sup>* ?s (?s\<lparr>sv_written := length (sv_sent ?s)\<rparr>)"
    using Suc.IH[of ?s] Suc.prems by (auto simp: write_next_def)
  ultimately show ?case by (auto simp: write_next_def intro: converse_rtranclp_into_rtranclp)
qed

lemma acknowledged_returns:
  assumes "sv_loop s = Draining" "sv_writer s = Writing" "list_all finished_task (sv_tasks s)"
    and "sv_written s \<le> length (sv_sent s)"
  shows "\<exists>t. (server_step H)\<^sup>*\<^sup>* s t \<and> sv_loop t = Returned (Inr ())"
proof -
  define a where "a = acknowledge s"
  define b where "b = a\<lparr>sv_written := length (sv_sent a)\<rparr>"
  have A: "sv_loop a = Closing" "sv_writer a = Writing" "list_all finished_task (sv_tasks a)"
    "sv_written a \<le> length (sv_sent a)"
    using assms by (simp_all add: a_def acknowledge_def)
  have "server_step H s a" unfolding a_def using assms by (intro sv_acknowledge)
  moreover have "(server_step H)\<^sup>*\<^sup>* a b" using writer_drains[OF A(2) refl A(4), of H] by (simp add: b_def)
  moreover have "server_step H b (b\<lparr>sv_writer := WriterDone\<rparr>)"
    using A by (intro sv_writer_end) (simp_all add: b_def)
  moreover have "server_step H (b\<lparr>sv_writer := WriterDone\<rparr>) (join_writer (b\<lparr>sv_writer := WriterDone\<rparr>))"
    using A by (intro sv_join) (simp_all add: b_def)
  moreover have "sv_loop (join_writer (b\<lparr>sv_writer := WriterDone\<rparr>)) = Returned (Inr ())"
    by (simp add: join_writer_def)
  ultimately show ?thesis
    by (meson converse_rtranclp_into_rtranclp rtranclp.rtrancl_into_rtrancl)
qed

section \<open>Panics\<close>

lemma panicked_stays:
  assumes "server_step H s t" "n < length (sv_tasks s)" "tk_pc (sv_tasks s ! n) = TPanicked"
  shows "n < length (sv_tasks t) \<and> tk_pc (sv_tasks t ! n) = TPanicked \<and> tk_request (sv_tasks t ! n) = tk_request (sv_tasks s ! n)"
  using assms(1)
proof cases
  case (sv_frame f)
  then show ?thesis
    using assms(2,3)
    by (cases f) (auto simp: cancel_task_def nth_enumerate_eq nth_list_update nth_append split: option.splits)
next
  case (sv_cancel i answer)
  then show ?thesis using assms(2,3) by (auto simp: finish_cancel_def split: sum.splits)
next
  case (sv_task m answer)
  then show ?thesis
    using assms(2,3) task_step_only[of m s answer]
    by (cases "m = n") (auto simp: only_task_def task_step.simps Let_def)
next
  case (sv_write r)
  then show ?thesis using assms(2,3) by (cases r) (auto simp: write_next_def)
next
  case (sv_abort r m)
  then show ?thesis
    using assms(2,3) by (cases "m = n") (auto simp: set_task_nth finished_task_iff)
qed (use assms(2,3) in \<open>auto simp: reject_duplicate_def acknowledge_def join_writer_def\<close>)

lemma panicked_stays_run:
  assumes "(server_step H)\<^sup>*\<^sup>* s t" "n < length (sv_tasks s)" "tk_pc (sv_tasks s ! n) = TPanicked"
  shows "n < length (sv_tasks t) \<and> tk_pc (sv_tasks t ! n) = TPanicked \<and> tk_request (sv_tasks t ! n) = tk_request (sv_tasks s ! n)"
  using assms by (induction rule: rtranclp_induct) (auto dest: panicked_stays)

lemma reachable_run: "(server_step H)\<^sup>*\<^sup>* s t \<Longrightarrow> server_reachable H s \<Longrightarrow> server_reachable H t"
  by (induction rule: rtranclp_induct) (auto intro: srv_step)

lemma handler_run_not_terminal: "handler_run i k gs l \<Longrightarrow> list_all (\<lambda>f. \<not> terminal f) gs"
  by (induction rule: handler_run.induct) (auto simp: terminal_def)

section \<open>Scheduled runs\<close>

text \<open>The steps a scheduler chooses, executable: \<open>None\<close> where the chosen step is not enabled.\<close>

datatype ('v, 'r, 'j) action =
    DoFrame "('v, 'r, 'j) host_frame" | DoCancel nat | DoReject | DoAcknowledge | DoJoin
  | DoTask nat nat | DoWrite "frame_error + unit" | DoWriterEnd

fun perform ::
    "'j async_worker_handler \<Rightarrow> ('v, 'r, 'j) action \<Rightarrow> ('v, 'r, 'j) server_state
     \<Rightarrow> ('v, 'r, 'j) server_state option" where
  "perform H (DoFrame f) s = (case sv_loop s of Serving \<Rightarrow> Some (async_handle H f s) | _ \<Rightarrow> None)"
| "perform H (DoCancel answer) s =
     (case sv_loop s of Cancelling i \<Rightarrow> Some (finish_cancel H i answer s) | _ \<Rightarrow> None)"
| "perform H DoReject s = (case sv_loop s of Rejecting i \<Rightarrow> Some (reject_duplicate i s) | _ \<Rightarrow> None)"
| "perform H DoAcknowledge s =
     (case sv_loop s of
        Draining \<Rightarrow> if list_all finished_task (sv_tasks s) then Some (acknowledge s) else None
      | _ \<Rightarrow> None)"
| "perform H DoJoin s =
     (case sv_loop s of
        Closing \<Rightarrow> (case sv_writer s of Writing \<Rightarrow> None | _ \<Rightarrow> Some (join_writer s))
      | _ \<Rightarrow> None)"
| "perform H (DoTask n answer) s = (if n < length (sv_tasks s) then Some (task_step n answer s) else None)"
| "perform H (DoWrite r) s =
     (case sv_writer s of
        Writing \<Rightarrow> if sv_written s < length (sv_sent s) then Some (write_next r s) else None
      | _ \<Rightarrow> None)"
| "perform H DoWriterEnd s =
     (case sv_loop s of
        Closing \<Rightarrow>
          (case sv_writer s of
             Writing \<Rightarrow>
               if sv_written s = length (sv_sent s) \<and> list_all finished_task (sv_tasks s)
               then Some (s\<lparr>sv_writer := WriterDone\<rparr>) else None
           | _ \<Rightarrow> None)
      | _ \<Rightarrow> None)"

fun perform_all ::
    "'j async_worker_handler \<Rightarrow> ('v, 'r, 'j) action list \<Rightarrow> ('v, 'r, 'j) server_state
     \<Rightarrow> ('v, 'r, 'j) server_state option" where
  "perform_all H [] s = Some s"
| "perform_all H (a # acts) s = Option.bind (perform H a s) (perform_all H acts)"

lemma perform_step: "perform H a s = Some t \<Longrightarrow> server_step H s t"
  by (cases a) (auto split: loop_pc.splits writer_pc.splits if_splits intro: server_step.intros)

lemma perform_all_steps: "perform_all H acts s = Some t \<Longrightarrow> (server_step H)\<^sup>*\<^sup>* s t"
  by (induction acts arbitrary: s)
    (auto simp: bind_eq_Some_conv intro: perform_step converse_rtranclp_into_rtranclp)

lemma perform_all_reachable:
  "\<not> Option.is_none (perform_all H acts server_init) \<Longrightarrow> server_reachable H (the (perform_all H acts server_init))"
  using reachable_run[OF perform_all_steps srv_init] by (auto simp: Option.is_none_def)

definition polite_handler :: "string async_worker_handler" where
  "polite_handler =
     \<lparr>ah_invoke = (\<lambda>rq.
        if rq_command rq = ''panic'' then APanic
        else if rq_command rq = ''wait'' then ACancelled (AReturn (Inl (worker_error_new ''cancelled'' ''stopped'')))
        else AOutput (PText (rq_command rq)) (\<lambda>_. AReturn (Inr (result_success (PText ''done''))))),
      ah_cancel = async_cancel_default\<rparr>"

definition polite_request :: "request_id \<Rightarrow> string \<Rightarrow> string invoke_request" where
  "polite_request i command =
     \<lparr>rq_id = i, rq_interface = Ident ''app.engine'', rq_command = command, rq_args = [], rq_metadata = []\<rparr>"

type_synonym sample_server = "(version3, version3, string) server_state"

section \<open>The two servers\<close>

fun lift_server_error :: "('v, 'r) worker_server_error \<Rightarrow> ('v, 'r) async_server_error" where
  "lift_server_error (SrvFrame e) = ASrvFrame e"
| "lift_server_error SrvExpectedHello = ASrvExpectedHello"
| "lift_server_error (SrvFramework v r) = ASrvFramework v r"
| "lift_server_error (SrvProtocol v r) = ASrvProtocol v r"
| "lift_server_error (SrvInterface m) = ASrvInterface m"

lemma async_check_interfaces_eq:
  "async_check_interfaces X m rs = res_map_err lift_server_error (res_all (check_interface X m) rs)"
  by (induction rs) (auto simp: check_interface_def res_map_err_def split: option.splits sum.splits)

lemma async_validate_hello_eq:
  "async_validate_hello X m hello = res_map_err lift_server_error (validate_hello X m hello)"
  by (simp add: async_validate_hello_def validate_hello_def async_check_interfaces_eq res_map_err_def)

section \<open>Properties\<close>

text \<open>C33. The concurrent server opens exactly as the synchronous one: on the same input it accepts the
  same hosts, answers with the same bytes and fails with the same error; where it goes on, the synchronous
  server goes on too, from the same reader and writer.\<close>

theorem async_handshake_equals_sync:
  "serve_worker X CH C m H h stdin stdout =
     (case async_open X CH C m stdin stdout of
        (Inr r, w) \<Rightarrow> serve_loop CH C H h r w
      | (Inl e, w) \<Rightarrow> (Inl (case e of
            ASrvFrame f \<Rightarrow> SrvFrame f | ASrvExpectedHello \<Rightarrow> SrvExpectedHello
          | ASrvFramework v r \<Rightarrow> SrvFramework v r | ASrvProtocol v r \<Rightarrow> SrvProtocol v r
          | ASrvInterface t \<Rightarrow> SrvInterface t | ASrvWriterJoin \<Rightarrow> SrvExpectedHello), h, w))"
proof -
  have undo: "(case lift_server_error e of
            ASrvFrame f \<Rightarrow> SrvFrame f | ASrvExpectedHello \<Rightarrow> SrvExpectedHello
          | ASrvFramework v r \<Rightarrow> SrvFramework v r | ASrvProtocol v r \<Rightarrow> SrvProtocol v r
          | ASrvInterface t \<Rightarrow> SrvInterface t | ASrvWriterJoin \<Rightarrow> SrvExpectedHello) = e"
    for e :: "('a, 'b) worker_server_error"
    by (cases e) simp_all
  show ?thesis
    by (auto simp: serve_worker_def async_open_def async_read_eq async_write_eq async_validate_hello_eq undo
        Let_def res_map_err_def split: prod.splits sum.splits host_frame.splits)
qed


text \<open>Two requests whose tasks interleave, the second of which waits to be cancelled.\<close>

definition sample_run :: "(version3, version3, string) action list" where
  "sample_run =
     [DoFrame (InvokeF (polite_request 1 ''run'')), DoFrame (InvokeF (polite_request 2 ''wait'')),
      DoTask 0 0, DoTask 1 0, DoFrame (CancelF 2), DoTask 1 0, DoTask 0 0, DoCancel 0, DoTask 1 0]"

definition sample_state :: "sample_server" where
  "sample_state = the (perform_all polite_handler sample_run server_init)"

lemma sample_state_reachable: "server_reachable polite_handler sample_state"
  unfolding sample_state_def by (rule perform_all_reachable) code_simp


text \<open>C12. \<open>serve_worker\<close> returns successfully only after a complete shutdown: every frame sent is on the
  wire, the last and only the last is the acknowledgement, and before it every request it accepted has
  got the frame that ends it, unless its handler panicked.\<close>

theorem shutdown_completes_requests:
  assumes "server_reachable H s" "sv_loop s = Returned (Inr ())"
  shows "sv_written s = length (sv_sent s)
    \<and> (\<exists>xs. sv_sent s = xs @ [(FromLoop, ShutdownAckF)] \<and> ShutdownAckF \<notin> snd ` set xs)
    \<and> (\<forall>n < length (sv_tasks s). tk_pc (sv_tasks s ! n) = TPanicked
         \<or> closed_trace H (tk_request (sv_tasks s ! n)) (task_frames n s))"
proof -
  note ok = server_reachable_ok[OF assms(1)]
  have w: "sv_writer s = WriterDone" "sv_written s = length (sv_sent s)"
    using server_okD(3)[OF ok] assms(2) by (auto simp: stages_ok_def)
  then have nf: "\<not> write_failed_pc s" by (simp add: write_failed_pc_def)
  have ack: "\<exists>xs. sv_sent s = xs @ [(FromLoop, ShutdownAckF)] \<and> ShutdownAckF \<notin> snd ` set xs"
    "list_all settled (sv_tasks s)"
    using server_okD(4)[OF ok] assms(2) nf by (auto simp: ack_ok_def)
  have "tk_pc (sv_tasks s ! n) = TPanicked \<or> closed_trace H (tk_request (sv_tasks s ! n)) (task_frames n s)"
    if n: "n < length (sv_tasks s)" for n
  proof -
    have "settled (sv_tasks s ! n)" using ack(2) n by (simp add: list_all_length)
    moreover have "task_trace H (sv_tasks s ! n) (task_frames n s)"
      using server_okD(2)[OF ok] nf n by (simp add: traces_ok_def)
    ultimately show ?thesis by (auto simp: settled_def task_trace_def)
  qed
  with w ack show ?thesis by blast
qed

definition sample_end :: "sample_server" where
  "sample_end = the (perform_all polite_handler
     (sample_run @ [DoTask 0 0, DoFrame ShutdownF, DoTask 1 0, DoAcknowledge] @ replicate 6 (DoWrite (Inr ()))
        @ [DoWriterEnd, DoJoin]) server_init)"

theorem shutdown_completes_requests_witness:
  "closed_trace polite_handler (polite_request 2 ''wait'') (task_frames 1 sample_end)
   \<and> task_frames 1 sample_end = [StartedF 2, ErrorF (Some 2) (worker_error_new ''cancelled'' ''stopped'')]"
proof -
  have r: "server_reachable polite_handler sample_end"
    unfolding sample_end_def by (rule perform_all_reachable) code_simp
  have s: "sv_loop sample_end = Returned (Inr ())" "length (sv_tasks sample_end) = 2"
    "case tk_pc (sv_tasks sample_end ! 1) of TDone \<Rightarrow> True | _ \<Rightarrow> False" "tk_request (sv_tasks sample_end ! 1) = polite_request 2 ''wait''"
    "task_frames 1 sample_end = [StartedF 2, ErrorF (Some 2) (worker_error_new ''cancelled'' ''stopped'')]"
    by code_simp+
  have "closed_trace polite_handler (polite_request 2 ''wait'') (task_frames 1 sample_end)"
    using shutdown_completes_requests[OF r s(1), THEN conjunct2, THEN conjunct2, rule_format, of 1] s(2,3,4)
    by (auto split: task_pc.splits)
  with s(5) show ?thesis by blast
qed


definition sample_draining :: "sample_server" where
  "sample_draining = the (perform_all polite_handler
     [DoFrame (InvokeF (polite_request 1 ''wait'')), DoTask 0 0, DoFrame ShutdownF] server_init)"


text \<open>C32. A request whose handler panics is lost: in every later state it is still active, so a new
  invocation with its id is refused as a duplicate, and as long as the writer works no frame that ends it
  has been sent.\<close>

theorem panicked_request_is_lost:
  assumes "server_reachable H s" "n < length (sv_tasks s)" "tk_pc (sv_tasks s ! n) = TPanicked"
    and "(server_step H)\<^sup>*\<^sup>* s t" "rq_id rq = tk_id (sv_tasks s ! n)"
  shows "sv_loop (async_handle H (InvokeF rq) t) = Rejecting (rq_id rq)
    \<and> (write_failed_pc t \<or> list_all (\<lambda>f. \<not> terminal f) (task_frames n t))"
proof -
  note ok = server_reachable_ok[OF reachable_run[OF assms(4,1)]]
  note P = panicked_stays_run[OF assms(4,2,3)]
  have "sv_pending t (rq_id rq) = Some n"
    using pending_agreesD(1)[OF server_okD(1)[OF ok], of n] P assms(5) by simp
  then have "sv_loop (async_handle H (InvokeF rq) t) = Rejecting (rq_id rq)" by simp
  moreover have "write_failed_pc t \<or> list_all (\<lambda>f. \<not> terminal f) (task_frames n t)"
    using server_okD(2)[OF ok] P handler_run_not_terminal
    by (fastforce simp: traces_ok_def task_trace_def open_trace_def terminal_def)
  ultimately show ?thesis by blast
qed

definition sample_panicked :: "sample_server" where
  "sample_panicked = the (perform_all polite_handler
     [DoFrame (InvokeF (polite_request 1 ''panic'')), DoTask 0 0] server_init)"

theorem panicked_request_is_lost_witness:
  "sv_loop (async_handle polite_handler (InvokeF (polite_request 1 ''run'')) sample_panicked) = Rejecting 1
   \<and> task_frames 0 sample_panicked = [StartedF 1]"
proof -
  have r: "server_reachable polite_handler sample_panicked"
    unfolding sample_panicked_def by (rule perform_all_reachable) code_simp
  have s: "length (sv_tasks sample_panicked) = 1" "case tk_pc (sv_tasks sample_panicked ! 0) of TPanicked \<Rightarrow> True | _ \<Rightarrow> False"
    "tk_id (sv_tasks sample_panicked ! 0) = 1" "task_frames 0 sample_panicked = [StartedF 1]"
    by code_simp+
  have i: "rq_id (polite_request 1 ''run'') = 1" by (simp add: polite_request_def)
  have "tk_pc (sv_tasks sample_panicked ! 0) = TPanicked" using s(2) by (simp split: task_pc.splits)
  then have "sv_loop (async_handle polite_handler (InvokeF (polite_request 1 ''run'')) sample_panicked)
      = Rejecting (rq_id (polite_request 1 ''run''))"
    using panicked_request_is_lost[OF r, of 0 sample_panicked "polite_request 1 ''run''"] s(1,3) i
    by (simp del: async_handle.simps)
  with s(4) i show ?thesis by (simp del: async_handle.simps)
qed

end
