(* ===== verification/Tokio_Session.thy ===== *)
theory Tokio_Session
  imports Tokio_Server
begin

text \<open>
  The concurrent client and the concurrent server of \<open>src/crates/outboard-tokio/src/lib.rs\<close> on the two
  ends of one connection.
\<close>

section \<open>From the concurrent server to the concurrent client\<close>

text \<open>On the wire, only task \<open>k\<close> of the server speaks for invocation \<open>n\<close> of the client.\<close>

definition speaks_for :: "nat \<Rightarrow> nat \<Rightarrow> ('v, 'r, 'j) server_state \<Rightarrow> bool" where
  "speaks_for k n t = list_all (\<lambda>(org, f). own n f \<longrightarrow> org = FromTask k) (sv_sent t)"

lemma handler_run_own:
  "handler_run (chan_id n) k gs l \<Longrightarrow> list_all (own n) gs"
  by (induction rule: handler_run.induct) (auto simp: own_def)

lemma terminal_frame_own [simp]: "own n (terminal_frame (chan_id n) r)" "terminal (terminal_frame i r)"
  by (cases r; simp add: terminal_frame_def terminal_def own_def)+

lemma task_trace_own:
  "task_trace H t fs \<Longrightarrow> tk_id t = chan_id n \<Longrightarrow> list_all (own n) fs"
  by (auto simp: task_trace_def open_trace_def closed_trace_def own_def[of n "StartedF _"]
      dest!: handler_run_own split: task_pc.splits)

lemma task_trace_terminal:
  "task_trace H t fs \<Longrightarrow> list_ex terminal fs \<Longrightarrow> closed_trace H (tk_request t) fs"
  by (auto simp: task_trace_def open_trace_def list_ex_iff list_all_iff terminal_def
      dest!: handler_run_not_terminal split: task_pc.splits)

lemma speaks_for_frames:
  assumes "speaks_for k n t" "list_all (own n) (task_frames k t)"
  shows "filter (own n) (map snd (sv_sent t)) = task_frames k t"
proof -
  have "filter (own n) (map snd xs) = map snd (filter (\<lambda>(org, f). org = FromTask k) xs)"
    if "\<forall>(org, f) \<in> set xs. own n f \<longleftrightarrow> org = FromTask k" for xs
    using that by (induction xs) auto
  then show ?thesis using assms by (auto simp: speaks_for_def task_frames_def list_all_iff)
qed

lemma upto_terminal_append: "list_ex terminal fs \<Longrightarrow> upto_terminal (fs @ gs) = upto_terminal fs"
  by (induction fs) auto

lemma async_call_returns:
  assumes "client_reachable s" "ci_channels s \<le> 2 ^ 64" "n < ci_channels s" "n \<notin> ci_failed s"
    and "server_reachable H t" "\<not> write_failed_pc t"
    and "k < length (sv_tasks t)" "tk_id (sv_tasks t ! k) = chan_id n" "speaks_for k n t"
    and "map snd (sv_sent t) = ci_log s @ unread" "list_ex terminal (filter (own n) (ci_log s))"
  shows "\<exists>gs r. handler_run (chan_id n) (ah_invoke H (tk_request (sv_tasks t ! k))) gs (AReturn r)
    \<and> finish (chan_id n) (channel_closed s n) (ci_queue s n) [] =
        Some (case r of
                Inr x \<Rightarrow> Inr \<lparr>it_id = chan_id n,
                  it_events = StartedF (chan_id n) # gs @ [FinishedF (chan_id n) x], it_result = x\<rparr>
              | Inl e \<Rightarrow> Inl (AsyncWorker e))"
proof -
  have tr: "task_trace H (sv_tasks t ! k) (task_frames k t)"
    using server_okD(2)[OF server_reachable_ok[OF assms(5)]] assms(6,7) by (simp add: traces_ok_def)
  have eq: "task_frames k t = filter (own n) (ci_log s) @ filter (own n) unread"
    using speaks_for_frames[OF assms(9) task_trace_own[OF tr assms(8)]] assms(10) by simp
  then obtain gs r where fr: "task_frames k t = (StartedF (chan_id n) # gs) @ [terminal_frame (chan_id n) r]"
    and run: "handler_run (chan_id n) (ah_invoke H (tk_request (sv_tasks t ! k))) gs (AReturn r)"
    using task_trace_terminal[OF tr] assms(8,11) by (auto simp: closed_trace_def)
  have nt: "list_all (\<lambda>f. \<not> terminal f) (StartedF (chan_id n) # gs)"
    using handler_run_not_terminal[OF run] by (simp add: terminal_def)
  have "upto_terminal (task_frames k t) = task_frames k t"
    unfolding fr by (rule upto_terminal_run[OF nt]) simp
  then have q: "ci_queue s n = (StartedF (chan_id n) # gs) @ [terminal_frame (chan_id n) r]"
    using client_okD(5)[OF client_reachable_ok[OF assms(1,2)] assms(3,4)]
      upto_terminal_append[OF assms(11)] eq fr by (simp add: received_def)
  have "list_all (\<lambda>f. \<not> ends_request (chan_id n) f) (StartedF (chan_id n) # gs)"
    using nt handler_run_own[OF run]
    by (auto simp: list_all_iff own_ends[symmetric] ends_request_def[of _ "StartedF _"])
  then show ?thesis
    using run unfolding q by (intro exI[of _ gs] exI[of _ r])
      (cases r; simp only: finish_call; simp add: terminal_frame_def)
qed

text \<open>Invocation \<open>n\<close> of a client is served by task \<open>k\<close> of a server: the hypotheses of the lemma but for the
  arrival of the last frame.\<close>

definition serves ::
    "'j async_worker_handler \<Rightarrow> ('v, 'r, 'j) server_state \<Rightarrow> ('v, 'r, 'j) client_inner \<Rightarrow> nat \<Rightarrow> nat \<Rightarrow> bool" where
  "serves H t s k n \<longleftrightarrow>
     client_reachable s \<and> ci_channels s \<le> 2 ^ 64 \<and> n < ci_channels s \<and> n \<notin> ci_failed s
     \<and> server_reachable H t \<and> \<not> write_failed_pc t
     \<and> k < length (sv_tasks t) \<and> tk_id (sv_tasks t ! k) = chan_id n \<and> speaks_for k n t
     \<and> (\<exists>unread. map snd (sv_sent t) = ci_log s @ unread)"

lemma finish_ok_terminal: "finish i closed fs ev = Some (Inr a) \<Longrightarrow> list_ex terminal fs"
  by (induction fs arbitrary: ev)
    (auto simp: terminal_def split: plugin_frame.splits option.splits if_splits)

lemma served_result:
  assumes "serves H (t :: ('v, 'r, 'j) server_state) s k n"
    and "finish (chan_id n) (channel_closed s n) (ci_queue s n) [] = Some (Inr a)"
  shows "\<exists>gs. handler_run (chan_id n) (ah_invoke H (tk_request (sv_tasks t ! k)))
      (gs :: ('v, 'r, 'j) plugin_frame list) (AReturn (Inr (it_result a)))"
proof -
  from assms(1) obtain unread where S: "client_reachable s" "ci_channels s \<le> 2 ^ 64" "n < ci_channels s"
    "n \<notin> ci_failed s" "server_reachable H t" "\<not> write_failed_pc t" "k < length (sv_tasks t)"
    "tk_id (sv_tasks t ! k) = chan_id n" "speaks_for k n t" "map snd (sv_sent t) = ci_log s @ unread"
    by (auto simp: serves_def)
  have "list_ex terminal (filter (own n) (ci_log s))"
    using finish_ok_terminal[OF assms(2)] client_okD(5)[OF client_reachable_ok[OF S(1,2)] S(3,4)]
    by (simp add: received_def)
  from async_call_returns[OF S this] obtain gs r where
    run: "handler_run (chan_id n) (ah_invoke H (tk_request (sv_tasks t ! k))) (gs :: ('v, 'r, 'j) plugin_frame list)
      (AReturn r)"
    and fin: "finish (chan_id n) (channel_closed s n) (ci_queue s n) [] =
      Some (case r of
              Inr x \<Rightarrow> Inr \<lparr>it_id = chan_id n,
                it_events = StartedF (chan_id n) # gs @ [FinishedF (chan_id n) x], it_result = x\<rparr>
            | Inl e \<Rightarrow> Inl (AsyncWorker e))"
    by blast
  from fin assms(2) have "r = Inr (it_result a)" by (auto split: sum.splits)
  with run show ?thesis by blast
qed

text \<open>A reader that handles frames one after the other, each with the removal that may follow it.\<close>

definition deliver ::
    "('v, 'r, 'j) plugin_frame \<Rightarrow> ('v, 'r, 'j) client_inner \<Rightarrow> ('v, 'r, 'j) client_inner" where
  "deliver f s =
     (let s' = route f s in case ci_reader s' of Removing i \<Rightarrow> remove_request i s' | _ \<Rightarrow> s')"

lemma deliver_simps [simp]:
  "ci_channels (deliver f s) = ci_channels s" "ci_failed (deliver f s) = ci_failed s"
  "ci_log (deliver f s) = ci_log s @ [f]"
  by (simp_all add: deliver_def Let_def remove_request_def split: reader_pc.splits)

lemma deliver_reading: "ci_reader s = Reading \<Longrightarrow> ci_reader (deliver f s) = Reading"
  by (auto simp: deliver_def Let_def remove_request_def route_reader split: option.splits)

lemma deliver_reachable:
  assumes "client_reachable s" "ci_reader s = Reading" "solicited s f"
  shows "client_reachable (deliver f s)"
  using reach_step[OF assms(1) step_route[OF assms(2,3)]]
  by (auto simp: deliver_def Let_def intro: reach_step step_remove split: reader_pc.splits)

lemma delivered:
  assumes "client_reachable s" "ci_reader s = Reading" "list_all (solicited s) fs"
  shows "client_reachable (fold deliver fs s) \<and> ci_log (fold deliver fs s) = ci_log s @ fs
    \<and> ci_channels (fold deliver fs s) = ci_channels s \<and> ci_failed (fold deliver fs s) = ci_failed s"
  using assms
proof (induction fs arbitrary: s)
  case (Cons f fs)
  have "list_all (solicited (deliver f s)) fs"
    using Cons.prems(3) by (auto simp: list_all_iff solicited_def split: option.splits)
  with Cons show ?case by (simp add: deliver_reachable deliver_reading)
qed simp

section \<open>Properties\<close>

text \<open>C2. A concurrent call works end to end. Let a client and a server be in any states they can reach,
  where what the client has read is a part, from the start, of what the server has sent, however many
  calls are interleaved in it. If a frame that ends invocation \<open>n\<close> has arrived, and the task \<open>k\<close> that
  serves it is the only one that spoke for it, then \<open>Invocation::finish\<close> returns: with the result the
  handler returned and exactly the frames of the request, in the order the handler sent them, or with
  the error the handler returned.\<close>

theorem async_call_end_to_end:
  assumes "client_reachable s" "ci_channels s \<le> 2 ^ 64" "n < ci_channels s" "n \<notin> ci_failed s"
    and "server_reachable H t" "\<not> write_failed_pc t"
    and "k < length (sv_tasks t)" "tk_id (sv_tasks t ! k) = chan_id n" "speaks_for k n t"
    and "map snd (sv_sent t) = ci_log s @ unread" "list_ex terminal (filter (own n) (ci_log s))"
  shows "\<exists>gs r. handler_run (chan_id n) (ah_invoke H (tk_request (sv_tasks t ! k))) gs (AReturn r)
    \<and> finish (chan_id n) (channel_closed s n) (ci_queue s n) [] =
        Some (case r of
                Inr x \<Rightarrow> Inr \<lparr>it_id = chan_id n,
                  it_events = StartedF (chan_id n) # gs @ [FinishedF (chan_id n) x], it_result = x\<rparr>
              | Inl e \<Rightarrow> Inl (AsyncWorker e))"
  using assms by (rule async_call_returns)

text \<open>The server that sends the frames of \<^const>\<open>two_calls\<close>.\<close>

definition two_tasks :: sample_server where
  "two_tasks = the (perform_all polite_handler
     [DoFrame (InvokeF (polite_request 2 ''x'')), DoFrame (InvokeF (polite_request 1 ''run'')),
      DoTask 1 0, DoTask 0 0, DoTask 1 0] server_init)"

theorem async_call_end_to_end_witness:
  "\<exists>gs r. handler_run (chan_id 0) (ah_invoke polite_handler (polite_request 1 ''run''))
        (gs :: (version3, version3, string) plugin_frame list) (AReturn r)
    \<and> finish (chan_id 0) (channel_closed two_calls 0) (ci_queue two_calls 0) [] =
        Some (case r of
                Inr x \<Rightarrow> Inr \<lparr>it_id = chan_id 0,
                  it_events = StartedF (chan_id 0) # gs @ [FinishedF (chan_id 0) x], it_result = x\<rparr>
              | Inl e \<Rightarrow> Inl (AsyncWorker e))"
proof -
  have r: "server_reachable polite_handler two_tasks"
    unfolding two_tasks_def by (rule perform_all_reachable) code_simp
  have t: "sv_writer two_tasks = Writing" "length (sv_tasks two_tasks) = 2"
    "tk_request (sv_tasks two_tasks ! 1) = polite_request 1 ''run''"
    "sv_sent two_tasks = [(FromTask 0, StartedF 2), (FromTask 1, StartedF 1), (FromTask 1, OutputF 1 (PText ''run'')),
       (FromTask 0, OutputF 2 (PText ''x'')), (FromTask 1, FinishedF 1 (result_success (PText ''done'')))]"
    by code_simp+
  have "speaks_for 1 0 two_tasks" by (simp add: speaks_for_def t own_def chan_id_def)
  then show ?thesis
    using async_call_end_to_end[OF two_calls_reachable _ _ _ r, of 0 1 "[]"] t
    by (simp add: two_calls_state write_failed_pc_def chan_id_def polite_request_def own_def terminal_def)
qed

end
