(* ===== verification/Derive.thy ===== *)
theory Derive
  imports Registry
begin

text \<open>
  The macro \<open>ToArgv\<close> of \<open>src/crates/outboard-clap-derive/src/lib.rs\<close> as a compiler: from what \<open>syn\<close>
  parses of a type and its attributes to the code it generates, or to a compile error. The syntax is
  that part of \<open>syn\<close> the macro looks at: a type is a path with generic arguments, an expression is a
  literal, if it is one, and the text of its tokens, an attribute's arguments are a list of metas or
  the error \<open>syn\<close> reports. A string holds the bytes of UTF-8, in which the ASCII tests the macro makes on
  characters are tests on bytes. Of the generated code only the bodies are kept: the runtime's path and
  the generics do not influence what it does.
\<close>

section \<open>Syntax\<close>

type_synonym syn_error = string

datatype rtype = TyPath bool "path_seg list" | TyOther
and path_seg = PathSeg string "generic_arg list option"
and generic_arg = GenType rtype | GenOther

datatype lit = LitStr string | LitChar string | LitBool bool | LitOther

record expr =
  ex_lit :: "lit option"
  ex_tokens :: string

datatype meta = MetaPath string | MetaNameValue string expr | MetaOther

record attribute =
  at_path :: string
  at_metas :: "syn_error + meta list"

record field =
  f_ident :: string
  f_attrs :: "attribute list"
  f_ty :: rtype

datatype fields = FieldsNamed "field list" | FieldsUnnamed "rtype list" | FieldsUnit

record variant =
  v_ident :: string
  v_attrs :: "attribute list"
  v_fields :: fields

datatype data = DataStruct fields | DataEnum "variant list" | DataUnion

record derive_input =
  di_attrs :: "attribute list"
  di_data :: data

section \<open>Names\<close>

definition is_ascii_uppercase :: "char \<Rightarrow> bool" where
  "is_ascii_uppercase c \<longleftrightarrow> CHR ''A'' \<le> c \<and> c \<le> CHR ''Z''"

definition is_ascii_lowercase :: "char \<Rightarrow> bool" where
  "is_ascii_lowercase c \<longleftrightarrow> CHR ''a'' \<le> c \<and> c \<le> CHR ''z''"

definition opt_lowercase :: "char option \<Rightarrow> bool" where
  "opt_lowercase x = (case x of None \<Rightarrow> False | Some c \<Rightarrow> is_ascii_lowercase c)"

definition peek :: "string \<Rightarrow> char option" where
  "peek s = (case s of [] \<Rightarrow> None | c # _ \<Rightarrow> Some c)"

fun words_loop :: "char option \<Rightarrow> string \<Rightarrow> string list \<Rightarrow> string \<Rightarrow> string list" where
  "words_loop prev cur out [] = (if cur \<noteq> [] then out @ [to_ascii_lowercase cur] else out)"
| "words_loop prev cur out (ch # rest) =
     (if ch = CHR ''_'' \<or> ch = CHR ''-''
      then (if cur \<noteq> [] then words_loop (Some ch) [] (out @ [to_ascii_lowercase cur]) rest
            else words_loop (Some ch) cur out rest)
      else if is_ascii_uppercase ch \<and> cur \<noteq> [] \<and> (opt_lowercase prev \<or> opt_lowercase (peek rest))
      then words_loop (Some ch) [ch] (out @ [to_ascii_lowercase cur]) rest
      else words_loop (Some ch) (cur @ [ch]) out rest)"

definition words :: "string \<Rightarrow> string list" where
  "words name = words_loop None [] [] name"

definition capitalize :: "string \<Rightarrow> string" where
  "capitalize word = (case word of [] \<Rightarrow> [] | f # cs \<Rightarrow> ascii_upper f # cs)"

definition rename :: "string \<Rightarrow> string \<Rightarrow> string" where
  "rename name style =
     (let ws = words name in
      if style = ''kebab-case'' then join_with ''-'' ws
      else if style = ''snake_case'' then join_with ''_'' ws
      else if style = ''SCREAMING_SNAKE_CASE'' then to_ascii_uppercase (join_with ''_'' ws)
      else if style = ''lower'' \<or> style = ''lowercase'' then to_ascii_lowercase (join_with '''' ws)
      else if style = ''UPPER'' \<or> style = ''UPPERCASE'' then to_ascii_uppercase (join_with '''' ws)
      else if style = ''camelCase''
      then (case ws of [] \<Rightarrow> [] | first # rest \<Rightarrow> first @ concat (map capitalize rest))
      else if style = ''PascalCase'' then concat (map capitalize ws)
      else if style = ''verbatim'' then name
      else join_with ''-'' ws)"

section \<open>Attributes\<close>

text \<open>The first character of a string: a leading byte and its continuation bytes.\<close>

definition first_char :: "string \<Rightarrow> string option" where
  "first_char s = (case s of [] \<Rightarrow> None | c # cs \<Rightarrow> Some (c # takeWhile is_cont cs))"

definition expr_string :: "expr \<Rightarrow> string option" where
  "expr_string e = (case ex_lit e of Some (LitStr v) \<Rightarrow> Some v | _ \<Rightarrow> None)"

definition expr_char :: "expr \<Rightarrow> string option" where
  "expr_char e = (case ex_lit e of Some (LitChar v) \<Rightarrow> Some v | Some (LitStr v) \<Rightarrow> first_char v | _ \<Rightarrow> None)"

definition expr_bool :: "expr \<Rightarrow> bool option" where
  "expr_bool e = (case ex_lit e of Some (LitBool v) \<Rightarrow> Some v | _ \<Rightarrow> None)"

datatype arg_action = ActDefault | ActValue | ActSetTrue | ActSetFalse | ActCount

definition ends_with_str :: "string \<Rightarrow> string \<Rightarrow> bool" where
  "ends_with_str s t \<longleftrightarrow> length t \<le> length s \<and> drop (length s - length t) s = t"

definition parse_action :: "expr \<Rightarrow> arg_action" where
  "parse_action e =
     (let s = filter (\<lambda>c. c \<noteq> CHR '' '') (ex_tokens e) in
      if ends_with_str s ''ArgAction::SetTrue'' \<or> s = ''SetTrue'' then ActSetTrue
      else if ends_with_str s ''ArgAction::SetFalse'' \<or> s = ''SetFalse'' then ActSetFalse
      else if ends_with_str s ''ArgAction::Count'' \<or> s = ''Count'' then ActCount
      else if ends_with_str s ''ArgAction::Set'' \<or> ends_with_str s ''ArgAction::Append''
              \<or> s = ''Set'' \<or> s = ''Append''
      then ActValue
      else ActDefault)"

record field_cfg =
  fc_long :: "string option"
  fc_short :: "string option"
  fc_action :: arg_action
  fc_value_enum :: bool
  fc_require_equals :: bool
  fc_value_delimiter :: "string option"
  fc_flatten :: bool
  fc_subcommand :: bool
  fc_skip :: bool
  fc_last :: bool
  fc_trailing_var_arg :: bool

definition cfg_default :: field_cfg where
  "cfg_default =
     \<lparr>fc_long = None, fc_short = None, fc_action = ActDefault, fc_value_enum = False,
      fc_require_equals = False, fc_value_delimiter = None, fc_flatten = False, fc_subcommand = False,
      fc_skip = False, fc_last = False, fc_trailing_var_arg = False\<rparr>"

definition unwrap_or_true :: "bool option \<Rightarrow> bool" where
  "unwrap_or_true x = (case x of None \<Rightarrow> True | Some b \<Rightarrow> b)"

definition or_else :: "'a option \<Rightarrow> 'a option \<Rightarrow> 'a option" where
  "or_else a b = (case a of None \<Rightarrow> b | Some x \<Rightarrow> Some x)"

fun arg_meta :: "string \<Rightarrow> string \<Rightarrow> meta \<Rightarrow> field_cfg \<Rightarrow> field_cfg" where
  "arg_meta field_name rename_all (MetaPath p) cfg =
     (if p = ''long'' then cfg\<lparr>fc_long := Some (rename field_name rename_all)\<rparr>
      else if p = ''short'' then cfg\<lparr>fc_short := first_char field_name\<rparr>
      else if p = ''value_enum'' then cfg\<lparr>fc_value_enum := True\<rparr>
      else if p = ''skip'' then cfg\<lparr>fc_skip := True\<rparr>
      else if p = ''require_equals'' then cfg\<lparr>fc_require_equals := True\<rparr>
      else if p = ''last'' then cfg\<lparr>fc_last := True\<rparr>
      else if p = ''trailing_var_arg'' \<or> p = ''raw'' then cfg\<lparr>fc_trailing_var_arg := True\<rparr>
      else cfg)"
| "arg_meta field_name rename_all (MetaNameValue p v) cfg =
     (if p = ''long'' then cfg\<lparr>fc_long := or_else (expr_string v) (Some (rename field_name rename_all))\<rparr>
      else if p = ''short'' then cfg\<lparr>fc_short := or_else (expr_char v) (first_char field_name)\<rparr>
      else if p = ''value_delimiter'' then cfg\<lparr>fc_value_delimiter := expr_char v\<rparr>
      else if p = ''require_equals'' then cfg\<lparr>fc_require_equals := unwrap_or_true (expr_bool v)\<rparr>
      else if p = ''last'' then cfg\<lparr>fc_last := unwrap_or_true (expr_bool v)\<rparr>
      else if p = ''trailing_var_arg'' \<or> p = ''raw''
      then cfg\<lparr>fc_trailing_var_arg := unwrap_or_true (expr_bool v)\<rparr>
      else if p = ''action'' then cfg\<lparr>fc_action := parse_action v\<rparr>
      else if p = ''skip'' then cfg\<lparr>fc_skip := True\<rparr>
      else cfg)"
| "arg_meta field_name rename_all MetaOther cfg = cfg"

fun command_meta :: "meta \<Rightarrow> field_cfg \<Rightarrow> field_cfg" where
  "command_meta (MetaPath p) cfg =
     (if p = ''flatten'' then cfg\<lparr>fc_flatten := True\<rparr>
      else if p = ''subcommand'' then cfg\<lparr>fc_subcommand := True\<rparr>
      else if p = ''skip'' then cfg\<lparr>fc_skip := True\<rparr>
      else cfg)"
| "command_meta _ cfg = cfg"

fun parse_attrs :: "string \<Rightarrow> string \<Rightarrow> attribute list \<Rightarrow> field_cfg \<Rightarrow> syn_error + field_cfg" where
  "parse_attrs field_name rename_all [] cfg = Inr cfg"
| "parse_attrs field_name rename_all (a # attrs) cfg =
     (if at_path a = ''arg''
      then res_bind (at_metas a)
        (\<lambda>ms. parse_attrs field_name rename_all attrs (fold (arg_meta field_name rename_all) ms cfg))
      else if at_path a = ''command''
      then res_bind (at_metas a) (\<lambda>ms. parse_attrs field_name rename_all attrs (fold command_meta ms cfg))
      else parse_attrs field_name rename_all attrs cfg)"

definition cfg_parse :: "attribute list \<Rightarrow> string \<Rightarrow> string \<Rightarrow> syn_error + field_cfg" where
  "cfg_parse attrs field_name rename_all = parse_attrs field_name rename_all attrs cfg_default"

text \<open>The string a list of metas gives a key, the first one that is a string literal.\<close>

fun meta_string :: "string \<Rightarrow> meta list \<Rightarrow> string option" where
  "meta_string key [] = None"
| "meta_string key (MetaNameValue p v # ms) =
     (if p = key then or_else (expr_string v) (meta_string key ms) else meta_string key ms)"
| "meta_string key (_ # ms) = meta_string key ms"

fun container_rename_all :: "attribute list \<Rightarrow> string option" where
  "container_rename_all [] = None"
| "container_rename_all (a # attrs) =
     (if at_path a = ''command''
      then (case at_metas a of
              Inl _ \<Rightarrow> container_rename_all attrs
            | Inr ms \<Rightarrow> or_else (meta_string ''rename_all'' ms) (container_rename_all attrs))
      else container_rename_all attrs)"

fun variant_name :: "attribute list \<Rightarrow> string \<Rightarrow> string \<Rightarrow> syn_error + string" where
  "variant_name [] ident rename_all = Inr (rename ident rename_all)"
| "variant_name (a # attrs) ident rename_all =
     (if at_path a = ''command''
      then res_bind (at_metas a)
        (\<lambda>ms. case meta_string ''name'' ms of
               Some v \<Rightarrow> Inr v
             | None \<Rightarrow> variant_name attrs ident rename_all)
      else variant_name attrs ident rename_all)"

section \<open>Types\<close>

fun first_type_arg :: "generic_arg list \<Rightarrow> rtype option" where
  "first_type_arg [] = None"
| "first_type_arg (GenType ty # gs) = Some ty"
| "first_type_arg (GenOther # gs) = first_type_arg gs"

definition generic_inner :: "rtype \<Rightarrow> string \<Rightarrow> rtype option" where
  "generic_inner ty expected =
     (case ty of
        TyPath _ segs \<Rightarrow>
          (case rev segs of
             [] \<Rightarrow> None
           | PathSeg ident arguments # _ \<Rightarrow>
               if ident \<noteq> expected then None
               else (case arguments of None \<Rightarrow> None | Some gs \<Rightarrow> first_type_arg gs))
      | TyOther \<Rightarrow> None)"

record type_shape =
  ts_optional :: bool
  ts_vector :: bool
  ts_inner :: rtype

definition type_shape_of :: "rtype \<Rightarrow> type_shape" where
  "type_shape_of ty =
     (case generic_inner ty ''Option'' of
        Some inner \<Rightarrow>
          (case generic_inner inner ''Vec'' of
             Some x \<Rightarrow> \<lparr>ts_optional = True, ts_vector = True, ts_inner = x\<rparr>
           | None \<Rightarrow> \<lparr>ts_optional = True, ts_vector = False, ts_inner = inner\<rparr>)
      | None \<Rightarrow>
          (case generic_inner ty ''Vec'' of
             Some inner \<Rightarrow> \<lparr>ts_optional = False, ts_vector = True, ts_inner = inner\<rparr>
           | None \<Rightarrow> \<lparr>ts_optional = False, ts_vector = False, ts_inner = ty\<rparr>))"

definition is_bool :: "rtype \<Rightarrow> bool" where
  "is_bool ty =
     (case ty of
        TyPath qself segs \<Rightarrow>
          \<not> qself \<and> (case rev segs of [] \<Rightarrow> False | PathSeg ident _ # _ \<Rightarrow> ident = ''bool'')
      | TyOther \<Rightarrow> False)"

section \<open>Generated code\<close>

text \<open>How a value becomes an argument and how the argument is pushed; the statements the macro emits
  for a field, on the value they access.\<close>

datatype conversion = ValueEnumToOs | ToArgValue

datatype push_value = PushFlag string bool | PushPlain

datatype code =
    CEmpty
  | CAppendArgv
  | CIfSome code
  | CForEach code
  | CPushIf bool string
  | CCount string
  | COne bool conversion push_value
  | CEach bool conversion push_value
  | CJoined string bool conversion push_value

definition conversion_of :: "bool \<Rightarrow> conversion" where
  "conversion_of value_enum = (if value_enum then ValueEnumToOs else ToArgValue)"

definition push_value_of :: "string option \<Rightarrow> bool \<Rightarrow> push_value" where
  "push_value_of flag equals = (case flag of Some f \<Rightarrow> PushFlag f equals | None \<Rightarrow> PushPlain)"

definition emit_one :: "string option \<Rightarrow> field_cfg \<Rightarrow> bool \<Rightarrow> code" where
  "emit_one flag cfg separator =
     COne separator (conversion_of (fc_value_enum cfg)) (push_value_of flag (fc_require_equals cfg))"

definition emit_vector :: "string option \<Rightarrow> field_cfg \<Rightarrow> bool \<Rightarrow> code" where
  "emit_vector flag cfg separator =
     (let convert = conversion_of (fc_value_enum cfg); push = push_value_of flag (fc_require_equals cfg) in
      case fc_value_delimiter cfg of
        Some delim \<Rightarrow> CJoined delim separator convert push
      | None \<Rightarrow> CEach separator convert push)"

definition field_flag :: "field_cfg \<Rightarrow> string option" where
  "field_flag cfg =
     or_else (map_option (\<lambda>v. ''--'' @ v) (fc_long cfg)) (map_option (\<lambda>v. ''-'' @ v) (fc_short cfg))"

definition emit_field :: "rtype \<Rightarrow> field_cfg \<Rightarrow> syn_error + code" where
  "emit_field ty cfg =
     (if fc_skip cfg then Inr CEmpty
      else
        let shape = type_shape_of ty in
        if fc_flatten cfg \<or> fc_subcommand cfg
        then Inr (if ts_optional shape then CIfSome CAppendArgv
                  else if ts_vector shape then CForEach CAppendArgv
                  else CAppendArgv)
        else
          let flag = field_flag cfg;
              positional = (flag = None);
              action = (if fc_action cfg = ActDefault \<and> \<not> ts_optional shape \<and> \<not> ts_vector shape
                           \<and> is_bool (ts_inner shape) \<and> \<not> positional
                        then ActSetTrue else fc_action cfg) in
          if action = ActSetTrue \<or> action = ActSetFalse
          then (if ts_optional shape \<or> ts_vector shape \<or> \<not> is_bool (ts_inner shape)
                then Inl ''SetTrue/SetFalse requires a plain bool''
                else (case flag of
                        None \<Rightarrow> Inl ''boolean action requires a short or long flag''
                      | Some f \<Rightarrow> Inr (CPushIf (action = ActSetTrue) f)))
          else if action = ActCount
          then (case flag of
                  None \<Rightarrow> Inl ''Count requires a short or long flag''
                | Some f \<Rightarrow> Inr (CCount f))
          else
            let separator = positional \<and> (fc_last cfg \<or> fc_trailing_var_arg cfg) in
            if ts_optional shape \<and> ts_vector shape then Inr (CIfSome (emit_vector flag cfg separator))
            else if ts_optional shape then Inr (CIfSome (emit_one flag cfg separator))
            else if ts_vector shape then Inr (emit_vector flag cfg separator)
            else Inr (emit_one flag cfg separator))"

definition emit_named_field :: "string \<Rightarrow> field \<Rightarrow> syn_error + code" where
  "emit_named_field rename_all f =
     res_bind (cfg_parse (f_attrs f) (f_ident f) rename_all) (emit_field (f_ty f))"

datatype arm = ArmUnit string | ArmTuple string | ArmNamed string "code list"

datatype impl_body = StructBody "code list" | EnumBody "arm list"

definition expand_struct :: "fields \<Rightarrow> string \<Rightarrow> syn_error + code list" where
  "expand_struct fs rename_all =
     (case fs of
        FieldsNamed named \<Rightarrow> res_collect (emit_named_field rename_all) named
      | _ \<Rightarrow> Inl ''ToArgv requires named struct fields'')"

definition expand_variant :: "string \<Rightarrow> variant \<Rightarrow> syn_error + arm" where
  "expand_variant rename_all v =
     res_bind (variant_name (v_attrs v) (v_ident v) rename_all)
       (\<lambda>command_name.
          case v_fields v of
            FieldsUnit \<Rightarrow> Inr (ArmUnit command_name)
          | FieldsUnnamed tys \<Rightarrow>
              if length tys \<noteq> 1 then Inl ''tuple subcommands require exactly one payload''
              else Inr (ArmTuple command_name)
          | FieldsNamed named \<Rightarrow>
              (let rename' = (case container_rename_all (v_attrs v) of Some r \<Rightarrow> r | None \<Rightarrow> rename_all) in
               res_bind (res_collect (emit_named_field rename') named)
                 (\<lambda>emitted. Inr (ArmNamed command_name emitted))))"

definition expand_enum :: "variant list \<Rightarrow> string \<Rightarrow> syn_error + arm list" where
  "expand_enum variants rename_all = res_collect (expand_variant rename_all) variants"

definition expand :: "derive_input \<Rightarrow> syn_error + impl_body" where
  "expand input =
     (let rename_all = (case container_rename_all (di_attrs input) of Some r \<Rightarrow> r | None \<Rightarrow> ''kebab-case'') in
      case di_data input of
        DataStruct fs \<Rightarrow> res_bind (expand_struct fs rename_all) (\<lambda>cs. Inr (StructBody cs))
      | DataEnum vs \<Rightarrow> res_bind (expand_enum vs rename_all) (\<lambda>arms. Inr (EnumBody arms))
      | DataUnion \<Rightarrow> Inl ''ToArgv cannot be derived for unions'')"

section \<open>Lemmas on names\<close>

definition separator_char :: "char \<Rightarrow> bool" where
  "separator_char c \<longleftrightarrow> c = CHR ''_'' \<or> c = CHR ''-''"

definition is_word :: "string \<Rightarrow> bool" where
  "is_word w \<longleftrightarrow> w \<noteq> [] \<and> list_all (\<lambda>c. \<not> separator_char c \<and> \<not> is_ascii_uppercase c) w"

lemma ascii_lower_cases: "ascii_lower c = (if is_ascii_uppercase c then char_of (byte c + 32) else c)"
  by (simp add: ascii_lower_def is_ascii_uppercase_def)

lemma byte_upper: "is_ascii_uppercase c \<longleftrightarrow> 65 \<le> byte c \<and> byte c \<le> 90"
  by (simp add: is_ascii_uppercase_def less_eq_char_def)

lemma byte_lowered: "is_ascii_uppercase c \<Longrightarrow> byte (ascii_lower c) = byte c + 32"
  by (simp add: ascii_lower_cases byte_upper)

lemma ascii_lower_not_upper [simp]: "\<not> is_ascii_uppercase (ascii_lower c)"
  by (cases "is_ascii_uppercase c") (auto simp: byte_upper byte_lowered ascii_lower_cases)

lemma ascii_lower_separator [simp]: "separator_char (ascii_lower c) \<longleftrightarrow> separator_char c"
proof (cases "is_ascii_uppercase c")
  case True
  have "byte x = 95 \<or> byte x = 45" if "separator_char x" for x
    using that by (auto simp: separator_char_def)
  then have "\<not> separator_char c" "\<not> separator_char (ascii_lower c)"
    using True byte_lowered[OF True] by (force simp: byte_upper)+
  then show ?thesis by simp
qed (simp add: ascii_lower_cases)

lemma is_word_lower:
  assumes "w \<noteq> []" "list_all (\<lambda>c. \<not> separator_char c) w"
  shows "is_word (to_ascii_lowercase w)"
  using assms by (auto simp: is_word_def to_ascii_lowercase_def list_all_iff)

lemma words_loop_words:
  assumes "list_all is_word out" "list_all (\<lambda>c. \<not> separator_char c) cur"
  shows "list_all is_word (words_loop prev cur out s)"
  using assms
proof (induction s arbitrary: prev cur out)
  case Nil
  then show ?case by (simp add: is_word_lower)
next
  case (Cons ch s)
  then show ?case by (auto simp: is_word_lower separator_char_def)
qed

lemma lower_word: "is_word w \<Longrightarrow> to_ascii_lowercase w = w"
  by (induction w) (auto simp: is_word_def to_ascii_lowercase_def ascii_lower_cases)

text \<open>The loop over a word: nothing splits it.\<close>

lemma words_loop_word:
  assumes "list_all (\<lambda>c. \<not> separator_char c \<and> \<not> is_ascii_uppercase c) w"
  shows "\<exists>prev'. words_loop prev cur out (w @ s) = words_loop prev' (cur @ w) out s"
  using assms
proof (induction w arbitrary: prev cur)
  case Nil
  then show ?case by auto
next
  case (Cons c w)
  then have "words_loop prev cur out ((c # w) @ s) = words_loop (Some c) (cur @ [c]) out (w @ s)"
    by (auto simp: separator_char_def)
  with Cons.IH[of "Some c" "cur @ [c]"] Cons.prems show ?case by auto
qed

lemma words_loop_join:
  assumes "list_all is_word ws" "separator_char c"
  shows "words_loop prev [] out (join_with [c] ws) = out @ ws"
  using assms
proof (induction "[c]" ws arbitrary: prev out rule: join_with.induct)
  case 1
  then show ?case by simp
next
  case (2 w)
  then have w: "list_all (\<lambda>c. \<not> separator_char c \<and> \<not> is_ascii_uppercase c) w" "w \<noteq> []" "is_word w"
    by (simp_all add: is_word_def)
  then show ?case using words_loop_word[OF w(1), of prev "[]" out "[]"] by (auto simp: lower_word)
next
  case (3 w w' ws)
  then have w: "list_all (\<lambda>c. \<not> separator_char c \<and> \<not> is_ascii_uppercase c) w" "w \<noteq> []" "is_word w"
    by (simp_all add: is_word_def)
  have "words_loop prev [] out (w @ c # join_with [c] (w' # ws))
      = words_loop (Some c) [] (out @ [w]) (join_with [c] (w' # ws))"
    using words_loop_word[OF w(1), of prev "[]" out "c # join_with [c] (w' # ws)"] 3(3) w(2,3)
    by (auto simp: lower_word separator_char_def)
  then show ?case using 3 by simp
qed

lemma words_words: "list_all is_word (words name)"
  by (simp add: words_def words_loop_words)

lemma rename_kebab: "rename name ''kebab-case'' = join_with ''-'' (words name)"
  by (simp add: rename_def Let_def)

lemma rename_snake: "rename name ''snake_case'' = join_with ''_'' (words name)"
  by (simp add: rename_def Let_def)

lemma words_join: "separator_char c \<Longrightarrow> words (join_with [c] (words name)) = words name"
  using words_loop_join[OF words_words, of c None "[]" name] by (simp add: words_def)

section \<open>Properties\<close>

text \<open>The words of a name survive renaming: every word is lower case, non-empty and free of
  separators; a name in kebab or snake case has the words of the name it was made from, so converting it
  again, to either case, gives what converting the original gives.\<close>

theorem rename_keeps_words:
  "list_all is_word (words name)
   \<and> words (rename name ''kebab-case'') = words name \<and> words (rename name ''snake_case'') = words name
   \<and> rename (rename name ''snake_case'') ''kebab-case'' = rename name ''kebab-case''
   \<and> rename (rename name ''kebab-case'') ''snake_case'' = rename name ''snake_case''"
proof -
  have s: "separator_char (CHR ''-'')" "separator_char (CHR ''_'')" by (simp_all add: separator_char_def)
  show ?thesis
    by (simp add: words_words words_join[OF s(1)] words_join[OF s(2)] rename_kebab rename_snake)
qed

text \<open>The macro accepts a field exactly where its action can be carried out: a boolean action needs a
  plain \<open>bool\<close>, and a boolean or counting action a flag. A skipped, flattened or subcommand field is
  always accepted.\<close>

theorem emit_field_accepts:
  "is_ok (emit_field ty cfg) \<longleftrightarrow>
     fc_skip cfg \<or> fc_flatten cfg \<or> fc_subcommand cfg
     \<or> (let shape = type_shape_of ty;
            plain_bool = (\<not> ts_optional shape \<and> \<not> ts_vector shape \<and> is_bool (ts_inner shape));
            flagged = (\<not> (fc_long cfg = None \<and> fc_short cfg = None)) in
        case fc_action cfg of
          ActSetTrue \<Rightarrow> plain_bool \<and> flagged
        | ActSetFalse \<Rightarrow> plain_bool \<and> flagged
        | ActCount \<Rightarrow> flagged
        | _ \<Rightarrow> True)"
proof -
  have flag: "field_flag cfg = None \<longleftrightarrow> fc_long cfg = None \<and> fc_short cfg = None"
    by (simp add: field_flag_def or_else_def split: option.splits)
  show ?thesis
    unfolding flag[symmetric]
    by (cases "fc_action cfg"; cases "field_flag cfg") (auto simp: emit_field_def Let_def)
qed

end
