(* ===== verification/Argv.thy ===== *)
theory Argv
  imports Derive
begin

text \<open>
  The runtime of argument encoding, \<open>src/crates/outboard-clap/src/lib.rs\<close>, and what the code that
  \<open>ToArgv\<close> generates does with a value. A scalar is a value of one of the types that have
  \<open>ToArgValue\<close>, a value enum with the name of its possible value, or a value with its own \<open>ToArgv\<close>,
  which is the arguments it appends. Code that \<open>rustc\<close> would reject, because the value does not have
  the type the code needs, has no result. \<open>clap\<close>'s parser is an argument.
\<close>

section \<open>Values\<close>

datatype scalar =
    SText os_string
  | SBool bool
  | SChar string
  | SInt int
  | SDisplay string
  | SEnum "string option"
  | SNested "os_string list"

datatype field_value =
    FOne scalar | FOption "scalar option" | FVec "scalar list" | FOptionVec "scalar list option"

definition show_int :: "int \<Rightarrow> string" where
  "show_int i = (if i < 0 then ''-'' @ show_nat (nat (- i)) else show_nat (nat i))"

text \<open>The implementations of \<open>ToArgValue\<close>. A number that is not an integer, or an address, is its
  \<open>Display\<close> text.\<close>

fun to_arg_value :: "scalar \<Rightarrow> os_string option" where
  "to_arg_value (SText s) = Some s"
| "to_arg_value (SBool b) = Some (if b then ''true'' else ''false'')"
| "to_arg_value (SChar c) = Some c"
| "to_arg_value (SInt i) = Some (show_int i)"
| "to_arg_value (SDisplay s) = Some s"
| "to_arg_value _ = None"

fun value_enum_to_os :: "scalar \<Rightarrow> os_string option" where
  "value_enum_to_os (SEnum (Some name)) = Some name"
| "value_enum_to_os (SEnum None) = Some ''''"
| "value_enum_to_os _ = None"

text \<open>The cast of an integer or a \<open>bool\<close> to \<open>usize\<close>.\<close>

fun as_usize :: "scalar \<Rightarrow> nat option" where
  "as_usize (SInt i) = Some (nat (i mod 2 ^ 64))"
| "as_usize (SBool b) = Some (if b then 1 else 0)"
| "as_usize _ = None"

definition push_flag_value :: "os_string list \<Rightarrow> string \<Rightarrow> os_string \<Rightarrow> bool \<Rightarrow> os_string list" where
  "push_flag_value argv flag v equals =
     (if equals then argv @ [flag @ ''='' @ v] else argv @ [flag] @ [v])"

section \<open>Running the generated code\<close>

definition convert :: "conversion \<Rightarrow> scalar \<Rightarrow> os_string option" where
  "convert c x = (case c of ValueEnumToOs \<Rightarrow> value_enum_to_os x | ToArgValue \<Rightarrow> to_arg_value x)"

definition run_push :: "push_value \<Rightarrow> os_string \<Rightarrow> os_string list \<Rightarrow> os_string list" where
  "run_push p v argv =
     (case p of PushFlag flag equals \<Rightarrow> push_flag_value argv flag v equals | PushPlain \<Rightarrow> argv @ [v])"

definition run_separator :: "bool \<Rightarrow> os_string list \<Rightarrow> os_string list" where
  "run_separator sep argv = (if sep then argv @ [''--''] else argv)"

text \<open>The loop that joins the values of a delimited vector.\<close>

fun join_loop :: "string \<Rightarrow> conversion \<Rightarrow> scalar list \<Rightarrow> bool \<Rightarrow> os_string \<Rightarrow> os_string option" where
  "join_loop delim c [] first joined = Some joined"
| "join_loop delim c (x # xs) first joined =
     (case convert c x of
        None \<Rightarrow> None
      | Some v \<Rightarrow> join_loop delim c xs False ((if first then joined else joined @ delim) @ v))"

fun push_loop :: "conversion \<Rightarrow> push_value \<Rightarrow> scalar list \<Rightarrow> os_string list \<Rightarrow> os_string list option" where
  "push_loop c p [] argv = Some argv"
| "push_loop c p (x # xs) argv =
     (case convert c x of None \<Rightarrow> None | Some v \<Rightarrow> push_loop c p xs (run_push p v argv))"

fun append_loop :: "scalar list \<Rightarrow> os_string list \<Rightarrow> os_string list option" where
  "append_loop [] argv = Some argv"
| "append_loop (SNested ts # xs) argv = append_loop xs (argv @ ts)"
| "append_loop _ argv = None"

fun run_code :: "code \<Rightarrow> field_value \<Rightarrow> os_string list \<Rightarrow> os_string list option" where
  "run_code CEmpty v argv = Some argv"
| "run_code CAppendArgv (FOne (SNested ts)) argv = Some (argv @ ts)"
| "run_code (CIfSome c) (FOption None) argv = Some argv"
| "run_code (CIfSome c) (FOption (Some x)) argv = run_code c (FOne x) argv"
| "run_code (CIfSome c) (FOptionVec None) argv = Some argv"
| "run_code (CIfSome c) (FOptionVec (Some xs)) argv = run_code c (FVec xs) argv"
| "run_code (CForEach CAppendArgv) (FVec xs) argv = append_loop xs argv"
| "run_code (CPushIf b flag) (FOne (SBool v)) argv = Some (if v = b then argv @ [flag] else argv)"
| "run_code (CCount flag) (FOne x) argv = map_option (\<lambda>n. argv @ replicate n flag) (as_usize x)"
| "run_code (COne sep c p) (FOne x) argv =
     map_option (\<lambda>v. run_push p v (run_separator sep argv)) (convert c x)"
| "run_code (CEach sep c p) (FVec xs) argv =
     push_loop c p xs (if xs \<noteq> [] then run_separator sep argv else argv)"
| "run_code (CJoined delim sep c p) (FVec xs) argv =
     (if xs = [] then Some argv
      else map_option (\<lambda>v. run_push p v (run_separator sep argv)) (join_loop delim c xs True []))"
| "run_code _ _ _ = None"

text \<open>\<open>append_argv\<close> of a derived type and \<open>to_argv\<close>. A value of an enum is the number of its variant
  and its payload.\<close>

datatype payload_value = PUnit | PTuple "os_string list" | PNamed "field_value list"

datatype item_value = StructValue "field_value list" | EnumValue nat payload_value

fun run_fields :: "code list \<Rightarrow> field_value list \<Rightarrow> os_string list \<Rightarrow> os_string list option" where
  "run_fields [] [] argv = Some argv"
| "run_fields (c # cs) (v # vs) argv = Option.bind (run_code c v argv) (run_fields cs vs)"
| "run_fields _ _ argv = None"

fun run_arm :: "arm \<Rightarrow> payload_value \<Rightarrow> os_string list \<Rightarrow> os_string list option" where
  "run_arm (ArmUnit name) PUnit argv = Some (argv @ [name])"
| "run_arm (ArmTuple name) (PTuple ts) argv = Some (argv @ [name] @ ts)"
| "run_arm (ArmNamed name cs) (PNamed vs) argv = run_fields cs vs (argv @ [name])"
| "run_arm _ _ argv = None"

fun append_argv :: "impl_body \<Rightarrow> item_value \<Rightarrow> os_string list \<Rightarrow> os_string list option" where
  "append_argv (StructBody cs) (StructValue vs) argv = run_fields cs vs argv"
| "append_argv (EnumBody arms) (EnumValue n p) argv =
     (if n < length arms then run_arm (arms ! n) p argv else None)"
| "append_argv _ _ argv = None"

definition to_argv :: "impl_body \<Rightarrow> item_value \<Rightarrow> os_string list option" where
  "to_argv body v = append_argv body v []"

section \<open>Validation and typed commands\<close>

definition validate_args ::
    "(os_string list \<Rightarrow> 'clap_error + 'matches) \<Rightarrow> os_string list \<Rightarrow> 'clap_error + os_string list" where
  "validate_args try_get_matches_from argv =
     res_bind (try_get_matches_from (''__outboard_validate'' # argv)) (\<lambda>_. Inr argv)"

definition validate_parser ::
    "(os_string list \<Rightarrow> 'clap_error + 'matches) \<Rightarrow> os_string list \<Rightarrow> 'clap_error + os_string list" where
  "validate_parser try_get_matches_from argv =
     res_bind (try_get_matches_from (''__outboard_validate'' # argv)) (\<lambda>_. Inr argv)"

definition args_try_to_argv ::
    "(os_string list \<Rightarrow> 'clap_error + 'matches) \<Rightarrow> os_string list \<Rightarrow> 'clap_error + os_string list" where
  "args_try_to_argv clap argv = validate_args clap argv"

definition parser_try_to_argv ::
    "(os_string list \<Rightarrow> 'clap_error + 'matches) \<Rightarrow> os_string list \<Rightarrow> 'clap_error + os_string list" where
  "parser_try_to_argv clap argv = validate_parser clap argv"

definition command_typed :: "('v, 'r, 'j) resolved_plugin \<Rightarrow> impl_body \<Rightarrow> item_value \<Rightarrow> command option" where
  "command_typed p body v = map_option (rp_command_with p) (to_argv body v)"

section \<open>What a field should contribute\<close>

text \<open>A specification of the arguments of a field that does not go through generated code: from its
  configuration and the values it holds.\<close>

fun items :: "field_value \<Rightarrow> scalar list" where
  "items (FOne x) = [x]"
| "items (FOption x) = (case x of None \<Rightarrow> [] | Some y \<Rightarrow> [y])"
| "items (FVec xs) = xs"
| "items (FOptionVec x) = (case x of None \<Rightarrow> [] | Some xs \<Rightarrow> xs)"

fun has_shape :: "type_shape \<Rightarrow> field_value \<Rightarrow> bool" where
  "has_shape sh (FOne _) = (\<not> ts_optional sh \<and> \<not> ts_vector sh)"
| "has_shape sh (FOption _) = (ts_optional sh \<and> \<not> ts_vector sh)"
| "has_shape sh (FVec _) = (\<not> ts_optional sh \<and> ts_vector sh)"
| "has_shape sh (FOptionVec _) = (ts_optional sh \<and> ts_vector sh)"

definition option_args :: "field_cfg \<Rightarrow> os_string \<Rightarrow> os_string list" where
  "option_args cfg v =
     (case field_flag cfg of
        None \<Rightarrow> [v]
      | Some flag \<Rightarrow> if fc_require_equals cfg then [flag @ ''='' @ v] else [flag, v])"

definition needs_separator :: "field_cfg \<Rightarrow> bool" where
  "needs_separator cfg \<longleftrightarrow> field_flag cfg = None \<and> (fc_last cfg \<or> fc_trailing_var_arg cfg)"

definition value_args :: "field_cfg \<Rightarrow> bool \<Rightarrow> os_string list \<Rightarrow> os_string list" where
  "value_args cfg vector vs =
     (if vs = [] then []
      else (if needs_separator cfg then [''--''] else [])
        @ (case fc_value_delimiter cfg of
             Some delim \<Rightarrow> if vector then option_args cfg (join_with delim vs) else concat (map (option_args cfg) vs)
           | None \<Rightarrow> concat (map (option_args cfg) vs)))"

definition field_action :: "rtype \<Rightarrow> field_cfg \<Rightarrow> arg_action" where
  "field_action ty cfg =
     (let sh = type_shape_of ty in
      if fc_action cfg = ActDefault \<and> \<not> ts_optional sh \<and> \<not> ts_vector sh \<and> is_bool (ts_inner sh)
         \<and> field_flag cfg \<noteq> None
      then ActSetTrue else fc_action cfg)"

fun nested_args :: "scalar \<Rightarrow> os_string list option" where
  "nested_args (SNested ts) = Some ts"
| "nested_args _ = None"

fun bool_of :: "field_value \<Rightarrow> bool option" where
  "bool_of (FOne (SBool b)) = Some b"
| "bool_of _ = None"

fun count_of :: "field_value \<Rightarrow> nat option" where
  "count_of (FOne x) = as_usize x"
| "count_of _ = None"

definition well_typed :: "rtype \<Rightarrow> field_cfg \<Rightarrow> field_value \<Rightarrow> bool" where
  "well_typed ty cfg v \<longleftrightarrow>
     fc_skip cfg
     \<or> has_shape (type_shape_of ty) v
        \<and> (if fc_flatten cfg \<or> fc_subcommand cfg
           then \<not> (ts_optional (type_shape_of ty) \<and> ts_vector (type_shape_of ty))
                \<and> list_all (\<lambda>x. nested_args x \<noteq> None) (items v)
           else (case field_action ty cfg of
                   ActSetTrue \<Rightarrow> bool_of v \<noteq> None
                 | ActSetFalse \<Rightarrow> bool_of v \<noteq> None
                 | ActCount \<Rightarrow> count_of v \<noteq> None
                 | _ \<Rightarrow> list_all (\<lambda>x. convert (conversion_of (fc_value_enum cfg)) x \<noteq> None) (items v)))"

definition field_tokens :: "rtype \<Rightarrow> field_cfg \<Rightarrow> field_value \<Rightarrow> os_string list" where
  "field_tokens ty cfg v =
     (if fc_skip cfg then []
      else if fc_flatten cfg \<or> fc_subcommand cfg then concat (map (\<lambda>x. the (nested_args x)) (items v))
      else (case field_action ty cfg of
              ActSetTrue \<Rightarrow> if bool_of v = Some True then [the (field_flag cfg)] else []
            | ActSetFalse \<Rightarrow> if bool_of v = Some False then [the (field_flag cfg)] else []
            | ActCount \<Rightarrow> replicate (the (count_of v)) (the (field_flag cfg))
            | _ \<Rightarrow> value_args cfg (ts_vector (type_shape_of ty))
                    (map (\<lambda>x. the (convert (conversion_of (fc_value_enum cfg)) x)) (items v))))"

section \<open>Lemmas on the loops\<close>

lemma run_push_args:
  "run_push (push_value_of (field_flag cfg) (fc_require_equals cfg)) v argv = argv @ option_args cfg v"
  by (simp add: run_push_def push_value_of_def option_args_def push_flag_value_def split: option.splits)

lemma push_loop_args:
  assumes "list_all (\<lambda>x. convert c x \<noteq> None) xs"
  shows "push_loop c (push_value_of (field_flag cfg) (fc_require_equals cfg)) xs argv =
    Some (argv @ concat (map (option_args cfg) (map (\<lambda>x. the (convert c x)) xs)))"
  using assms by (induction xs arbitrary: argv) (auto simp: run_push_args)

lemma join_loop_rest:
  assumes "list_all (\<lambda>x. convert c x \<noteq> None) xs"
  shows "join_loop delim c xs False joined =
    Some (joined @ concat (map (\<lambda>x. delim @ the (convert c x)) xs))"
  using assms by (induction xs arbitrary: joined) auto

lemma join_with_concat: "join_with delim (x # xs) = x @ concat (map (\<lambda>y. delim @ y) xs)"
  by (induction xs arbitrary: x) auto

lemma join_loop_join:
  assumes "list_all (\<lambda>x. convert c x \<noteq> None) xs" "xs \<noteq> []"
  shows "join_loop delim c xs True [] = Some (join_with delim (map (\<lambda>x. the (convert c x)) xs))"
proof -
  obtain y ys where xs: "xs = y # ys" using assms(2) by (cases xs) auto
  then show ?thesis
    using assms(1) by (auto simp: join_loop_rest join_with_concat comp_def)
qed

lemma append_loop_nested:
  "list_all (\<lambda>x. nested_args x \<noteq> None) xs \<Longrightarrow>
   append_loop xs argv = Some (argv @ concat (map (\<lambda>x. the (nested_args x)) xs))"
proof (induction xs arbitrary: argv)
  case (Cons x xs)
  then show ?case by (cases x) auto
qed simp

lemma run_vector:
  assumes "list_all (\<lambda>x. convert (conversion_of (fc_value_enum cfg)) x \<noteq> None) xs"
  shows "run_code (emit_vector (field_flag cfg) cfg (needs_separator cfg)) (FVec xs) argv =
    Some (argv @ value_args cfg True (map (\<lambda>x. the (convert (conversion_of (fc_value_enum cfg)) x)) xs))"
  using assms
  by (auto simp: emit_vector_def Let_def value_args_def run_separator_def push_loop_args join_loop_join
      run_push_args split: option.splits)

lemma run_one:
  assumes "convert (conversion_of (fc_value_enum cfg)) x = Some t"
  shows "run_code (emit_one (field_flag cfg) cfg (needs_separator cfg)) (FOne x) argv =
    Some (argv @ value_args cfg False [t])"
  using assms
  by (auto simp: emit_one_def value_args_def run_separator_def run_push_args split: option.splits)

text \<open>The three groups of fields: nested ones, flags, and those that carry values.\<close>

lemma nested_field_code:
  assumes "emit_field ty cfg = Inr c" "\<not> fc_skip cfg" "fc_flatten cfg \<or> fc_subcommand cfg" "well_typed ty cfg v"
  shows "run_code c v argv = Some (argv @ field_tokens ty cfg v)"
proof -
  have c: "c = (if ts_optional (type_shape_of ty) then CIfSome CAppendArgv
      else if ts_vector (type_shape_of ty) then CForEach CAppendArgv else CAppendArgv)"
    using assms(1-3) by (simp add: emit_field_def Let_def)
  have w: "has_shape (type_shape_of ty) v" "\<not> (ts_optional (type_shape_of ty) \<and> ts_vector (type_shape_of ty))"
    "list_all (\<lambda>x. nested_args x \<noteq> None) (items v)"
    using assms(2-4) by (auto simp: well_typed_def)
  have one: "run_code CAppendArgv (FOne x) argv = Some (argv @ the (nested_args x))" if "nested_args x \<noteq> None" for x
    using that by (cases x) auto
  show ?thesis
    using w assms(2,3) one
    by (cases v) (auto simp: c field_tokens_def append_loop_nested split: option.splits)
qed

lemma emit_field_action:
  assumes "\<not> (fc_skip cfg \<or> fc_flatten cfg \<or> fc_subcommand cfg)"
  shows "emit_field ty cfg =
     (let shape = type_shape_of ty; flag = field_flag cfg; action = field_action ty cfg in
      if action = ActSetTrue \<or> action = ActSetFalse
      then (if ts_optional shape \<or> ts_vector shape \<or> \<not> is_bool (ts_inner shape)
            then Inl ''SetTrue/SetFalse requires a plain bool''
            else (case flag of
                    None \<Rightarrow> Inl ''boolean action requires a short or long flag''
                  | Some f \<Rightarrow> Inr (CPushIf (action = ActSetTrue) f)))
      else if action = ActCount
      then (case flag of None \<Rightarrow> Inl ''Count requires a short or long flag'' | Some f \<Rightarrow> Inr (CCount f))
      else if ts_optional shape \<and> ts_vector shape then Inr (CIfSome (emit_vector flag cfg (needs_separator cfg)))
      else if ts_optional shape then Inr (CIfSome (emit_one flag cfg (needs_separator cfg)))
      else if ts_vector shape then Inr (emit_vector flag cfg (needs_separator cfg))
      else Inr (emit_one flag cfg (needs_separator cfg)))"
  using assms by (simp only: emit_field_def field_action_def needs_separator_def Let_def if_False de_Morgan_disj simp_thms)

lemma flag_field_code:
  assumes "emit_field ty cfg = Inr c" "\<not> (fc_skip cfg \<or> fc_flatten cfg \<or> fc_subcommand cfg)"
    and "field_action ty cfg \<in> {ActSetTrue, ActSetFalse, ActCount}" "well_typed ty cfg v"
  shows "run_code c v argv = Some (argv @ field_tokens ty cfg v)"
proof -
  have "field_flag cfg \<noteq> None \<and>
      c = (if field_action ty cfg = ActCount then CCount (the (field_flag cfg))
           else CPushIf (field_action ty cfg = ActSetTrue) (the (field_flag cfg)))"
    using assms(1,3) unfolding emit_field_action[OF assms(2)] Let_def
    by (auto split: option.splits if_splits)
  then obtain f where f: "field_flag cfg = Some f"
      "c = (if field_action ty cfg = ActCount then CCount f else CPushIf (field_action ty cfg = ActSetTrue) f)"
    by auto
  show ?thesis
  proof (cases "field_action ty cfg = ActCount")
    case True
    then obtain k where k: "count_of v = Some k" using assms(2,4) by (auto simp: well_typed_def)
    then obtain x where "v = FOne x" "as_usize x = Some k" by (cases v) auto
    then show ?thesis using assms(2) f True by (simp add: field_tokens_def)
  next
    case False
    then have act: "field_action ty cfg = ActSetTrue \<or> field_action ty cfg = ActSetFalse" using assms(3) by blast
    then obtain b where "bool_of v = Some b" using assms(2,4) by (auto simp: well_typed_def)
    then have "v = FOne (SBool b)" by (cases v rule: bool_of.cases) auto
    then show ?thesis using assms(2) f act by (cases b) (auto simp: field_tokens_def)
  qed
qed

lemma value_field_code:
  assumes "emit_field ty cfg = Inr c" "\<not> (fc_skip cfg \<or> fc_flatten cfg \<or> fc_subcommand cfg)"
    and act: "field_action ty cfg \<in> {ActDefault, ActValue}" and "well_typed ty cfg v"
  shows "run_code c v argv = Some (argv @ field_tokens ty cfg v)"
proof -
  let ?sh = "type_shape_of ty" and ?sep = "needs_separator cfg"
  have c: "c = (if ts_optional ?sh \<and> ts_vector ?sh then CIfSome (emit_vector (field_flag cfg) cfg ?sep)
      else if ts_optional ?sh then CIfSome (emit_one (field_flag cfg) cfg ?sep)
      else if ts_vector ?sh then emit_vector (field_flag cfg) cfg ?sep else emit_one (field_flag cfg) cfg ?sep)"
    using assms(1,3) unfolding emit_field_action[OF assms(2)] Let_def by (auto split: if_splits)
  have w: "has_shape ?sh v" "list_all (\<lambda>x. convert (conversion_of (fc_value_enum cfg)) x \<noteq> None) (items v)"
    using assms(2-4) by (auto simp: well_typed_def)
  have t: "field_tokens ty cfg v = value_args cfg (ts_vector ?sh)
      (map (\<lambda>x. the (convert (conversion_of (fc_value_enum cfg)) x)) (items v))"
    using assms(2,3) by (auto simp: field_tokens_def)
  have none: "value_args cfg b [] = []" for b by (simp add: value_args_def)
  show ?thesis
    unfolding c t using w by (cases v) (auto simp: none run_vector run_one split: option.splits)
qed

lemma field_code:
  assumes "emit_field ty cfg = Inr c" "well_typed ty cfg v"
  shows "run_code c v argv = Some (argv @ field_tokens ty cfg v)"
proof -
  consider "fc_skip cfg" | "\<not> fc_skip cfg" "fc_flatten cfg \<or> fc_subcommand cfg"
    | "\<not> (fc_skip cfg \<or> fc_flatten cfg \<or> fc_subcommand cfg)"
    by blast
  then show ?thesis
  proof cases
    case 1
    then show ?thesis using assms(1) by (auto simp: emit_field_def field_tokens_def)
  next
    case 2
    then show ?thesis using nested_field_code[OF assms(1)] assms(2) by blast
  next
    case 3
    then show ?thesis
      using flag_field_code[OF assms(1) 3 _ assms(2)] value_field_code[OF assms(1) 3 _ assms(2)]
      by (cases "field_action ty cfg") auto
  qed
qed

section \<open>Whole types\<close>

definition named_typed :: "string \<Rightarrow> field \<Rightarrow> field_value \<Rightarrow> bool" where
  "named_typed rename_all f v =
     (case cfg_parse (f_attrs f) (f_ident f) rename_all of Inl _ \<Rightarrow> False | Inr cfg \<Rightarrow> well_typed (f_ty f) cfg v)"

definition named_tokens :: "string \<Rightarrow> field \<Rightarrow> field_value \<Rightarrow> os_string list" where
  "named_tokens rename_all f v =
     (case cfg_parse (f_attrs f) (f_ident f) rename_all of Inl _ \<Rightarrow> [] | Inr cfg \<Rightarrow> field_tokens (f_ty f) cfg v)"

lemma named_field_code:
  assumes "emit_named_field rename_all f = Inr c" "named_typed rename_all f v"
  shows "run_code c v argv = Some (argv @ named_tokens rename_all f v)"
  using assms field_code
  by (auto simp: emit_named_field_def named_typed_def named_tokens_def res_simps split: sum.splits)

lemma run_fields_tokens:
  assumes "res_collect (emit_named_field rename_all) fs = Inr cs" "list_all2 (named_typed rename_all) fs vs"
  shows "run_fields cs vs argv = Some (argv @ concat (map2 (named_tokens rename_all) fs vs))"
  using assms(2,1)
proof (induction arbitrary: cs argv rule: list_all2_induct)
  case Nil
  then show ?case by simp
next
  case (Cons f fs v vs)
  then obtain c cs' where "emit_named_field rename_all f = Inr c" "cs = c # cs'"
    "res_collect (emit_named_field rename_all) fs = Inr cs'"
    by (auto split: sum.splits)
  then show ?case using Cons named_field_code by simp
qed

definition item_rename :: "derive_input \<Rightarrow> string" where
  "item_rename input = (case container_rename_all (di_attrs input) of Some r \<Rightarrow> r | None \<Rightarrow> ''kebab-case'')"

definition variant_rename :: "string \<Rightarrow> variant \<Rightarrow> string" where
  "variant_rename rename_all v = (case container_rename_all (v_attrs v) of Some r \<Rightarrow> r | None \<Rightarrow> rename_all)"

definition variant_typed :: "string \<Rightarrow> variant \<Rightarrow> payload_value \<Rightarrow> bool" where
  "variant_typed rename_all v p =
     (case v_fields v of
        FieldsUnit \<Rightarrow> (case p of PUnit \<Rightarrow> True | _ \<Rightarrow> False)
      | FieldsUnnamed _ \<Rightarrow> (case p of PTuple _ \<Rightarrow> True | _ \<Rightarrow> False)
      | FieldsNamed fs \<Rightarrow>
          (case p of PNamed vs \<Rightarrow> list_all2 (named_typed (variant_rename rename_all v)) fs vs | _ \<Rightarrow> False))"

definition variant_tokens :: "string \<Rightarrow> variant \<Rightarrow> payload_value \<Rightarrow> os_string list" where
  "variant_tokens rename_all v p =
     (case variant_name (v_attrs v) (v_ident v) rename_all of Inl _ \<Rightarrow> [] | Inr name \<Rightarrow> [name])
     @ (case p of
          PUnit \<Rightarrow> []
        | PTuple ts \<Rightarrow> ts
        | PNamed vs \<Rightarrow>
            (case v_fields v of
               FieldsNamed fs \<Rightarrow> concat (map2 (named_tokens (variant_rename rename_all v)) fs vs) | _ \<Rightarrow> []))"

definition item_typed :: "derive_input \<Rightarrow> item_value \<Rightarrow> bool" where
  "item_typed input v =
     (case v of
        StructValue vs \<Rightarrow>
          (case di_data input of
             DataStruct (FieldsNamed fs) \<Rightarrow> list_all2 (named_typed (item_rename input)) fs vs | _ \<Rightarrow> False)
      | EnumValue n p \<Rightarrow>
          (case di_data input of
             DataEnum vars \<Rightarrow> n < length vars \<and> variant_typed (item_rename input) (vars ! n) p | _ \<Rightarrow> False))"

definition item_tokens :: "derive_input \<Rightarrow> item_value \<Rightarrow> os_string list" where
  "item_tokens input v =
     (case v of
        StructValue vs \<Rightarrow>
          (case di_data input of
             DataStruct (FieldsNamed fs) \<Rightarrow> concat (map2 (named_tokens (item_rename input)) fs vs) | _ \<Rightarrow> [])
      | EnumValue n p \<Rightarrow>
          (case di_data input of DataEnum vars \<Rightarrow> variant_tokens (item_rename input) (vars ! n) p | _ \<Rightarrow> []))"

lemma res_collect_nth:
  "res_collect f xs = Inr ys \<Longrightarrow> n < length xs \<Longrightarrow> n < length ys \<and> f (xs ! n) = Inr (ys ! n)"
  by (induction xs arbitrary: ys n) (auto simp: nth_Cons split: sum.splits nat.splits)

lemma run_arm_tokens:
  assumes "expand_variant rename_all v = Inr a" "variant_typed rename_all v p"
  shows "run_arm a p argv = Some (argv @ variant_tokens rename_all v p)"
proof (cases "v_fields v")
  case (FieldsNamed fs)
  with assms(2) obtain vs where p: "p = PNamed vs"
    "list_all2 (named_typed (variant_rename rename_all v)) fs vs"
    by (auto simp: variant_typed_def split: payload_value.splits)
  obtain name cs where "variant_name (v_attrs v) (v_ident v) rename_all = Inr name"
    "res_collect (emit_named_field (variant_rename rename_all v)) fs = Inr cs" "a = ArmNamed name cs"
    using assms(1) FieldsNamed by (auto simp: expand_variant_def variant_rename_def Let_def res_simps)
  then show ?thesis using run_fields_tokens[OF _ p(2)] p(1) FieldsNamed by (simp add: variant_tokens_def)
qed (use assms in \<open>auto simp: expand_variant_def variant_typed_def variant_tokens_def res_simps
    split: payload_value.splits if_splits\<close>)

lemma item_code:
  assumes "expand input = Inr body" "item_typed input v"
  shows "append_argv body v argv = Some (argv @ item_tokens input v)"
proof (cases v)
  case (StructValue vs)
  then obtain fs where fs: "di_data input = DataStruct (FieldsNamed fs)"
    "list_all2 (named_typed (item_rename input)) fs vs"
    using assms(2) by (auto simp: item_typed_def split: data.splits fields.splits)
  then obtain cs where "res_collect (emit_named_field (item_rename input)) fs = Inr cs" "body = StructBody cs"
    using assms(1) by (auto simp: expand_def expand_struct_def item_rename_def Let_def res_simps)
  then show ?thesis using run_fields_tokens[OF _ fs(2)] fs(1) StructValue by (simp add: item_tokens_def)
next
  case (EnumValue n p)
  then obtain vars where vars: "di_data input = DataEnum vars" "n < length vars"
    "variant_typed (item_rename input) (vars ! n) p"
    using assms(2) by (auto simp: item_typed_def split: data.splits fields.splits)
  then obtain arms where arms: "res_collect (expand_variant (item_rename input)) vars = Inr arms" "body = EnumBody arms"
    using assms(1) by (auto simp: expand_def expand_enum_def item_rename_def Let_def res_simps)
  from res_collect_nth[OF arms(1) vars(2)] run_arm_tokens[OF _ vars(3)] show ?thesis
    using arms(2) vars(1) EnumValue by (simp add: item_tokens_def)
qed

lemma split_join:
  assumes "vs \<noteq> []" "list_all (\<lambda>v. ch \<notin> set v) vs"
  shows "split_on ch (join_with [ch] vs) = vs"
  using assms
  by (induction "[ch]" vs rule: join_with.induct) (auto simp: split_on_absent split_on_append)

lemma option_args_inject: "option_args cfg v = option_args cfg w \<Longrightarrow> v = w"
  by (auto simp: option_args_def split: option.splits if_splits)

lemma option_args_length: "length (option_args cfg v) = length (option_args cfg w)"
  by (auto simp: option_args_def split: option.splits)

lemma option_args_not_Nil: "option_args cfg v \<noteq> []"
  by (auto simp: option_args_def split: option.splits)

lemma concat_option_args_inject:
  "concat (map (option_args cfg) vs) = concat (map (option_args cfg) ws) \<Longrightarrow> vs = ws"
proof (induction vs arbitrary: ws)
  case Nil
  then show ?case using option_args_not_Nil by (cases ws) auto
next
  case (Cons v vs)
  then obtain w ws' where ws: "ws = w # ws'" using option_args_not_Nil by (cases ws) auto
  then show ?case
    using Cons option_args_inject[of cfg v w] option_args_length[of cfg v w] by (auto simp: append_eq_append_conv)
qed

section \<open>Properties\<close>

text \<open>C11. The derived encoder is correct: for a struct or an enum that the macro accepts, and a value whose
  fields have the types the generated code needs, the generated code does not get stuck and appends
  exactly what the attributes prescribe: the name of the variant first, then the arguments of each field
  in declaration order.\<close>

theorem derived_encoder_correct:
  assumes "expand input = Inr body" "item_typed input v"
  shows "append_argv body v argv = Some (argv @ item_tokens input v)"
  using assms by (rule item_code)

text \<open>The type \<open>RunArgs\<close> of the crate's tests.\<close>

definition plain_ty :: "string \<Rightarrow> rtype" where
  "plain_ty name = TyPath False [PathSeg name None]"

definition generic_ty :: "string \<Rightarrow> rtype \<Rightarrow> rtype" where
  "generic_ty name ty = TyPath False [PathSeg name (Some [GenType ty])]"

definition arg_attr :: "meta list \<Rightarrow> attribute" where
  "arg_attr ms = \<lparr>at_path = ''arg'', at_metas = Inr ms\<rparr>"

definition lit_true :: expr where
  "lit_true = \<lparr>ex_lit = Some (LitBool True), ex_tokens = ''true''\<rparr>"

definition run_args_fields :: "field list" where
  "run_args_fields =
     [\<lparr>f_ident = ''input'', f_attrs = [], f_ty = plain_ty ''PathBuf''\<rparr>,
      \<lparr>f_ident = ''output'', f_attrs = [arg_attr [MetaPath ''long'']], f_ty = generic_ty ''Option'' (plain_ty ''PathBuf'')\<rparr>,
      \<lparr>f_ident = ''includes'',
       f_attrs = [arg_attr [MetaNameValue ''long'' \<lparr>ex_lit = Some (LitStr ''include''), ex_tokens = ''include''\<rparr>]],
       f_ty = generic_ty ''Vec'' (plain_ty ''String'')\<rparr>,
      \<lparr>f_ident = ''mode'', f_attrs = [arg_attr [MetaPath ''long'', MetaPath ''value_enum'']], f_ty = plain_ty ''Mode''\<rparr>,
      \<lparr>f_ident = ''jobs'', f_attrs = [arg_attr [MetaPath ''long'', MetaNameValue ''require_equals'' lit_true]],
       f_ty = plain_ty ''usize''\<rparr>,
      \<lparr>f_ident = ''common'', f_attrs = [\<lparr>at_path = ''command'', at_metas = Inr [MetaPath ''flatten'']\<rparr>],
       f_ty = plain_ty ''Common''\<rparr>,
      \<lparr>f_ident = ''trailing'', f_attrs = [arg_attr [MetaNameValue ''last'' lit_true]],
       f_ty = generic_ty ''Vec'' (plain_ty ''OsString'')\<rparr>]"

definition run_args_value :: "field_value list" where
  "run_args_value =
     [FOne (SText ''input.pdf''), FOption (Some (SText ''out.md'')), FVec [SText ''one'', SText ''two''],
      FOne (SEnum (Some ''careful'')), FOne (SInt 8), FOne (SNested [''--verbose'', ''-q'', ''-q'']),
      FVec [SText ''--literal'', SText ''value'']]"

definition run_args_input :: derive_input where
  "run_args_input = \<lparr>di_attrs = [], di_data = DataStruct (FieldsNamed run_args_fields)\<rparr>"

theorem derived_encoder_correct_witness:
  "append_argv (projr (expand run_args_input)) (StructValue run_args_value) [''run''] =
   Some [''run'', ''input.pdf'', ''--output'', ''out.md'', ''--include'', ''one'', ''--include'', ''two'',
         ''--mode'', ''careful'', ''--jobs=8'', ''--verbose'', ''-q'', ''-q'', ''--'', ''--literal'', ''value'']"
proof -
  have "is_ok (expand run_args_input)" by code_simp
  then have e: "expand run_args_input = Inr (projr (expand run_args_input))"
    by (auto simp: is_ok_iff)
  have t: "item_typed run_args_input (StructValue run_args_value)" by code_simp
  have v: "item_tokens run_args_input (StructValue run_args_value) =
     [''input.pdf'', ''--output'', ''out.md'', ''--include'', ''one'', ''--include'', ''two'',
      ''--mode'', ''careful'', ''--jobs=8'', ''--verbose'', ''-q'', ''-q'', ''--'', ''--literal'', ''value'']"
    by code_simp
  show ?thesis using derived_encoder_correct[OF e t, of "[''run'']"] by (simp only: v) simp
qed

text \<open>Two lists of values that a field would encode alike are equal, as long as, in a delimited vector, no
  value contains the delimiter.\<close>

lemma value_args_injective:
  assumes "value_args cfg vector vs = value_args cfg vector ws"
    and "case fc_value_delimiter cfg of
        None \<Rightarrow> True
      | Some d \<Rightarrow> if vector then (case d of [ch] \<Rightarrow> list_all (\<lambda>v. ch \<notin> set v) (vs @ ws) | _ \<Rightarrow> False) else True"
  shows "vs = ws"
proof -
  define E where "E us = (case fc_value_delimiter cfg of
      Some d \<Rightarrow> if vector then option_args cfg (join_with d us) else concat (map (option_args cfg) us)
    | None \<Rightarrow> concat (map (option_args cfg) us))" for us
  have ne: "E us \<noteq> []" if "us \<noteq> []" for us
    using that option_args_not_Nil by (cases us) (auto simp: E_def split: option.splits)
  have V: "value_args cfg vector us = (if us = [] then [] else (if needs_separator cfg then [''--''] else []) @ E us)" for us
    by (simp add: value_args_def E_def)
  have inj: "vs = ws" if eq: "E vs = E ws" and n: "vs \<noteq> []" "ws \<noteq> []"
  proof (cases "vector \<and> fc_value_delimiter cfg \<noteq> None")
    case True
    then obtain ch where d: "fc_value_delimiter cfg = Some [ch]" "list_all (\<lambda>v. ch \<notin> set v) (vs @ ws)"
      using assms(2) by (auto split: option.splits list.splits if_splits)
    then have "join_with [ch] vs = join_with [ch] ws"
      using eq True option_args_inject by (auto simp: E_def)
    then show ?thesis using split_join[OF n(1)] split_join[OF n(2)] d(2) by (metis list_all_append)
  next
    case False
    then have "concat (map (option_args cfg) vs) = concat (map (option_args cfg) ws)"
      using eq by (auto simp: E_def split: option.splits)
    then show ?thesis by (rule concat_option_args_inject)
  qed
  show ?thesis
    using assms(1) inj ne unfolding V by (cases "vs = []"; cases "ws = []") (auto split: if_splits)
qed

text \<open>C39. Nothing is lost in the arguments of a vector field: if the generated code appends the same
  arguments for two vectors of texts, the vectors are equal, as long as no value of a delimited field
  contains the delimiter. So a value that looks like a flag or is empty is kept as it is.\<close>

theorem vector_encoding_injective:
  assumes "run_code (emit_vector (field_flag cfg) cfg (needs_separator cfg)) (FVec (map SText vs)) argv =
      run_code (emit_vector (field_flag cfg) cfg (needs_separator cfg)) (FVec (map SText ws)) argv"
    and "\<not> fc_value_enum cfg"
    and "case fc_value_delimiter cfg of
        None \<Rightarrow> True | Some [ch] \<Rightarrow> list_all (\<lambda>v. ch \<notin> set v) (vs @ ws) | _ \<Rightarrow> False"
  shows "vs = ws"
proof -
  have txt1: "convert (conversion_of (fc_value_enum cfg)) (SText v) = Some v" for v
    using assms(2) by (simp add: convert_def conversion_of_def)
  have enc: "run_code (emit_vector (field_flag cfg) cfg (needs_separator cfg)) (FVec (map SText us)) argv =
      Some (argv @ value_args cfg True us)" for us
    using run_vector[of cfg "map SText us" argv] by (simp add: txt1 list_all_iff comp_def)
  show ?thesis
  proof (rule value_args_injective)
    show "value_args cfg True vs = value_args cfg True ws" using assms(1) by (simp add: enc)
  qed (use assms(3) in \<open>auto split: option.splits list.splits\<close>)
qed

theorem vector_encoding_injective_witness:
  "map (\<lambda>c. [c]) ''ab'' = [''a'', ''b'']
   \<and> run_code (emit_vector (Some ''--values'') (cfg_default\<lparr>fc_long := Some ''values'', fc_value_delimiter := Some '',''\<rparr>)
       False) (FVec (map SText [''a'', ''b''])) [] = Some [''--values'', ''a,b'']"
proof -
  let ?cfg = "cfg_default\<lparr>fc_long := Some ''values'', fc_value_delimiter := Some '',''\<rparr>"
  have v: "run_code (emit_vector (Some ''--values'') ?cfg False) (FVec (map SText [''a'', ''b''])) []
      = Some [''--values'', ''a,b'']"
    by code_simp
  have w: "run_code (emit_vector (field_flag ?cfg) ?cfg (needs_separator ?cfg)) (FVec (map SText (map (\<lambda>c. [c]) ''ab''))) []
      = run_code (emit_vector (field_flag ?cfg) ?cfg (needs_separator ?cfg)) (FVec (map SText [''a'', ''b''])) []"
    by simp
  have "case fc_value_delimiter ?cfg of None \<Rightarrow> True
      | Some [ch] \<Rightarrow> list_all (\<lambda>v. ch \<notin> set v) (map (\<lambda>c. [c]) ''ab'' @ [''a'', ''b'']) | _ \<Rightarrow> False"
    "\<not> fc_value_enum ?cfg"
    by code_simp+
  with vector_encoding_injective[OF w] v show ?thesis by blast
qed

text \<open>The condition is needed: the encoder does not protect a delimiter inside a value.\<close>

lemma delimiter_is_ambiguous:
  "value_args (cfg_default\<lparr>fc_long := Some ''values'', fc_value_delimiter := Some '',''\<rparr>) True [''a,b'']
   = value_args (cfg_default\<lparr>fc_long := Some ''values'', fc_value_delimiter := Some '',''\<rparr>) True [''a'', ''b'']"
  by code_simp

end
