(* ===== verification/Doctor.thy ===== *)
theory Doctor
  imports Outboard_Prelude
begin

text \<open>
  The self-diagnosis a plugin reports: \<open>src/crates/outboard-core/src/doctor.rs\<close>. The statuses are
  ordered by severity, which the specification of a report's status uses.
\<close>

datatype doctor_status = DoctorPass | DoctorWarn | DoctorFail

record doctor_check =
  dc_name :: string
  dc_status :: doctor_status
  dc_message :: string

definition check_pass :: "string \<Rightarrow> string \<Rightarrow> doctor_check" where
  "check_pass n m = \<lparr>dc_name = n, dc_status = DoctorPass, dc_message = m\<rparr>"

definition check_warn :: "string \<Rightarrow> string \<Rightarrow> doctor_check" where
  "check_warn n m = \<lparr>dc_name = n, dc_status = DoctorWarn, dc_message = m\<rparr>"

definition check_fail :: "string \<Rightarrow> string \<Rightarrow> doctor_check" where
  "check_fail n m = \<lparr>dc_name = n, dc_status = DoctorFail, dc_message = m\<rparr>"

record doctor_report =
  dr_status :: doctor_status
  dr_checks :: "doctor_check list"

definition from_checks :: "doctor_check list \<Rightarrow> doctor_report" where
  "from_checks cs =
     \<lparr>dr_status =
        (if list_ex (\<lambda>c. dc_status c = DoctorFail) cs then DoctorFail
         else if list_ex (\<lambda>c. dc_status c = DoctorWarn) cs then DoctorWarn
         else DoctorPass),
      dr_checks = cs\<rparr>"

definition report_healthy :: doctor_report where
  "report_healthy = from_checks [check_pass ''plugin'' ''plugin reports healthy'']"

definition is_healthy :: "doctor_report \<Rightarrow> bool" where
  "is_healthy r = (dr_status r \<noteq> DoctorFail)"

section \<open>Severity\<close>

fun severity :: "doctor_status \<Rightarrow> nat" where
  "severity DoctorPass = 0"
| "severity DoctorWarn = 1"
| "severity DoctorFail = 2"

instantiation doctor_status :: linorder
begin

definition less_eq_doctor_status :: "doctor_status \<Rightarrow> doctor_status \<Rightarrow> bool" where
  "less_eq_doctor_status a b = (severity a \<le> severity b)"

definition less_doctor_status :: "doctor_status \<Rightarrow> doctor_status \<Rightarrow> bool" where
  "less_doctor_status a b = (severity a < severity b)"

instance
proof
  fix a b :: doctor_status
  assume "a \<le> b" "b \<le> a"
  then show "a = b" by (cases a; cases b) (simp_all add: less_eq_doctor_status_def)
qed (auto simp: less_eq_doctor_status_def less_doctor_status_def)

end

lemma doctor_status_bounds [simp]: "DoctorPass \<le> s" "s \<le> DoctorFail"
  by (cases s; simp add: less_eq_doctor_status_def)+

lemma from_checks_mem: "dr_status (from_checks cs) \<in> insert DoctorPass (dc_status ` set cs)"
  by (auto simp: from_checks_def list_ex_iff) (metis image_eqI)+

lemma from_checks_bound:
  assumes "c \<in> set cs"
  shows "dc_status c \<le> dr_status (from_checks cs)"
  using assms
  by (cases "dc_status c") (auto simp: from_checks_def list_ex_iff less_eq_doctor_status_def)

text \<open>The status of a report built by \<open>DoctorReport::from_checks\<close> is the most severe status
  of its checks (\<open>Pass\<close> when there is none), so it is healthy exactly when no check failed.\<close>

theorem report_status_is_worst:
  "dr_status (from_checks cs) = Max (insert DoctorPass (dc_status ` set cs))
   \<and> (is_healthy (from_checks cs) \<longleftrightarrow> (\<nexists>c. c \<in> set cs \<and> dc_status c = DoctorFail))"
proof
  show "dr_status (from_checks cs) = Max (insert DoctorPass (dc_status ` set cs))"
    by (rule sym, rule Max_eqI) (use from_checks_mem from_checks_bound in auto)
  show "is_healthy (from_checks cs) \<longleftrightarrow> (\<nexists>c. c \<in> set cs \<and> dc_status c = DoctorFail)"
    by (auto simp: is_healthy_def from_checks_def list_ex_iff)
qed

end
