(* ===== verification/Control.thy ===== *)
theory Control
  imports Protocol Doctor
begin

text \<open>
  The reserved control arguments of a plugin: \<open>src/crates/outboard/src/control.rs\<close>. The JSON texts
  of the answers are those of \<open>serde_json\<close>, the parameter \<open>control_codec\<close>: serialising these types
  cannot fail on its own, and an error of the output stream surfaces as a JSON error.
\<close>

section \<open>Data\<close>

datatype control_request = CtlManifest | CtlDoctor | CtlCliSchema | CtlPing | CtlServe

datatype control_dispatch = NotControl | Handled | DispatchServe

datatype control_error =
    UnknownCommand os_string
  | MissingCommand
  | NoCliSchema
  | CtlJson json_error
  | CtlIo io_error

record ('v, 'r, 'j) control_codec =
  cj_manifest :: "('v, 'r, 'j) manifest \<Rightarrow> bytes"
  cj_doctor :: "doctor_report \<Rightarrow> bytes"
  cj_value :: "'j \<Rightarrow> bytes"
  cj_ping :: "bool \<Rightarrow> string \<Rightarrow> string \<Rightarrow> bytes"
  cj_io_error :: "io_error \<Rightarrow> json_error"

record ('v, 'r, 'j) control_dispatcher =
  cd_manifest :: "('v, 'r, 'j) manifest"
  cd_doctor :: "(unit \<Rightarrow> doctor_report) option"
  cd_cli_schema :: "(unit \<Rightarrow> 'j) option"

section \<open>Operations\<close>

definition detect_control_request :: "os_string list \<Rightarrow> control_error + control_request option" where
  "detect_control_request args =
     (case args of
        [] \<Rightarrow> Inr None
      | first # rest \<Rightarrow>
          if first \<noteq> ''__outboard'' then Inr None
          else
            (case rest of
               [] \<Rightarrow> Inl MissingCommand
             | cmd # _ \<Rightarrow>
                 let t = to_string_lossy cmd in
                 if t = ''manifest'' then Inr (Some CtlManifest)
                 else if t = ''doctor'' then Inr (Some CtlDoctor)
                 else if t = ''cli-schema'' then Inr (Some CtlCliSchema)
                 else if t = ''ping'' then Inr (Some CtlPing)
                 else if t = ''serve'' then Inr (Some CtlServe)
                 else Inl (UnknownCommand cmd)))"

definition dispatcher_new :: "('v, 'r, 'j) manifest \<Rightarrow> ('v, 'r, 'j) control_dispatcher" where
  "dispatcher_new m = \<lparr>cd_manifest = m, cd_doctor = None, cd_cli_schema = None\<rparr>"

definition dispatcher_doctor ::
    "(unit \<Rightarrow> doctor_report) \<Rightarrow> ('v, 'r, 'j) control_dispatcher \<Rightarrow> ('v, 'r, 'j) control_dispatcher" where
  "dispatcher_doctor f d = d\<lparr>cd_doctor := Some f\<rparr>"

definition dispatcher_cli_schema ::
    "(unit \<Rightarrow> 'j) \<Rightarrow> ('v, 'r, 'j) control_dispatcher \<Rightarrow> ('v, 'r, 'j) control_dispatcher" where
  "dispatcher_cli_schema f d = d\<lparr>cd_cli_schema := Some f\<rparr>"

definition write_json ::
    "('v, 'r, 'j) control_codec \<Rightarrow> bytes \<Rightarrow> ostream \<Rightarrow> (control_error + unit) \<times> ostream" where
  "write_json C b w =
     (case write_all b w of
        (Inl e, w1) \<Rightarrow> (Inl (CtlJson (cj_io_error C e)), w1)
      | (Inr _, w1) \<Rightarrow>
          (case write_all [10] w1 of
             (Inl e, w2) \<Rightarrow> (Inl (CtlIo e), w2)
           | (Inr _, w2) \<Rightarrow> (res_map_err CtlIo (flush w2), w2)))"

definition handled ::
    "('v, 'r, 'j) control_codec \<Rightarrow> bytes \<Rightarrow> ostream \<Rightarrow> (control_error + control_dispatch) \<times> ostream" where
  "handled C b w =
     (case write_json C b w of (Inl e, w') \<Rightarrow> (Inl e, w') | (Inr _, w') \<Rightarrow> (Inr Handled, w'))"

definition dispatch ::
    "('v, 'r, 'j) crates \<Rightarrow> ('v, 'r, 'j) control_codec \<Rightarrow> ('v, 'r, 'j) control_dispatcher
     \<Rightarrow> os_string list \<Rightarrow> ostream \<Rightarrow> (control_error + control_dispatch) \<times> ostream" where
  "dispatch X C d args w =
     (case detect_control_request args of
        Inl e \<Rightarrow> (Inl e, w)
      | Inr None \<Rightarrow> (Inr NotControl, w)
      | Inr (Some CtlServe) \<Rightarrow> (Inr DispatchServe, w)
      | Inr (Some CtlManifest) \<Rightarrow> handled C (cj_manifest C (cd_manifest d)) w
      | Inr (Some CtlDoctor) \<Rightarrow>
          handled C (cj_doctor C (case cd_doctor d of None \<Rightarrow> report_healthy | Some f \<Rightarrow> f ())) w
      | Inr (Some CtlCliSchema) \<Rightarrow>
          (case cd_cli_schema d of
             None \<Rightarrow> (Inl NoCliSchema, w)
           | Some f \<Rightarrow> handled C (cj_value C (f ())) w)
      | Inr (Some CtlPing) \<Rightarrow>
          handled C (cj_ping C True (plugin_id_to_string (pm_id (m_plugin (cd_manifest d))))
            (show_version X (pm_version (m_plugin (cd_manifest d))))) w)"

text \<open>\<open>dispatch_from_env\<close>: the arguments of the process without its own name.\<close>

definition dispatch_from_env ::
    "('v, 'r, 'j) crates \<Rightarrow> ('v, 'r, 'j) control_codec \<Rightarrow> ('v, 'r, 'j) control_dispatcher
     \<Rightarrow> os_string list \<Rightarrow> ostream \<Rightarrow> (control_error + control_dispatch) \<times> ostream" where
  "dispatch_from_env X C d argv w = dispatch X C d (drop 1 argv) w"

section \<open>Lemmas\<close>

text \<open>The keyword of each request.\<close>

fun control_keyword :: "control_request \<Rightarrow> string" where
  "control_keyword CtlManifest = ''manifest''"
| "control_keyword CtlDoctor = ''doctor''"
| "control_keyword CtlCliSchema = ''cli-schema''"
| "control_keyword CtlPing = ''ping''"
| "control_keyword CtlServe = ''serve''"

lemma control_keyword_ascii: "is_ascii (control_keyword r)"
  by (cases r) (simp_all add: is_ascii_def)

lemma control_keyword_inject [simp]: "control_keyword r = control_keyword q \<longleftrightarrow> r = q"
  by (cases r; cases q) simp_all

lemma detect_keyword:
  "detect_control_request (''__outboard'' # cmd # rest) =
     (if \<exists>r. cmd = control_keyword r then Inr (Some (THE r. cmd = control_keyword r))
      else Inl (UnknownCommand cmd))"
proof -
  have eq: "to_string_lossy cmd = control_keyword r \<longleftrightarrow> cmd = control_keyword r" for r
    by (rule to_string_lossy_eq_ascii[OF control_keyword_ascii])
  show ?thesis
  proof (cases "\<exists>r. cmd = control_keyword r")
    case True
    then obtain r where r: "cmd = control_keyword r" by blast
    then have "to_string_lossy cmd = control_keyword r" using eq by blast
    then have "detect_control_request (''__outboard'' # cmd # rest) = Inr (Some r)"
      by (cases r) (simp_all add: detect_control_request_def)
    then show ?thesis using r by simp
  next
    case False
    then have "to_string_lossy cmd \<noteq> control_keyword r" for r using eq by blast
    from this[of CtlManifest] this[of CtlDoctor] this[of CtlCliSchema] this[of CtlPing] this[of CtlServe]
    show ?thesis using False by (simp add: detect_control_request_def Let_def)
  qed
qed

lemma detect_some_iff:
  "detect_control_request args = Inr (Some r) \<longleftrightarrow>
     (\<exists>rest. args = ''__outboard'' # control_keyword r # rest)"
proof (cases args)
  case Nil
  then show ?thesis by (simp add: detect_control_request_def)
next
  case (Cons a as1)
  then show ?thesis
    using detect_keyword[of "hd as1" "tl as1"]
    by (cases as1; cases "a = ''__outboard''") (auto simp: detect_control_request_def)
qed

lemma detect_none_iff:
  "detect_control_request args = Inr None \<longleftrightarrow>
     (case args of [] \<Rightarrow> True | first # _ \<Rightarrow> first \<noteq> ''__outboard'')"
  by (auto simp: detect_control_request_def Let_def split: list.splits)

lemma handled_ok:
  "handled C b w = (Inr Handled, w') \<Longrightarrow> out_bytes w' = out_bytes w @ b @ [10]"
  by (auto simp: handled_def write_json_def split: prod.splits sum.splits dest!: write_all_ok)

lemma handled_total:
  assumes "out_limit w = None" "out_flush w = None"
  shows "handled C b w = (Inr Handled, w\<lparr>out_bytes := out_bytes w @ b @ [10]\<rparr>)"
  using assms by (simp add: handled_def write_json_def write_all_def flush_def)

section \<open>Properties\<close>

text \<open>C28. Exactly the argument vectors that begin with \<open>__outboard\<close> are control requests: each of the
  five keywords, compared byte for byte, is its request, anything else after \<open>__outboard\<close> is an error
  that names it, and the program's own command line is never taken for a control request.\<close>

theorem control_detection_exact:
  "(detect_control_request args = Inr (Some r) \<longleftrightarrow>
      (\<exists>rest. args = ''__outboard'' # control_keyword r # rest))
   \<and> (detect_control_request args = Inr None \<longleftrightarrow>
        (case args of [] \<Rightarrow> True | first # _ \<Rightarrow> first \<noteq> ''__outboard''))
   \<and> (detect_control_request args = Inl MissingCommand \<longleftrightarrow> args = [''__outboard''])
   \<and> (detect_control_request args = Inl (UnknownCommand cmd) \<longleftrightarrow>
        (\<exists>rest. args = ''__outboard'' # cmd # rest) \<and> (\<nexists>q. cmd = control_keyword q))"
proof -
  have "detect_control_request args = Inl MissingCommand \<longleftrightarrow> args = [''__outboard'']"
    by (auto simp: detect_control_request_def Let_def split: list.splits)
  moreover have "detect_control_request args = Inl (UnknownCommand cmd) \<longleftrightarrow>
      (\<exists>rest. args = ''__outboard'' # cmd # rest) \<and> (\<nexists>q. cmd = control_keyword q)"
  proof (cases "\<exists>c rest. args = ''__outboard'' # c # rest")
    case True
    then show ?thesis by (auto simp: detect_keyword split: if_splits)
  next
    case False
    then show ?thesis by (auto simp: detect_control_request_def Let_def split: list.splits)
  qed
  ultimately show ?thesis using detect_some_iff detect_none_iff by blast
qed

text \<open>The output stream broke.\<close>

fun stream_failed :: "control_error + control_dispatch \<Rightarrow> bool" where
  "stream_failed (Inl (CtlJson e)) = True"
| "stream_failed (Inl (CtlIo e)) = True"
| "stream_failed _ = False"

lemma handled_cases:
  "fst (handled C b w) = Inr Handled \<and> out_bytes (snd (handled C b w)) = out_bytes w @ b @ [10]
   \<or> stream_failed (fst (handled C b w))"
  using handled_ok[of C b w "snd (handled C b w)"]
  by (auto simp: handled_def write_json_def res_map_err_def flush_def
      split: prod.splits sum.splits option.splits)

text \<open>The dispatcher answers with one line-terminated document and only when it handled the request:
  when it returns \<open>NotControl\<close> or \<open>Serve\<close>, or refuses the arguments, the output is untouched, so the
  program's own output and the worker protocol are not disturbed.\<close>

theorem dispatch_output:
  "stream_failed (fst (dispatch X C d args w))
   \<or> (if fst (dispatch X C d args w) = Inr Handled
      then \<exists>b. out_bytes (snd (dispatch X C d args w)) = out_bytes w @ b @ [10]
      else snd (dispatch X C d args w) = w)"
proof (cases "detect_control_request args")
  case (Inl e)
  then show ?thesis by (simp add: dispatch_def)
next
  case (Inr r)
  have h: "stream_failed (fst (handled C b w)) \<or> (fst (handled C b w) = Inr Handled
      \<and> (\<exists>x. out_bytes (snd (handled C b w)) = out_bytes w @ x @ [10]))" for b
    using handled_cases[of C b w] by blast
  have n: "fst (handled C b w) = Inr Handled \<Longrightarrow> \<exists>x. out_bytes (snd (handled C b w)) = out_bytes w @ x @ [10]" for b
    using h[of b] by auto
  show ?thesis
  proof (cases r)
    case None
    then show ?thesis using Inr by (simp add: dispatch_def)
  next
    case (Some q)
    then show ?thesis
      using Inr h n by (cases q) (auto simp: dispatch_def split: option.splits)
  qed
qed

text \<open>Every request is answered: on an output stream that works, \<open>manifest\<close>, \<open>doctor\<close> and
  \<open>ping\<close> are always handled, with the manifest, the report (healthy if the plugin gave none) and
  the identity; \<open>cli-schema\<close> is handled exactly when the plugin provides a schema.\<close>

theorem dispatch_answers:
  assumes "out_limit w = None" and "out_flush w = None"
  shows "dispatch X C d (''__outboard'' # ''manifest'' # rest) w =
      (Inr Handled, w\<lparr>out_bytes := out_bytes w @ cj_manifest C (cd_manifest d) @ [10]\<rparr>)
    \<and> dispatch X C d (''__outboard'' # ''doctor'' # rest) w =
      (Inr Handled, w\<lparr>out_bytes := out_bytes w @
         cj_doctor C (case cd_doctor d of None \<Rightarrow> report_healthy | Some f \<Rightarrow> f ()) @ [10]\<rparr>)
    \<and> fst (dispatch X C d (''__outboard'' # ''ping'' # rest) w) = Inr Handled
    \<and> (fst (dispatch X C d (''__outboard'' # ''cli-schema'' # rest) w) =
         (if cd_cli_schema d = None then Inl NoCliSchema else Inr Handled))"
proof -
  have "detect_control_request (''__outboard'' # control_keyword r # rest) = Inr (Some r)" for r
    by (simp add: detect_some_iff)
  from this[of CtlManifest] this[of CtlDoctor] this[of CtlPing] this[of CtlCliSchema]
  show ?thesis
    by (auto simp: dispatch_def handled_total[OF assms] split: option.splits)
qed

definition sample_control_codec :: "(version3, version3, string) control_codec" where
  "sample_control_codec = \<lparr>cj_manifest = (\<lambda>_. [1]), cj_doctor = (\<lambda>_. [2]), cj_value = (\<lambda>_. [3]),
     cj_ping = (\<lambda>_ _ _. [4]), cj_io_error = (\<lambda>_. ''io'')\<rparr>"

definition open_stream :: ostream where
  "open_stream = \<lparr>out_bytes = [], out_limit = None, out_flush = None\<rparr>"

theorem dispatch_answers_witness:
  "dispatch caret_crates sample_control_codec (dispatcher_new sample_manifest)
     [''__outboard'', ''manifest''] open_stream = (Inr Handled, open_stream\<lparr>out_bytes := [1, 10]\<rparr>)"
  using dispatch_answers[of open_stream caret_crates sample_control_codec "dispatcher_new sample_manifest" "[]"]
  by (simp add: open_stream_def sample_control_codec_def)

end
