(* ===== verification/Demo_Engine.thy ===== *)
theory Demo_Engine
  imports Tokio_Session Argv Control
begin

text \<open>
  The reference plugin: the interface of \<open>src/examples/demo-api/src/lib.rs\<close> and the program
  \<open>src/examples/demo-engine-echo/src/main.rs\<close>. The argument types go through the model of the derive
  macro. What the programs take from outside their sources is the record \<open>demo_env\<close>: \<open>clap\<close>'s parser
  for \<open>EngineCli\<close> and the names of its value enum, the parsers of \<open>semver\<close>, \<open>serde_json\<close>, Unicode's case
  mappings, the quotient of two integers as an \<open>f64\<close>, and the id of the process. An \<open>unwrap\<close> that fails
  is \<open>None\<close>.
\<close>

section \<open>The interface\<close>

datatype case_mode = Keep | Upper | Lower

definition case_mode_default :: case_mode where
  "case_mode_default = Keep"

record echo_args =
  ea_message :: string
  ea_repeat :: u64
  ea_case :: case_mode
  ea_tags :: "string list"
  ea_prefix :: "string option"

record delay_args =
  dl_milliseconds :: u64
  dl_steps :: u32
  dl_result :: string

datatype engine_command = EngineEcho echo_args | EngineDelay delay_args

record engine_cli =
  cli_command :: engine_command

record echo_result =
  er_text :: string
  er_tags :: "string list"
  er_process_id :: u32

record ('v, 'r, 'j) demo_env =
  de_crates :: "('v, 'r, 'j) crates"
  de_version :: "string \<Rightarrow> string + 'v"
  de_version_req :: "string \<Rightarrow> string + 'r"
  de_case_name :: "case_mode \<Rightarrow> string option"
  de_try_parse_from :: "os_string list \<Rightarrow> string + engine_cli"
  de_uppercase :: "string \<Rightarrow> string"
  de_lowercase :: "string \<Rightarrow> string"
  de_echo_value :: "echo_result \<Rightarrow> json_error + 'j"
  de_echo_text :: "echo_result \<Rightarrow> json_error + string"
  de_delay_value :: "string \<Rightarrow> u32 \<Rightarrow> 'j"
  de_value_text :: "'j \<Rightarrow> string"
  de_quotient :: "nat \<Rightarrow> nat \<Rightarrow> f64"
  de_process_id :: u32

definition unwrap :: "'e + 'a \<Rightarrow> 'a option" where
  "unwrap r = (case r of Inl _ \<Rightarrow> None | Inr x \<Rightarrow> Some x)"

lemma unwrap_simps [simp]: "unwrap (Inl e) = None" "unwrap (Inr x) = Some x"
  by (simp_all add: unwrap_def)

definition demo_interface_id :: "interface_id option" where
  "demo_interface_id = unwrap (interface_id_new ''demo.echo'')"

definition demo_interface_manifest :: "('v, 'r, 'j) demo_env \<Rightarrow> 'v interface_manifest option" where
  "demo_interface_manifest V =
     Option.bind (unwrap (de_version V ''1.0.0'')) (\<lambda>v. unwrap (interface_manifest_new ''demo.echo'' v))"

definition demo_interface_requirement :: "('v, 'r, 'j) demo_env \<Rightarrow> 'r interface_requirement option" where
  "demo_interface_requirement V =
     Option.bind (unwrap (de_version_req V ''^1.0'')) (\<lambda>r. unwrap (interface_requirement_new ''demo.echo'' r))"

definition run_echo :: "('v, 'r, 'j) demo_env \<Rightarrow> echo_args \<Rightarrow> echo_result" where
  "run_echo V args =
     (let text1 = (case ea_case args of
                     Keep \<Rightarrow> ea_message args
                   | Upper \<Rightarrow> de_uppercase V (ea_message args)
                   | Lower \<Rightarrow> de_lowercase V (ea_message args));
          repeated = join_with '' '' (map (\<lambda>_. text1) [0..<unat (ea_repeat args)]);
          text2 = (case ea_prefix args of None \<Rightarrow> repeated | Some p \<Rightarrow> p @ repeated) in
      \<lparr>er_text = text2, er_tags = ea_tags args, er_process_id = de_process_id V\<rparr>)"

section \<open>The argument types as the derive macro sees them\<close>

definition str_expr :: "string \<Rightarrow> expr" where
  "str_expr v = \<lparr>ex_lit = Some (LitStr v), ex_tokens = [char_of (34 :: nat)] @ v @ [char_of (34 :: nat)]\<rparr>"

definition num_expr :: "string \<Rightarrow> expr" where
  "num_expr v = \<lparr>ex_lit = Some LitOther, ex_tokens = v\<rparr>"

definition echo_args_input :: derive_input where
  "echo_args_input =
     \<lparr>di_attrs = [], di_data = DataStruct (FieldsNamed
       [\<lparr>f_ident = ''message'', f_attrs = [], f_ty = plain_ty ''String''\<rparr>,
        \<lparr>f_ident = ''repeat'',
         f_attrs = [arg_attr [MetaPath ''long'', MetaNameValue ''default_value_t'' (num_expr ''1'')]],
         f_ty = plain_ty ''usize''\<rparr>,
        \<lparr>f_ident = ''case'',
         f_attrs = [arg_attr [MetaPath ''long'', MetaPath ''value_enum'',
                      MetaNameValue ''default_value'' (str_expr ''keep'')]],
         f_ty = plain_ty ''CaseMode''\<rparr>,
        \<lparr>f_ident = ''tags'', f_attrs = [arg_attr [MetaNameValue ''long'' (str_expr ''tag'')]],
         f_ty = generic_ty ''Vec'' (plain_ty ''String'')\<rparr>,
        \<lparr>f_ident = ''prefix'', f_attrs = [arg_attr [MetaPath ''long'']],
         f_ty = generic_ty ''Option'' (plain_ty ''String'')\<rparr>])\<rparr>"

definition delay_args_input :: derive_input where
  "delay_args_input =
     \<lparr>di_attrs = [], di_data = DataStruct (FieldsNamed
       [\<lparr>f_ident = ''milliseconds'',
         f_attrs = [arg_attr [MetaPath ''long'', MetaNameValue ''default_value_t'' (num_expr ''500'')]],
         f_ty = plain_ty ''u64''\<rparr>,
        \<lparr>f_ident = ''steps'',
         f_attrs = [arg_attr [MetaPath ''long'', MetaNameValue ''default_value_t'' (num_expr ''5'')]],
         f_ty = plain_ty ''u32''\<rparr>,
        \<lparr>f_ident = ''result'',
         f_attrs = [arg_attr [MetaPath ''long'', MetaNameValue ''default_value'' (str_expr ''done'')]],
         f_ty = plain_ty ''String''\<rparr>])\<rparr>"

definition engine_command_input :: derive_input where
  "engine_command_input =
     \<lparr>di_attrs = [\<lparr>at_path = ''command'', at_metas = Inr [MetaNameValue ''rename_all'' (str_expr ''kebab-case'')]\<rparr>],
      di_data = DataEnum
        [\<lparr>v_ident = ''Echo'', v_attrs = [], v_fields = FieldsUnnamed [plain_ty ''EchoArgs'']\<rparr>,
         \<lparr>v_ident = ''Delay'', v_attrs = [], v_fields = FieldsUnnamed [plain_ty ''DelayArgs'']\<rparr>]\<rparr>"

definition engine_cli_input :: derive_input where
  "engine_cli_input =
     \<lparr>di_attrs = [\<lparr>at_path = ''command'', at_metas = Inr
        [MetaNameValue ''name'' (str_expr ''demo-engine''), MetaPath ''version'',
         MetaNameValue ''about'' (str_expr ''Outboard demo engine interface'')]\<rparr>],
      di_data = DataStruct (FieldsNamed
        [\<lparr>f_ident = ''command'', f_attrs = [\<lparr>at_path = ''command'', at_metas = Inr [MetaPath ''subcommand'']\<rparr>],
          f_ty = plain_ty ''EngineCommand''\<rparr>])\<rparr>"

text \<open>\<open>to_argv\<close> of a derived type; the macro accepts all four.\<close>

definition derived_argv :: "derive_input \<Rightarrow> item_value \<Rightarrow> os_string list option" where
  "derived_argv input v = (case expand input of Inl _ \<Rightarrow> None | Inr body \<Rightarrow> to_argv body v)"

definition echo_to_argv :: "('v, 'r, 'j) demo_env \<Rightarrow> echo_args \<Rightarrow> os_string list option" where
  "echo_to_argv V a =
     derived_argv echo_args_input
       (StructValue [FOne (SText (ea_message a)), FOne (SInt (int (unat (ea_repeat a)))),
          FOne (SEnum (de_case_name V (ea_case a))), FVec (map SText (ea_tags a)),
          FOption (map_option SText (ea_prefix a))])"

definition delay_to_argv :: "delay_args \<Rightarrow> os_string list option" where
  "delay_to_argv a =
     derived_argv delay_args_input
       (StructValue [FOne (SInt (int (unat (dl_milliseconds a)))), FOne (SInt (int (unat (dl_steps a)))),
          FOne (SText (dl_result a))])"

definition command_to_argv :: "('v, 'r, 'j) demo_env \<Rightarrow> engine_command \<Rightarrow> os_string list option" where
  "command_to_argv V c =
     (case c of
        EngineEcho a \<Rightarrow>
          Option.bind (echo_to_argv V a) (\<lambda>ts. derived_argv engine_command_input (EnumValue 0 (PTuple ts)))
      | EngineDelay a \<Rightarrow>
          Option.bind (delay_to_argv a) (\<lambda>ts. derived_argv engine_command_input (EnumValue 1 (PTuple ts))))"

definition cli_to_argv :: "('v, 'r, 'j) demo_env \<Rightarrow> engine_cli \<Rightarrow> os_string list option" where
  "cli_to_argv V c =
     Option.bind (command_to_argv V (cli_command c))
       (\<lambda>ts. derived_argv engine_cli_input (StructValue [FOne (SNested ts)]))"

section \<open>The plugin's program\<close>

definition engine_manifest :: "('v, 'r, 'j) demo_env \<Rightarrow> string \<Rightarrow> ('v, 'r, 'j) manifest option" where
  "engine_manifest V pkg_version =
     Option.bind (unwrap (plugin_id_new ''outboard-demo'' ''engine'' ''echo'')) (\<lambda>i.
     Option.bind (unwrap (de_version V pkg_version)) (\<lambda>v.
     Option.bind (demo_interface_manifest V) (\<lambda>im.
     Option.bind (unwrap (capability_new ''demo.progress'')) (\<lambda>c1.
     Option.bind (unwrap (capability_new ''demo.cancellation'')) (\<lambda>c2.
       unwrap (build
         (builder_control \<lparr>cc_doctor = True, cc_cli_schema = True, cc_ping = True\<rparr>
         (builder_execution [OneShot, Worker]
         (builder_capability c2 (builder_capability c1 (builder_interface im
         (builder_description ''Reference Outboard demo plugin''
         (builder_new (de_crates V) i v)))))))))))))"

definition engine_doctor :: "('v, 'r, 'j) demo_env \<Rightarrow> unit \<Rightarrow> doctor_report" where
  "engine_doctor V u =
     from_checks
       [check_pass ''runtime'' (''pid '' @ show_nat (unat (de_process_id V)) @ '' is healthy''),
        check_pass ''demo'' ''echo and delay commands available'']"

definition engine_dispatcher ::
    "('v, 'r, 'j) demo_env \<Rightarrow> 'j \<Rightarrow> ('v, 'r, 'j) manifest \<Rightarrow> ('v, 'r, 'j) control_dispatcher" where
  "engine_dispatcher V schema m =
     dispatcher_cli_schema (\<lambda>_. schema) (dispatcher_doctor (engine_doctor V) (dispatcher_new m))"

text \<open>How \<open>main\<close> ends: it returns; it goes on to serve; the dispatcher or the JSON writer fails; \<open>clap\<close>
  ends the process; or an \<open>unwrap\<close> or a \<open>println!\<close> panics.\<close>

datatype engine_exit =
    EngineOk | EngineServes | EngineDispatch control_error | EngineUsage string | EngineJson json_error
  | EnginePanic

definition println :: "string \<Rightarrow> ostream \<Rightarrow> engine_exit \<times> ostream" where
  "println t w =
     (case write_all (as_bytes (t @ [char_of (10 :: nat)])) w of
        (Inl _, w') \<Rightarrow> (EnginePanic, w')
      | (Inr _, w') \<Rightarrow> (EngineOk, w'))"

definition engine_main ::
    "('v, 'r, 'j) demo_env \<Rightarrow> ('v, 'r, 'j) control_codec \<Rightarrow> string \<Rightarrow> 'j \<Rightarrow> os_string list \<Rightarrow> ostream
     \<Rightarrow> engine_exit \<times> ostream" where
  "engine_main V C pkg_version schema argv w =
     (case engine_manifest V pkg_version of
        None \<Rightarrow> (EnginePanic, w)
      | Some m \<Rightarrow>
          (case dispatch_from_env (de_crates V) C (engine_dispatcher V schema m) argv w of
             (Inl e, w') \<Rightarrow> (EngineDispatch e, w')
           | (Inr Handled, w') \<Rightarrow> (EngineOk, w')
           | (Inr DispatchServe, w') \<Rightarrow> (EngineServes, w')
           | (Inr NotControl, w') \<Rightarrow>
               (case de_try_parse_from V argv of
                  Inl e \<Rightarrow> (EngineUsage e, w')
                | Inr cli \<Rightarrow>
                    (case cli_command cli of
                       EngineEcho a \<Rightarrow>
                         (case de_echo_text V (run_echo V a) of
                            Inl e \<Rightarrow> (EngineJson e, w')
                          | Inr t \<Rightarrow> println t w')
                     | EngineDelay a \<Rightarrow>
                         println (de_value_text V (de_delay_value V (dl_result a) (de_process_id V))) w'))))"

section \<open>The plugin's handler\<close>

text \<open>The doubles one half and one.\<close>

definition f64_half :: f64 where
  "f64_half = 0x3FE0000000000000"

definition f64_one :: f64 where
  "f64_one = 0x3FF0000000000000"

text \<open>The operator \<open>?\<close> on what the context returns.\<close>

definition try_send :: "'j async_run \<Rightarrow> 'j worker_error + unit \<Rightarrow> 'j async_run" where
  "try_send k r = (case r of Inl e \<Rightarrow> AReturn (Inl e) | Inr _ \<Rightarrow> k)"

definition engine_echo :: "('v, 'r, 'j) demo_env \<Rightarrow> echo_args \<Rightarrow> 'j async_run" where
  "engine_echo V args =
     AProgress (Some f64_half) (Some ''echoing'') (try_send
       (let result = run_echo V args in
        case de_echo_value V result of
          Inl e \<Rightarrow> AReturn (Inl (worker_error_new ''json'' e))
        | Inr v \<Rightarrow>
            AOutput (PJson v) (try_send
              (AProgress (Some f64_one) (Some ''complete'') (try_send
                (case de_echo_value V result of
                   Inl e \<Rightarrow> AReturn (Inl (worker_error_new ''json'' e))
                 | Inr v' \<Rightarrow> AReturn (Inr (result_success (PJson v')))))))))"

text \<open>The loop of \<open>worker_delay\<close> with \<open>n\<close> steps to go. The \<open>select!\<close> ends with the sleep, or with the
  cancellation if there is one: the answer says which it was. Of the steps, a \<open>u32\<close>, the sum \<open>step + 1\<close> is
  at most their number and does not overflow.\<close>

fun delay_loop :: "('v, 'r, 'j) demo_env \<Rightarrow> string \<Rightarrow> nat \<Rightarrow> nat \<Rightarrow> 'j async_run" where
  "delay_loop V res steps 0 =
     AReturn (Inr (result_success (PJson (de_delay_value V res (de_process_id V)))))"
| "delay_loop V res steps (Suc n) =
     (let step = steps - Suc n;
          slept = AProgress (Some (de_quotient V (step + 1) steps))
            (Some (''step '' @ show_nat (step + 1) @ ''/'' @ show_nat steps))
            (try_send (delay_loop V res steps n)) in
      AAwait (\<lambda>answer.
        if answer = 0 then slept
        else AIsCancelled (\<lambda>cancelled.
          if cancelled then AReturn (Inl (worker_error_new ''cancelled'' ''invocation was cancelled''))
          else slept)))"

definition engine_delay :: "('v, 'r, 'j) demo_env \<Rightarrow> delay_args \<Rightarrow> 'j async_run" where
  "engine_delay V args =
     (let steps = unat (max (dl_steps args) 1) in delay_loop V (dl_result args) steps steps)"

definition wire_string_error_to_string :: "wire_string_error \<Rightarrow> string" where
  "wire_string_error_to_string e =
     (case e of PlatformMismatch p \<Rightarrow> ''received a '' @ p @ ''-encoded OS string on a different platform'')"

definition engine_invoke :: "('v, 'r, 'j) demo_env \<Rightarrow> 'j invoke_request \<Rightarrow> 'j async_run" where
  "engine_invoke V request =
     (case res_collect (\<lambda>a. res_map_err (\<lambda>e. worker_error_new ''argv'' (wire_string_error_to_string e)) (into_os a))
             (rq_args request) of
        Inl e \<Rightarrow> AReturn (Inl e)
      | Inr args \<Rightarrow>
          (case de_try_parse_from V ([''demo-engine'', rq_command request] @ args) of
             Inl e \<Rightarrow> AReturn (Inl (worker_error_new ''clap'' e))
           | Inr cli \<Rightarrow>
               (case cli_command cli of
                  EngineEcho a \<Rightarrow> engine_echo V a
                | EngineDelay a \<Rightarrow> engine_delay V a)))"

definition demo_handler :: "('v, 'r, 'j) demo_env \<Rightarrow> 'j async_worker_handler" where
  "demo_handler V = \<lparr>ah_invoke = engine_invoke V, ah_cancel = async_cancel_default\<rparr>"

section \<open>Lemmas on the manifest\<close>

definition demo_id :: plugin_id where
  "demo_id = PluginId (Ident ''outboard-demo'') (Ident ''engine'') (Ident ''echo'')"

lemma demo_names [simp]:
  "plugin_id_new ''outboard-demo'' ''engine'' ''echo'' = Inr demo_id"
  "interface_id_new ''demo.echo'' = Inr (Ident ''demo.echo'')"
  "capability_id_new ''demo.progress'' = Inr (Ident ''demo.progress'')"
  "capability_id_new ''demo.cancellation'' = Inr (Ident ''demo.cancellation'')"
  by code_simp+

lemma demo_interface_id_eq: "demo_interface_id = Some (Ident ''demo.echo'')"
  by (simp add: demo_interface_id_def unwrap_def)

lemma demo_interface_requirement_eq:
  "de_version_req V ''^1.0'' = Inr r \<Longrightarrow>
   demo_interface_requirement V = Some \<lparr>ir_id = Ident ''demo.echo'', ir_version = r\<rparr>"
  by (simp add: demo_interface_requirement_def unwrap_def interface_requirement_new_def res_bind_def)

definition demo_manifest_of :: "('v, 'r, 'j) crates \<Rightarrow> 'v \<Rightarrow> 'v \<Rightarrow> ('v, 'r, 'j) manifest" where
  "demo_manifest_of X v iv =
     \<lparr>m_version = MANIFEST_VERSION,
      m_plugin = \<lparr>pm_id = demo_id, pm_version = v,
        pm_description = Some ''Reference Outboard demo plugin'', pm_homepage = None\<rparr>,
      m_framework = caret_framework X, m_worker_protocol = caret_protocol X,
      m_interfaces = [\<lparr>im_id = Ident ''demo.echo'', im_version = iv\<rparr>],
      m_execution = [OneShot, Worker],
      m_capabilities =
        [\<lparr>cap_id = Ident ''demo.progress'', cap_version = None, cap_properties = []\<rparr>,
         \<lparr>cap_id = Ident ''demo.cancellation'', cap_version = None, cap_properties = []\<rparr>],
      m_control = \<lparr>cc_doctor = True, cc_cli_schema = True, cc_ping = True\<rparr>, m_metadata = []\<rparr>"

lemma demo_manifest_wf: "manifest_wf (demo_manifest_of X v iv)"
proof -
  have "plugin_id_ok demo_id" by code_simp
  moreover have "ident_ok True ''demo.echo''" "ident_ok True ''demo.progress''"
    "ident_ok True ''demo.cancellation''"
    by code_simp+
  ultimately show ?thesis by (simp add: manifest_wf_def demo_manifest_of_def)
qed

lemma demo_parts [simp]:
  "interface_manifest_new ''demo.echo'' v = Inr \<lparr>im_id = Ident ''demo.echo'', im_version = v\<rparr>"
  "capability_new ''demo.progress'' = Inr \<lparr>cap_id = Ident ''demo.progress'', cap_version = None, cap_properties = []\<rparr>"
  "capability_new ''demo.cancellation'' =
     Inr \<lparr>cap_id = Ident ''demo.cancellation'', cap_version = None, cap_properties = []\<rparr>"
  by (simp_all add: interface_manifest_new_def capability_new_def res_bind_def)

lemma builder_upd_mk: "builder_upd f \<lparr>mb_manifest = m\<rparr> = \<lparr>mb_manifest = f m\<rparr>"
  by (simp add: builder_upd_def)

lemma builder_chain:
  "builder_control c (builder_execution es (builder_capability c2 (builder_capability c1 (builder_interface im
      (builder_description d (builder_new X i v)))))) =
   \<lparr>mb_manifest =
      \<lparr>m_version = MANIFEST_VERSION,
       m_plugin = \<lparr>pm_id = i, pm_version = v, pm_description = Some d, pm_homepage = None\<rparr>,
       m_framework = caret_framework X, m_worker_protocol = caret_protocol X, m_interfaces = [im],
       m_execution = es, m_capabilities = [c1, c2], m_control = c, m_metadata = []\<rparr>\<rparr>"
  by (simp add: builder_control_def builder_execution_def builder_capability_def builder_interface_def
      builder_description_def builder_new_def builder_upd_mk)

lemma engine_manifest_eq:
  assumes "de_version V pkg = Inr v" "de_version V ''1.0.0'' = Inr iv"
  shows "engine_manifest V pkg = Some (demo_manifest_of (de_crates V) v iv)"
proof -
  let ?m = "demo_manifest_of (de_crates V) v iv"
  have v: "validate ?m = Inr ()" by (rule iffD2[OF validate_ok demo_manifest_wf])
  have u: "unwrap (build \<lparr>mb_manifest = ?m\<rparr>) = Some ?m"
    by (simp only: build_def manifest_builder.simps v res_bind_def sum.case unwrap_simps)
  show ?thesis
    by (simp only: engine_manifest_def demo_names demo_parts demo_interface_manifest_def unwrap_simps assms
        Option.bind.simps u[unfolded demo_manifest_of_def] demo_manifest_of_def builder_chain)
qed

section \<open>Lemmas on the arguments\<close>

lemma derived_argv_tokens:
  assumes "is_ok (expand input)" "item_typed input v"
  shows "derived_argv input v = Some (item_tokens input v)"
  using assms item_code[OF _ assms(2), of _ "[]"] by (auto simp: derived_argv_def to_argv_def is_ok_iff)

lemma demo_types_accepted:
  "is_ok (expand echo_args_input)" "is_ok (expand delay_args_input)"
  "is_ok (expand engine_command_input)" "is_ok (expand engine_cli_input)"
  by code_simp+

lemma plain_shape:
  "type_shape_of (plain_ty ''String'') = \<lparr>ts_optional = False, ts_vector = False, ts_inner = plain_ty ''String''\<rparr>"
  "type_shape_of (plain_ty ''usize'') = \<lparr>ts_optional = False, ts_vector = False, ts_inner = plain_ty ''usize''\<rparr>"
  "type_shape_of (plain_ty ''u64'') = \<lparr>ts_optional = False, ts_vector = False, ts_inner = plain_ty ''u64''\<rparr>"
  "type_shape_of (plain_ty ''u32'') = \<lparr>ts_optional = False, ts_vector = False, ts_inner = plain_ty ''u32''\<rparr>"
  "type_shape_of (plain_ty ''CaseMode'') = \<lparr>ts_optional = False, ts_vector = False, ts_inner = plain_ty ''CaseMode''\<rparr>"
  "type_shape_of (generic_ty ''Vec'' (plain_ty ''String'')) =
     \<lparr>ts_optional = False, ts_vector = True, ts_inner = plain_ty ''String''\<rparr>"
  "type_shape_of (generic_ty ''Option'' (plain_ty ''String'')) =
     \<lparr>ts_optional = True, ts_vector = False, ts_inner = plain_ty ''String''\<rparr>"
  "\<not> is_bool (plain_ty ''String'')" "\<not> is_bool (plain_ty ''usize'')" "\<not> is_bool (plain_ty ''u64'')"
  "\<not> is_bool (plain_ty ''u32'')" "\<not> is_bool (plain_ty ''CaseMode'')"
  by code_simp+

abbreviation long_cfg :: "string \<Rightarrow> bool \<Rightarrow> field_cfg" where
  "long_cfg name enumerated \<equiv> cfg_default\<lparr>fc_long := Some name, fc_value_enum := enumerated\<rparr>"

lemma demo_cfgs:
  "cfg_parse [] ''message'' ''kebab-case'' = Inr cfg_default"
  "cfg_parse [arg_attr [MetaPath ''long'', MetaNameValue ''default_value_t'' (num_expr ''1'')]] ''repeat'' ''kebab-case''
     = Inr (long_cfg ''repeat'' False)"
  "cfg_parse [arg_attr [MetaPath ''long'', MetaPath ''value_enum'',
       MetaNameValue ''default_value'' (str_expr ''keep'')]] ''case'' ''kebab-case'' = Inr (long_cfg ''case'' True)"
  "cfg_parse [arg_attr [MetaNameValue ''long'' (str_expr ''tag'')]] ''tags'' ''kebab-case'' = Inr (long_cfg ''tag'' False)"
  "cfg_parse [arg_attr [MetaPath ''long'']] ''prefix'' ''kebab-case'' = Inr (long_cfg ''prefix'' False)"
  "cfg_parse [arg_attr [MetaPath ''long'', MetaNameValue ''default_value_t'' (num_expr ''500'')]] ''milliseconds''
     ''kebab-case'' = Inr (long_cfg ''milliseconds'' False)"
  "cfg_parse [arg_attr [MetaPath ''long'', MetaNameValue ''default_value_t'' (num_expr ''5'')]] ''steps''
     ''kebab-case'' = Inr (long_cfg ''steps'' False)"
  "cfg_parse [arg_attr [MetaPath ''long'', MetaNameValue ''default_value'' (str_expr ''done'')]] ''result''
     ''kebab-case'' = Inr (long_cfg ''result'' False)"
  "cfg_parse [\<lparr>at_path = ''command'', at_metas = Inr [MetaPath ''subcommand'']\<rparr>] ''command'' ''kebab-case''
     = Inr (cfg_default\<lparr>fc_subcommand := True\<rparr>)"
  by code_simp+

lemma cfg_default_simps [simp]:
  "fc_long cfg_default = None" "fc_short cfg_default = None" "fc_action cfg_default = ActDefault"
  "fc_value_enum cfg_default = False" "fc_require_equals cfg_default = False"
  "fc_value_delimiter cfg_default = None" "fc_flatten cfg_default = False" "fc_subcommand cfg_default = False"
  "fc_skip cfg_default = False" "fc_last cfg_default = False" "fc_trailing_var_arg cfg_default = False"
  by (simp_all add: cfg_default_def)

lemma long_field:
  assumes "ts_optional (type_shape_of ty) \<or> ts_vector (type_shape_of ty) \<or> \<not> is_bool (ts_inner (type_shape_of ty))"
  shows "field_tokens ty (long_cfg l e) v =
      concat (map (\<lambda>x. [''--'' @ l, the (convert (conversion_of e) x)]) (items v))"
    and "well_typed ty (long_cfg l e) v \<longleftrightarrow>
      has_shape (type_shape_of ty) v \<and> list_all (\<lambda>x. convert (conversion_of e) x \<noteq> None) (items v)"
proof -
  have flag: "field_flag (long_cfg l e) = Some (''--'' @ l)" by (simp add: field_flag_def or_else_def)
  have act: "field_action ty (long_cfg l e) = ActDefault" using assms by (auto simp: field_action_def Let_def)
  show "field_tokens ty (long_cfg l e) v =
      concat (map (\<lambda>x. [''--'' @ l, the (convert (conversion_of e) x)]) (items v))"
    unfolding field_tokens_def act
    by (simp add: value_args_def needs_separator_def flag option_args_def comp_def)
  show "well_typed ty (long_cfg l e) v \<longleftrightarrow>
      has_shape (type_shape_of ty) v \<and> list_all (\<lambda>x. convert (conversion_of e) x \<noteq> None) (items v)"
    unfolding well_typed_def act by simp
qed

lemma positional_field:
  "field_tokens (plain_ty ''String'') cfg_default (FOne (SText m)) = [m]"
  "well_typed (plain_ty ''String'') cfg_default (FOne (SText m))"
  by (simp_all add: field_tokens_def well_typed_def field_action_def Let_def plain_shape value_args_def
      needs_separator_def field_flag_def or_else_def option_args_def convert_def conversion_of_def)

lemmas demo_fields = named_tokens_def named_typed_def demo_cfgs long_field plain_shape positional_field convert_def
  conversion_of_def

lemma no_rename: "container_rename_all [] = None"
  by code_simp

lemma show_int_word [simp]: "show_int (uint (w :: 'a :: len word)) = show_nat (unat w)"
  by (simp add: show_int_def not_less)

text \<open>The name of a value of the enum; a variant that is skipped has none and is empty.\<close>

definition case_text :: "('v, 'r, 'j) demo_env \<Rightarrow> case_mode \<Rightarrow> string" where
  "case_text V m = (case de_case_name V m of None \<Rightarrow> [] | Some name \<Rightarrow> name)"

lemma value_enum_text: "value_enum_to_os (SEnum (de_case_name V m)) = Some (case_text V m)"
  by (cases "de_case_name V m") (simp_all add: case_text_def)

lemma echo_to_argv_eq:
  "echo_to_argv V a =
     Some ([ea_message a, ''--repeat'', show_nat (unat (ea_repeat a)), ''--case'', case_text V (ea_case a)]
       @ concat (map (\<lambda>t. [''--tag'', t]) (ea_tags a))
       @ (case ea_prefix a of None \<Rightarrow> [] | Some p \<Rightarrow> [''--prefix'', p]))"
  unfolding echo_to_argv_def
  by (cases "ea_prefix a"; subst derived_argv_tokens[OF demo_types_accepted(1)])
    (auto simp: item_typed_def item_tokens_def item_rename_def echo_args_input_def no_rename demo_fields
      value_enum_text list_all_iff comp_def)

lemma delay_to_argv_eq:
  "delay_to_argv a =
     Some [''--milliseconds'', show_nat (unat (dl_milliseconds a)), ''--steps'', show_nat (unat (dl_steps a)),
           ''--result'', dl_result a]"
  unfolding delay_to_argv_def
  by (subst derived_argv_tokens[OF demo_types_accepted(2)])
    (auto simp: item_typed_def item_tokens_def item_rename_def delay_args_input_def no_rename demo_fields)

lemma command_to_argv_eq:
  "command_to_argv V (EngineEcho a) = map_option (\<lambda>ts. ''echo'' # ts) (echo_to_argv V a)"
  "command_to_argv V (EngineDelay b) = map_option (\<lambda>ts. ''delay'' # ts) (delay_to_argv b)"
proof -
  have names: "rename ''Echo'' ''kebab-case'' = ''echo''" "rename ''Delay'' ''kebab-case'' = ''delay''"
    "container_rename_all (di_attrs engine_command_input) = Some ''kebab-case''"
    by code_simp+
  then have r: "item_rename engine_command_input = ''kebab-case''" by (simp add: item_rename_def)
  have d: "di_data engine_command_input = DataEnum
      [\<lparr>v_ident = ''Echo'', v_attrs = [], v_fields = FieldsUnnamed [plain_ty ''EchoArgs'']\<rparr>,
       \<lparr>v_ident = ''Delay'', v_attrs = [], v_fields = FieldsUnnamed [plain_ty ''DelayArgs'']\<rparr>]"
    by (simp add: engine_command_input_def)
  have "derived_argv engine_command_input (EnumValue 0 (PTuple ts)) = Some (''echo'' # ts)"
    "derived_argv engine_command_input (EnumValue 1 (PTuple ts)) = Some (''delay'' # ts)" for ts
    by (subst derived_argv_tokens[OF demo_types_accepted(3)];
        simp add: item_typed_def item_tokens_def r d variant_typed_def variant_tokens_def names)+
  then show "command_to_argv V (EngineEcho a) = map_option (\<lambda>ts. ''echo'' # ts) (echo_to_argv V a)"
    "command_to_argv V (EngineDelay b) = map_option (\<lambda>ts. ''delay'' # ts) (delay_to_argv b)"
    by (simp_all add: command_to_argv_def map_option_case Option.bind_def split: option.splits)
qed

lemma cli_to_argv_eq: "cli_to_argv V c = command_to_argv V (cli_command c)"
proof -
  have r: "item_rename engine_cli_input = ''kebab-case''" by code_simp
  have d: "di_data engine_cli_input = DataStruct (FieldsNamed
      [\<lparr>f_ident = ''command'', f_attrs = [\<lparr>at_path = ''command'', at_metas = Inr [MetaPath ''subcommand'']\<rparr>],
        f_ty = plain_ty ''EngineCommand''\<rparr>])"
    by (simp add: engine_cli_input_def)
  have sh: "type_shape_of (plain_ty ''EngineCommand'') =
      \<lparr>ts_optional = False, ts_vector = False, ts_inner = plain_ty ''EngineCommand''\<rparr>"
    by code_simp
  have "derived_argv engine_cli_input (StructValue [FOne (SNested ts)]) = Some ts" for ts
    by (subst derived_argv_tokens[OF demo_types_accepted(4)];
        simp add: item_typed_def item_tokens_def r d named_typed_def named_tokens_def demo_cfgs well_typed_def
          field_tokens_def sh)
  then show ?thesis by (cases "command_to_argv V (cli_command c)") (simp_all add: cli_to_argv_def)
qed

section \<open>Lemmas on the handler\<close>

definition delay_progress :: "('v, 'r, 'j) demo_env \<Rightarrow> request_id \<Rightarrow> nat \<Rightarrow> nat \<Rightarrow> ('v, 'r, 'j) plugin_frame" where
  "delay_progress V i steps k =
     ProgressF i (Some (de_quotient V (k + 1) steps)) (Some (''step '' @ show_nat (k + 1) @ ''/'' @ show_nat steps))"

text \<open>The points of the loop after \<open>k\<close> of its steps.\<close>

definition slept :: "('v, 'r, 'j) demo_env \<Rightarrow> string \<Rightarrow> nat \<Rightarrow> nat \<Rightarrow> 'j async_run" where
  "slept V res steps k =
     AProgress (Some (de_quotient V (k + 1) steps)) (Some (''step '' @ show_nat (k + 1) @ ''/'' @ show_nat steps))
       (try_send (delay_loop V res steps (steps - Suc k)))"

definition delay_cancelled :: "'j worker_error" where
  "delay_cancelled = worker_error_new ''cancelled'' ''invocation was cancelled''"

definition looked :: "('v, 'r, 'j) demo_env \<Rightarrow> string \<Rightarrow> nat \<Rightarrow> nat \<Rightarrow> 'j async_run" where
  "looked V res steps k = AIsCancelled (\<lambda>c. if c then AReturn (Inl delay_cancelled) else slept V res steps k)"

lemma delay_loop_at:
  assumes "k < steps"
  shows "delay_loop V res steps (steps - k) =
    AAwait (\<lambda>answer. if answer = 0 then slept V res steps k else looked V res steps k)"
proof -
  obtain n where n: "steps - k = Suc n" using assms by (cases "steps - k") auto
  then have "steps - Suc n = k" "n = steps - Suc k" using assms by simp_all
  with n show ?thesis
    by (simp add: slept_def looked_def delay_cancelled_def Let_def fun_eq_iff)
qed

definition delay_point :: "('v, 'r, 'j) demo_env \<Rightarrow> string \<Rightarrow> nat \<Rightarrow> nat \<Rightarrow> 'j async_run \<Rightarrow> bool" where
  "delay_point V res steps k l \<longleftrightarrow>
     (if k < steps
      then l = AAwait (\<lambda>answer. if answer = 0 then slept V res steps k else looked V res steps k)
        \<or> l = slept V res steps k \<or> l = looked V res steps k \<or> l = AReturn (Inl delay_cancelled)
      else l = AReturn (Inr (result_success (PJson (de_delay_value V res (de_process_id V))))))"

lemma delay_point_loop: "k \<le> steps \<Longrightarrow> delay_point V res steps k (delay_loop V res steps (steps - k))"
  by (cases "k = steps") (auto simp: delay_point_def delay_loop_at)

lemma delay_run:
  assumes "handler_run i (delay_loop V res steps steps) gs l"
  shows "\<exists>k \<le> steps. gs = map (delay_progress V i steps) [0..<k] \<and> delay_point V res steps k l"
  using assms
proof (induction rule: handler_run.induct)
  case hr_start
  then show ?case using delay_point_loop[of 0 steps V res] by (intro exI[of _ 0]) simp
next
  case (hr_progress fs fraction message k)
  then obtain n where n: "n \<le> steps" "fs = map (delay_progress V i steps) [0..<n]"
    "delay_point V res steps n (AProgress fraction message k)"
    by blast
  then have "n < steps" "AProgress fraction message k = slept V res steps n"
    by (auto simp: delay_point_def looked_def split: if_splits)
  with n(2) delay_point_loop[of "Suc n" steps V res] show ?case
    by (intro exI[of _ "Suc n"]) (auto simp: slept_def try_send_def delay_progress_def)
qed (fastforce simp: delay_point_def slept_def looked_def split: if_splits)+

lemma delay_returns:
  assumes "handler_run i (engine_delay V args) gs (AReturn r)"
  shows "\<exists>k \<le> unat (max (dl_steps args) 1).
    gs = map (delay_progress V i (unat (max (dl_steps args) 1))) [0..<k]
    \<and> (if k = unat (max (dl_steps args) 1)
       then r = Inr (result_success (PJson (de_delay_value V (dl_result args) (de_process_id V))))
       else r = Inl delay_cancelled)"
  using delay_run[of i V "dl_result args" "unat (max (dl_steps args) 1)"] assms
  by (fastforce simp: engine_delay_def Let_def delay_point_def slept_def looked_def split: if_splits)

section \<open>Properties\<close>


definition sample_demo :: "(version3, version3, string) demo_env" where
  "sample_demo =
     \<lparr>de_crates = caret_crates, de_version = (\<lambda>_. Inr (1, 0, 0)), de_version_req = (\<lambda>_. Inr (1, 0, 0)),
      de_case_name = (\<lambda>m. Some (case m of Keep \<Rightarrow> ''keep'' | Upper \<Rightarrow> ''upper'' | Lower \<Rightarrow> ''lower'')),
      de_try_parse_from = (\<lambda>argv. Inr \<lparr>cli_command = EngineEcho \<lparr>ea_message = argv ! 2, ea_repeat = 2, ea_case = Keep,
        ea_tags = [], ea_prefix = None\<rparr>\<rparr>),
      de_uppercase = to_ascii_uppercase, de_lowercase = to_ascii_lowercase,
      de_echo_value = (\<lambda>r. Inr (er_text r)), de_echo_text = (\<lambda>r. Inr (er_text r)),
      de_delay_value = (\<lambda>t p. t), de_value_text = id, de_quotient = (\<lambda>_ _. 0), de_process_id = 7\<rparr>"


end
