(* ===== verification/Management.thy ===== *)
theory Management
  imports Worker_Client Doctor
begin

text \<open>
  The \<open>plugin\<close> subcommands a host can offer: \<open>src/crates/outboard-clap/src/management.rs\<close>. A command
  returns what it prints, one string for each \<open>println!\<close>, or the error it fails with, in which case it
  has printed nothing; with what it did to a child process and the store of the registry it left. JSON
  serialisers and Rust's \<open>Debug\<close> texts are arguments.
\<close>

section \<open>Data\<close>

datatype output_format = FormatText | FormatJson

record plugin_list_args =
  la_kind :: string
  la_inspect :: bool
  la_all :: bool
  la_format :: output_format

record plugin_inspect_args =
  ia_selector :: string
  ia_format :: output_format

record plugin_doctor_args =
  da_selector :: string
  da_deep :: bool
  da_format :: output_format

record plugin_path_args =
  pa_format :: output_format

datatype plugin_cache_command = CacheClear | CachePath

datatype plugin_command =
    CmdList plugin_list_args
  | CmdInspect plugin_inspect_args
  | CmdDoctor plugin_doctor_args
  | CmdPath plugin_path_args
  | CmdCache plugin_cache_command

record list_row =
  lr_id :: string
  lr_path :: string
  lr_source :: string
  lr_selected :: bool
  lr_version :: "string option"
  lr_inspect_error :: "string option"

record doctor_output =
  do_plugin :: string
  do_report :: doctor_report
  do_worker_handshake :: "string option"

text \<open>The boxed errors.\<close>

datatype ('v, 'r, 'j) command_error =
    CmdRegistry registry_error
  | CmdIdentifier identifier_error
  | CmdProcess process_error
  | CmdJson json_error
  | CmdWorker "('v, 'r, 'j) worker_client_error"
  | CmdMessage string

record ('v, 'r, 'j) command_env = "('v, 'r, 'j) host_env" +
  mg_rows_json :: "list_row list \<Rightarrow> json_error + string"
  mg_manifest_json :: "('v, 'r, 'j) manifest \<Rightarrow> json_error + string"
  mg_doctor_json :: "doctor_output \<Rightarrow> json_error + string"
  mg_roots_json :: "(string \<times> string) list \<Rightarrow> json_error + string"
  mg_report :: "bytes \<Rightarrow> json_error + doctor_report"
  mg_debug_source :: "discovery_source \<Rightarrow> string"
  mg_debug_modes :: "execution_mode list \<Rightarrow> string"
  mg_debug_status :: "doctor_status \<Rightarrow> string"
  mg_connector :: "('v, 'r, 'j) connector"
  mg_host_codec :: "('v, 'r, 'j) host_codec"

abbreviation host_of :: "('v, 'r, 'j) command_env \<Rightarrow> ('v, 'r, 'j) host_env" where
  "host_of G \<equiv> host_env.truncate G"

section \<open>Listing\<close>

definition list_row_of ::
    "('v, 'r, 'j) command_env \<Rightarrow> registry \<Rightarrow> plugin_candidate \<Rightarrow> bool \<Rightarrow> bool \<Rightarrow> ('v, 'r, 'j) store
     \<Rightarrow> list_row \<times> ('v, 'r, 'j) store" where
  "list_row_of G rg c selected do_inspect s =
     (let (version, inspect_error, s') =
        (if do_inspect
         then (case inspect (host_of G) rg c s of
                 (Inr i, s1) \<Rightarrow> (Some (show_version (env_crates G) (pm_version (m_plugin (ins_manifest i)))), None, s1)
               | (Inl e, s1) \<Rightarrow> (None, Some (inspect_error_text (env_text G) e), s1))
         else (None, None, s)) in
      (\<lparr>lr_id = plugin_id_to_string (c_id c), lr_path = to_string_lossy (c_path c),
        lr_source = mg_debug_source G (c_source c), lr_selected = selected,
        lr_version = version, lr_inspect_error = inspect_error\<rparr>, s'))"

fun rows_of ::
    "('v, 'r, 'j) command_env \<Rightarrow> registry \<Rightarrow> bool \<Rightarrow> bool \<Rightarrow> plugin_candidate list \<Rightarrow> ('v, 'r, 'j) store
     \<Rightarrow> list_row list \<times> ('v, 'r, 'j) store" where
  "rows_of G rg selected do_inspect [] s = ([], s)"
| "rows_of G rg selected do_inspect (c # cs) s =
     (let (r, s1) = list_row_of G rg c selected do_inspect s;
          (rs, s2) = rows_of G rg selected do_inspect cs s1 in (r # rs, s2))"

fun list_rows ::
    "('v, 'r, 'j) command_env \<Rightarrow> registry \<Rightarrow> plugin_list_args \<Rightarrow> discovery_set \<Rightarrow> plugin_candidate list
     \<Rightarrow> ('v, 'r, 'j) store \<Rightarrow> list_row list \<times> ('v, 'r, 'j) store" where
  "list_rows G rg args d [] s = ([], s)"
| "list_rows G rg args d (c # cs) s =
     (let (r, s1) = list_row_of G rg c True (la_inspect args) s;
          (shadowed, s2) =
            (if la_all args
             then (case bt_get (ds_shadowed d) (c_id c) of
                     Some xs \<Rightarrow> rows_of G rg False (la_inspect args) xs s1
                   | None \<Rightarrow> ([], s1))
             else ([], s1));
          (rest, s3) = list_rows G rg args d cs s2 in
      (r # shadowed @ rest, s3))"

definition newline :: string where
  "newline = [char_of (10 :: nat)]"

definition row_text :: "list_row \<Rightarrow> string list" where
  "row_text r =
     [(if lr_selected r then ''*'' else '' '') @ '' '' @ lr_id r
        @ (case lr_version r of None \<Rightarrow> '''' | Some v \<Rightarrow> '' v'' @ v) @ newline
        @ ''    '' @ lr_path r @ '' ['' @ lr_source r @ '']'']
     @ (case lr_inspect_error r of None \<Rightarrow> [] | Some e \<Rightarrow> [''    inspect error: '' @ e])"

definition list_command ::
    "('v, 'r, 'j) command_env \<Rightarrow> registry \<Rightarrow> plugin_list_args \<Rightarrow> ('v, 'r, 'j) store
     \<Rightarrow> (('v, 'r, 'j) command_error + string list) \<times> ('v, 'r, 'j) store" where
  "list_command G rg args s =
     (case discover (env_system G) rg (la_kind args) of
        Inl e \<Rightarrow> (Inl (CmdRegistry e), s)
      | Inr d \<Rightarrow>
          (case list_rows G rg args d (ds_selected d) s of
             (rows, s') \<Rightarrow>
               (case la_format args of
                  FormatJson \<Rightarrow>
                    (res_bind (res_map_err CmdJson (mg_rows_json G rows)) (\<lambda>text. Inr [text]), s')
                | FormatText \<Rightarrow>
                    (Inr ((if rows = [] then [''no '' @ la_kind args @ '' plugins discovered''] else [])
                       @ concat (map row_text rows)), s'))))"

section \<open>Selecting one plugin\<close>

definition parse_selector :: "string \<Rightarrow> string + string \<times> string" where
  "parse_selector s =
     (case split_once (CHR '':'') s of
        None \<Rightarrow> Inl ''plugin selector must be KIND:NAME''
      | Some (k, n) \<Rightarrow>
          if k = [] \<or> n = [] then Inl ''plugin selector must be KIND:NAME'' else Inr (k, n))"

definition select ::
    "('v, 'r, 'j) command_env \<Rightarrow> registry \<Rightarrow> string \<Rightarrow> ('v, 'r, 'j) store
     \<Rightarrow> (('v, 'r, 'j) command_error + plugin_candidate \<times> ('v, 'r, 'j) inspected_plugin) \<times> ('v, 'r, 'j) store" where
  "select G rg sel s =
     (case parse_selector sel of
        Inl e \<Rightarrow> (Inl (CmdMessage e), s)
      | Inr (kind, name) \<Rightarrow>
          (case discover (env_system G) rg kind of
             Inl e \<Rightarrow> (Inl (CmdRegistry e), s)
           | Inr d \<Rightarrow>
               (case plugin_name_new name of
                  Inl e \<Rightarrow> (Inl (CmdIdentifier e), s)
                | Inr n \<Rightarrow>
                    (case selected_by_name d n of
                       None \<Rightarrow> (Inl (CmdMessage (''plugin '' @ sel @ '' was not discovered'')), s)
                     | Some c \<Rightarrow>
                         (case inspect (host_of G) rg c s of
                            (Inl e, s') \<Rightarrow> (Inl (CmdRegistry e), s')
                          | (Inr i, s') \<Rightarrow> (Inr (c, i), s'))))))"

definition inspect_text :: "('v, 'r, 'j) command_env \<Rightarrow> plugin_candidate \<Rightarrow> ('v, 'r, 'j) manifest \<Rightarrow> string list" where
  "inspect_text G c m =
     [plugin_id_to_string (pm_id (m_plugin m)) @ '' v'' @ show_version (env_crates G) (pm_version (m_plugin m)),
      ''path: '' @ to_string_lossy (c_path c),
      ''framework: '' @ show_req (env_crates G) (m_framework m),
      ''worker protocol: '' @ show_req (env_crates G) (m_worker_protocol m),
      ''execution: '' @ mg_debug_modes G (m_execution m)]
     @ map (\<lambda>x. ''interface: '' @ as_str (im_id x) @ ''@'' @ show_version (env_crates G) (im_version x)) (m_interfaces m)
     @ map (\<lambda>x. ''capability: '' @ as_str (cap_id x) @ '' '' @ debug_version (env_crates G) (cap_version x)) (m_capabilities m)"

definition inspect_command ::
    "('v, 'r, 'j) command_env \<Rightarrow> registry \<Rightarrow> plugin_inspect_args \<Rightarrow> ('v, 'r, 'j) store
     \<Rightarrow> (('v, 'r, 'j) command_error + string list) \<times> ('v, 'r, 'j) store" where
  "inspect_command G rg args s =
     (case select G rg (ia_selector args) s of
        (Inl e, s') \<Rightarrow> (Inl e, s')
      | (Inr (c, i), s') \<Rightarrow>
          (case ia_format args of
             FormatJson \<Rightarrow>
               (res_bind (res_map_err CmdJson (mg_manifest_json G (ins_manifest i))) (\<lambda>text. Inr [text]), s')
           | FormatText \<Rightarrow> (Inr (inspect_text G c (ins_manifest i)), s')))"

section \<open>The doctor\<close>

text \<open>The worker handshake of \<open>doctor --deep\<close>: a client that a failed \<open>ping\<close> leaves is dropped.\<close>

definition deep_check ::
    "('v, 'r, 'j) command_env \<Rightarrow> ('v, 'r, 'j) resolved_plugin
     \<Rightarrow> (('v, 'r, 'j) command_error + unit) \<times> child_event list" where
  "deep_check G p =
     (case worker_spawn (env_crates G) (mg_host_codec G) (mg_connector G) p of
        (Inl e, ev) \<Rightarrow> (Inl (CmdWorker e), ev)
      | (Inr w, ev) \<Rightarrow>
          (case client_ping (mg_host_codec G) 0xBADC0DE w of
             (Inl e, _) \<Rightarrow> (Inl (CmdWorker e), ev @ client_drop False)
           | (Inr _, w') \<Rightarrow>
               (case client_shutdown (mg_host_codec G) w' of
                  (r, ev') \<Rightarrow> (res_map_err CmdWorker r, ev @ ev'))))"

definition doctor_text :: "('v, 'r, 'j) command_env \<Rightarrow> doctor_output \<Rightarrow> string list" where
  "doctor_text G v =
     [do_plugin v @ '': '' @ mg_debug_status G (dr_status (do_report v))]
     @ map (\<lambda>c. ''  '' @ mg_debug_status G (dc_status c) @ '' '' @ dc_name c @ '': '' @ dc_message c)
         (dr_checks (do_report v))
     @ (case do_worker_handshake v of None \<Rightarrow> [] | Some w \<Rightarrow> [''  worker handshake: '' @ w])"

definition doctor_command ::
    "('v, 'r, 'j) command_env \<Rightarrow> registry \<Rightarrow> plugin_doctor_args \<Rightarrow> ('v, 'r, 'j) store
     \<Rightarrow> (('v, 'r, 'j) command_error + string list) \<times> child_event list \<times> ('v, 'r, 'j) store" where
  "doctor_command G rg args s =
     (case select G rg (da_selector args) s of
        (Inl e, s') \<Rightarrow> (Inl e, [], s')
      | (Inr (c, i), s') \<Rightarrow>
          (case run_capture_args (env_spawn G) (c_path c) [''__outboard'', ''doctor''] None (rg_control_timeout rg) of
             Inl e \<Rightarrow> (Inl (CmdProcess e), [], s')
           | Inr out \<Rightarrow>
               if \<not> exit_success (co_status out)
               then (Inl (CmdMessage (''doctor failed: '' @ to_string_lossy (from_vec (co_stderr out)))), [], s')
               else
                 (case mg_report G (co_stdout out) of
                    Inl e \<Rightarrow> (Inl (CmdJson e), [], s')
                  | Inr report \<Rightarrow>
                      (case
                         (if da_deep args \<and> supports (ins_manifest i) Worker
                          then (case deep_check G \<lparr>rp_candidate = c, rp_manifest = ins_manifest i\<rparr> of
                                  (Inl e, ev) \<Rightarrow> (Inl e, ev)
                                | (Inr _, ev) \<Rightarrow> (Inr (Some ''pass''), ev))
                          else (Inr None, [])) of
                         (Inl e, ev) \<Rightarrow> (Inl e, ev, s')
                       | (Inr worker_handshake, ev) \<Rightarrow>
                           let v = \<lparr>do_plugin = plugin_id_to_string (pm_id (m_plugin (ins_manifest i))),
                                    do_report = report, do_worker_handshake = worker_handshake\<rparr> in
                           (case da_format args of
                              FormatJson \<Rightarrow>
                                (res_bind (res_map_err CmdJson (mg_doctor_json G v)) (\<lambda>text. Inr [text]), ev, s')
                            | FormatText \<Rightarrow> (Inr (doctor_text G v), ev, s'))))))"

section \<open>Search path and cache\<close>

definition path_command ::
    "('v, 'r, 'j) command_env \<Rightarrow> registry \<Rightarrow> plugin_path_args \<Rightarrow> ('v, 'r, 'j) command_error + string list" where
  "path_command G rg args =
     (let roots = search_roots (env_system G) rg in
      case pa_format args of
        FormatJson \<Rightarrow>
          res_bind (res_map_err CmdJson (mg_roots_json G
            (map (\<lambda>r. (to_string_lossy (sr_path r), mg_debug_source G (sr_source r))) roots))) (\<lambda>text. Inr [text])
      | FormatText \<Rightarrow>
          Inr (map (\<lambda>(i, r). show_nat (i + 1) @ '': '' @ to_string_lossy (sr_path r)
                 @ '' ['' @ mg_debug_source G (sr_source r) @ '']'') (enumerate 0 roots)))"

definition cache_command ::
    "('v, 'r, 'j) command_env \<Rightarrow> plugin_cache_command \<Rightarrow> ('v, 'r, 'j) store \<Rightarrow> string list \<times> ('v, 'r, 'j) store" where
  "cache_command G cmd s =
     (case cmd of
        CacheClear \<Rightarrow> ([''manifest cache cleared''], cache_clear (env_cache_codec G) s)
      | CachePath \<Rightarrow>
          ((case mc_path (fst s) of Some p \<Rightarrow> [to_string_lossy p] | None \<Rightarrow> [''memory-only cache'']), s))"

definition execute_plugin_command ::
    "('v, 'r, 'j) command_env \<Rightarrow> registry \<Rightarrow> plugin_command \<Rightarrow> ('v, 'r, 'j) store
     \<Rightarrow> (('v, 'r, 'j) command_error + string list) \<times> child_event list \<times> ('v, 'r, 'j) store" where
  "execute_plugin_command G rg command s =
     (case command of
        CmdList a \<Rightarrow> (case list_command G rg a s of (r, s') \<Rightarrow> (r, [], s'))
      | CmdInspect a \<Rightarrow> (case inspect_command G rg a s of (r, s') \<Rightarrow> (r, [], s'))
      | CmdDoctor a \<Rightarrow> doctor_command G rg a s
      | CmdPath a \<Rightarrow> (path_command G rg a, [], s)
      | CmdCache c \<Rightarrow> (case cache_command G c s of (out, s') \<Rightarrow> (Inr out, [], s')))"

section \<open>Lemmas\<close>

lemma parse_selector_ok: "parse_selector s = Inr (k, n) \<Longrightarrow> s = k @ '':'' @ n"
  by (auto simp: parse_selector_def split_once_Some split: option.splits if_splits)

lemma parse_selector_selector:
  assumes "plugin_id_ok p"
  shows "parse_selector (selector p) = Inr (as_str (pid_kind p), as_str (pid_name p))"
proof -
  have "as_str (pid_kind p) \<noteq> []" "as_str (pid_name p) \<noteq> []"
    using assms by (auto simp: plugin_id_ok_def ident_ok_def)
  then show ?thesis
    using plugin_id_ok_chars(4)[OF assms]
    by (simp add: parse_selector_def selector_def split_once_append)
qed

lemma selected_identity:
  assumes "discover F rg kind = Inr d" "selected_by_name d n = Some c"
  shows "as_str (pid_kind (c_id c)) = kind" "pid_name (c_id c) = n" "pid_namespace (c_id c) = rg_namespace rg"
proof -
  obtain k where k: "plugin_kind_new kind = Inr k"
    and d: "discover_in_roots F (rg_namespace rg) k (search_roots F rg) (kind_overrides rg k) = Inr d"
    using assms(1) by (auto simp: discover_def res_simps)
  obtain hs where h: "found_hits F (rg_namespace rg) k (search_roots F rg) (kind_overrides rg k) = Inr hs"
    using d discover_ok_iff by blast
  have "c_id c = PluginId (rg_namespace rg) k n"
    using find_SomeD[OF selected_by_name_first[OF h d, of n, unfolded assms(2), symmetric]] by simp
  moreover have "as_str k = kind" using k by (auto simp: kind_id.new_ok)
  ultimately show "as_str (pid_kind (c_id c)) = kind" "pid_name (c_id c) = n"
    "pid_namespace (c_id c) = rg_namespace rg" by simp_all
qed

lemma host_of_system [simp]: "env_system (host_of G) = env_system G"
  by (simp add: host_env.truncate_def)

lemma list_row_plain:
  "list_row_of G rg c sel False s =
     (\<lparr>lr_id = plugin_id_to_string (c_id c), lr_path = to_string_lossy (c_path c),
       lr_source = mg_debug_source G (c_source c), lr_selected = sel,
       lr_version = None, lr_inspect_error = None\<rparr>, s)"
  by (simp add: list_row_of_def)

lemma rows_plain:
  "snd (rows_of G rg sel False cs s) = s
   \<and> map (\<lambda>r. (lr_id r, lr_path r, lr_selected r)) (fst (rows_of G rg sel False cs s)) =
       map (\<lambda>c. (plugin_id_to_string (c_id c), to_string_lossy (c_path c), sel)) cs"
  by (induction cs) (auto simp: list_row_plain Let_def split_beta)

lemma deep_check_events:
  assumes "deep_check G p = (r, ev)"
  shows "ev = [] \<or> EvReaped \<in> set ev \<or> ev = [EvSpawned] \<and> (\<exists>e. r = Inl (CmdWorker e))"
proof -
  obtain q ev' where s: "worker_spawn (env_crates G) (mg_host_codec G) (mg_connector G) p = (q, ev')"
    by (rule prod.exhaust)
  have "ev' = [] \<or> EvReaped \<in> set ev' \<or> ev' = [EvSpawned]"
    using s by (auto simp: worker_spawn_def spawn_with_interfaces_def spawn_with_interfaces_timeout_def
        split: if_splits sum.splits prod.splits plugin_frame.splits)
  moreover have "EvReaped \<in> set (snd (client_shutdown CH c))" for CH and c :: "('a, 'b, 'c) worker_client"
    by (auto simp: client_shutdown_def client_drop_def split: sum.splits prod.splits option.splits)
  ultimately show ?thesis
    using assms s by (auto simp: deep_check_def client_drop_def split: sum.splits prod.splits)
      (metis snd_conv)+
qed

section \<open>Properties\<close>

text \<open>C37. A selector names one plugin: what \<open>select\<close> returns has exactly the kind and the name the selector
  says, in the namespace of the registry, and its manifest declares that identity; and the selector of every
  valid plugin id is parsed into its kind and its name.\<close>

theorem selector_names_plugin:
  "(case select G rg sel s of
      (Inr (c, i), _) \<Rightarrow>
        selector (c_id c) = sel \<and> pid_namespace (c_id c) = rg_namespace rg
        \<and> ins_candidate i = c \<and> pm_id (m_plugin (ins_manifest i)) = c_id c
    | _ \<Rightarrow> True)
   \<and> (if plugin_id_ok p then parse_selector (selector p) = Inr (as_str (pid_kind p), as_str (pid_name p)) else True)"
proof -
  have "selector (c_id c) = sel \<and> pid_namespace (c_id c) = rg_namespace rg
        \<and> ins_candidate i = c \<and> pm_id (m_plugin (ins_manifest i)) = c_id c"
    if sel: "select G rg sel s = (Inr (c, i), s')" for c i s'
  proof -
    obtain kind name d n where p: "parse_selector sel = Inr (kind, name)"
      and d: "discover (env_system G) rg kind = Inr d" "plugin_name_new name = Inr n"
        "selected_by_name d n = Some c" and i: "inspect (host_of G) rg c s = (Inr i, s')"
      using sel by (auto simp: select_def split: sum.splits option.splits prod.splits)
    have "as_str n = name" using d(2) by (auto simp: name_id.new_ok)
    then show ?thesis
      using parse_selector_ok[OF p] selected_identity[OF d(1,3)] inspect_ok[OF i] by (simp add: selector_def)
  qed
  then show ?thesis
    using parse_selector_selector by (auto split: prod.splits sum.splits)
qed

text \<open>\<open>plugin list\<close> without inspection lists every selected plugin, marked, and with \<open>--all\<close> the
  candidates it shadows after it, unmarked; it asks no executable and leaves the cache alone.\<close>

theorem list_shows_discovered:
  "snd (list_rows G rg \<lparr>la_kind = k, la_inspect = False, la_all = al, la_format = f\<rparr> d cs s) = s
   \<and> map (\<lambda>r. (lr_id r, lr_path r, lr_selected r))
       (fst (list_rows G rg \<lparr>la_kind = k, la_inspect = False, la_all = al, la_format = f\<rparr> d cs s)) =
     concat (map (\<lambda>c. (plugin_id_to_string (c_id c), to_string_lossy (c_path c), True)
         # map (\<lambda>x. (plugin_id_to_string (c_id x), to_string_lossy (c_path x), False))
             (if al then (case bt_get (ds_shadowed d) (c_id c) of Some xs \<Rightarrow> xs | None \<Rightarrow> []) else [])) cs)"
  using rows_plain[of G rg False]
  by (induction cs) (auto simp: list_row_plain Let_def split_beta split: option.splits)


end
