(* ===== verification/Conformance.thy ===== *)
theory Conformance
  imports Worker_Client Doctor
begin

text \<open>
  The black-box conformance checks of \<open>src/crates/outboard-testing/src/lib.rs\<close>, which run a plugin
  executable the way a host does. The JSON readers and the \<open>Debug\<close> texts of frames and statuses are
  arguments. \<open>conforms\<close> is the contract a healthy report stands for.
\<close>

section \<open>Texts of the errors of the protocol and the client\<close>

fun frame_error_to_string :: "std_text \<Rightarrow> frame_error \<Rightarrow> string" where
  "frame_error_to_string T (FrameIo e) = ''I/O error while reading or writing worker frame: '' @ show_io T e"
| "frame_error_to_string T (TooLarge n mx) =
     ''worker frame length '' @ show_nat n @ '' exceeds configured maximum '' @ show_nat mx"
| "frame_error_to_string T (FrameJson e) = ''invalid JSON worker frame: '' @ e"
| "frame_error_to_string T UnexpectedEof = ''worker stream ended before a complete frame was read''"

fun worker_client_error_to_string ::
    "('v, 'r, 'j) crates \<Rightarrow> std_text \<Rightarrow> (('v, 'r, 'j) plugin_frame \<Rightarrow> string) \<Rightarrow> ('v, 'r, 'j) worker_client_error \<Rightarrow> string" where
  "worker_client_error_to_string X T dbg WorkerNotSupported =
     ''plugin does not advertise persistent worker execution''"
| "worker_client_error_to_string X T dbg (CliSpawn e) = ''failed to spawn plugin worker: '' @ show_io T e"
| "worker_client_error_to_string X T dbg (CliFrame e) = ''worker framing error: '' @ frame_error_to_string T e"
| "worker_client_error_to_string X T dbg (CliExpectedHello f) = ''worker sent '' @ dbg f @ '' instead of hello''"
| "worker_client_error_to_string X T dbg ManifestChanged =
     ''worker manifest changed between discovery and handshake''"
| "worker_client_error_to_string X T dbg (CliProtocol v r) =
     ''worker protocol '' @ show_version X v @ '' is not accepted by host requirement '' @ show_req X r"
| "worker_client_error_to_string X T dbg (CliWorker e) = ''worker returned an error: '' @ worker_error_to_string e"
| "worker_client_error_to_string X T dbg (Incomplete i) =
     ''worker stream ended before invocation '' @ show_nat (unat i) @ '' completed''"
| "worker_client_error_to_string X T dbg (CliTimeout d) =
     ''worker control operation timed out after '' @ debug_duration T d"
| "worker_client_error_to_string X T dbg ChannelClosed = ''worker reader channel closed unexpectedly''"
| "worker_client_error_to_string X T dbg (CliWait e) = ''failed waiting for worker child: '' @ show_io T e"

definition debug_code :: "i32 option \<Rightarrow> string" where
  "debug_code c = (case c of None \<Rightarrow> ''None'' | Some n \<Rightarrow> ''Some('' @ show_i32 n @ '')'')"

section \<open>Options\<close>

record 'r conformance_options =
  co_expected_id :: "plugin_id option"
  co_required_interfaces :: "'r interface_requirement list"
  co_require_worker :: bool
  co_require_doctor :: bool
  co_require_cli_schema :: bool
  co_timeout :: duration

datatype conformance_error = ConfSemver string | ConfIdentifier identifier_error

definition options_default :: "'r conformance_options" where
  "options_default =
     \<lparr>co_expected_id = None, co_required_interfaces = [], co_require_worker = False,
      co_require_doctor = False, co_require_cli_schema = False, co_timeout = 10000\<rparr>"

definition options_expected_id :: "plugin_id \<Rightarrow> 'r conformance_options \<Rightarrow> 'r conformance_options" where
  "options_expected_id i ops = ops\<lparr>co_expected_id := Some i\<rparr>"

definition options_require_interface ::
    "(string \<Rightarrow> string + 'r) \<Rightarrow> string \<Rightarrow> string \<Rightarrow> 'r conformance_options
     \<Rightarrow> conformance_error + 'r conformance_options" where
  "options_require_interface parse_req i version ops =
     res_bind (res_map_err ConfSemver (parse_req version)) (\<lambda>r.
     res_bind (res_map_err ConfIdentifier (interface_requirement_new i r)) (\<lambda>q.
     Inr (ops\<lparr>co_required_interfaces := co_required_interfaces ops @ [q]\<rparr>)))"

definition options_require_worker :: "'r conformance_options \<Rightarrow> 'r conformance_options" where
  "options_require_worker ops = ops\<lparr>co_require_worker := True\<rparr>"

definition options_require_doctor :: "'r conformance_options \<Rightarrow> 'r conformance_options" where
  "options_require_doctor ops = ops\<lparr>co_require_doctor := True\<rparr>"

definition options_require_cli_schema :: "'r conformance_options \<Rightarrow> 'r conformance_options" where
  "options_require_cli_schema ops = ops\<lparr>co_require_cli_schema := True\<rparr>"

definition options_timeout :: "duration \<Rightarrow> 'r conformance_options \<Rightarrow> 'r conformance_options" where
  "options_timeout t ops = ops\<lparr>co_timeout := t\<rparr>"

section \<open>Reports\<close>

record ('v, 'r, 'j) conformance_report =
  cr_executable :: os_string
  cr_manifest :: "('v, 'r, 'j) manifest option"
  cr_checks :: "doctor_check list"

definition conformance_is_healthy :: "('v, 'r, 'j) conformance_report \<Rightarrow> bool" where
  "conformance_is_healthy r = list_all (\<lambda>c. dc_status c \<noteq> DoctorFail) (cr_checks r)"

definition failures :: "('v, 'r, 'j) conformance_report \<Rightarrow> doctor_check list" where
  "failures r = filter (\<lambda>c. dc_status c = DoctorFail) (cr_checks r)"

definition into_doctor_report :: "('v, 'r, 'j) conformance_report \<Rightarrow> doctor_report" where
  "into_doctor_report r = from_checks (cr_checks r)"

text \<open>A panic is \<open>Inl\<close> with its message.\<close>

definition assert_healthy :: "(doctor_status \<Rightarrow> string) \<Rightarrow> ('v, 'r, 'j) conformance_report \<Rightarrow> string + unit" where
  "assert_healthy dbg r =
     (if conformance_is_healthy r then Inr ()
      else Inl (''Outboard conformance failed:'' @ [char_of (10 :: nat)]
        @ join_with [char_of (10 :: nat)]
            (map (\<lambda>c. dbg (dc_status c) @ '' '' @ dc_name c @ '': '' @ dc_message c) (cr_checks r))))"

section \<open>The checks\<close>

record ('v, 'r, 'j) conformance_env = "('v, 'r, 'j) host_env" +
  cv_report :: "bytes \<Rightarrow> json_error + doctor_report"
  cv_value :: "bytes \<Rightarrow> json_error + 'j"
  cv_is_object :: "'j \<Rightarrow> bool"
  cv_get_ok :: "'j \<Rightarrow> bool option"
  cv_debug_status :: "doctor_status \<Rightarrow> string"
  cv_debug_frame :: "('v, 'r, 'j) plugin_frame \<Rightarrow> string"
  cv_connector :: "('v, 'r, 'j) connector"
  cv_host_codec :: "('v, 'r, 'j) host_codec"

definition is_file :: "system \<Rightarrow> os_string \<Rightarrow> bool" where
  "is_file F p = (case sys_metadata F p of Inr m \<Rightarrow> fm_is_file m | Inl _ \<Rightarrow> False)"

definition exit_text :: "captured_output \<Rightarrow> string" where
  "exit_text out =
     ''exit '' @ debug_code (exit_code (co_status out)) @ ''; stderr: '' @ to_string_lossy (from_vec (co_stderr out))"

definition run_control ::
    "('v, 'r, 'j) conformance_env \<Rightarrow> os_string \<Rightarrow> string \<Rightarrow> 'r conformance_options \<Rightarrow> process_error + captured_output" where
  "run_control V path op ops =
     run_capture_args (env_spawn V) path [''__outboard'', op] None (co_timeout ops)"

definition check_doctor ::
    "('v, 'r, 'j) conformance_env \<Rightarrow> os_string \<Rightarrow> ('v, 'r, 'j) manifest \<Rightarrow> 'r conformance_options
     \<Rightarrow> doctor_check list" where
  "check_doctor V path m ops =
     (if co_require_doctor ops \<and> \<not> cc_doctor (m_control m)
      then [check_fail ''control.doctor'' ''required operation not advertised'']
      else if \<not> cc_doctor (m_control m) then []
      else
        (case run_control V path ''doctor'' ops of
           Inr out \<Rightarrow>
             if exit_success (co_status out)
             then (case cv_report V (co_stdout out) of
                     Inr report \<Rightarrow>
                       if is_healthy report
                       then [check_pass ''control.doctor''
                               (''healthy with '' @ show_nat (length (dr_checks report)) @ '' checks'')]
                       else [check_fail ''control.doctor''
                               (''plugin doctor reported '' @ cv_debug_status V (dr_status report))]
                   | Inl e \<Rightarrow> [check_fail ''control.doctor.json'' e])
             else [check_fail ''control.doctor'' (exit_text out)]
         | Inl e \<Rightarrow> [check_fail ''control.doctor'' (process_error_to_string (env_text V) e)]))"

definition check_cli_schema ::
    "('v, 'r, 'j) conformance_env \<Rightarrow> os_string \<Rightarrow> ('v, 'r, 'j) manifest \<Rightarrow> 'r conformance_options
     \<Rightarrow> doctor_check list" where
  "check_cli_schema V path m ops =
     (if co_require_cli_schema ops \<and> \<not> cc_cli_schema (m_control m)
      then [check_fail ''control.cli-schema'' ''required operation not advertised'']
      else if \<not> cc_cli_schema (m_control m) then []
      else
        (case run_control V path ''cli-schema'' ops of
           Inr out \<Rightarrow>
             if exit_success (co_status out)
             then (case cv_value V (co_stdout out) of
                     Inr v \<Rightarrow>
                       if cv_is_object V v then [check_pass ''control.cli-schema'' ''returned a JSON object'']
                       else [check_fail ''control.cli-schema.json'' ''schema response was valid JSON but not an object'']
                   | Inl e \<Rightarrow> [check_fail ''control.cli-schema.json'' e])
             else [check_fail ''control.cli-schema'' (exit_text out)]
         | Inl e \<Rightarrow> [check_fail ''control.cli-schema'' (process_error_to_string (env_text V) e)]))"

definition check_control_ping ::
    "('v, 'r, 'j) conformance_env \<Rightarrow> os_string \<Rightarrow> ('v, 'r, 'j) manifest \<Rightarrow> 'r conformance_options
     \<Rightarrow> doctor_check list" where
  "check_control_ping V path m ops =
     (if \<not> cc_ping (m_control m) then []
      else
        (case run_control V path ''ping'' ops of
           Inr out \<Rightarrow>
             if exit_success (co_status out)
             then (case cv_value V (co_stdout out) of
                     Inr v \<Rightarrow>
                       if cv_get_ok V v = Some True then [check_pass ''control.ping'' ''plugin responded ok'']
                       else [check_fail ''control.ping.json'' ''ping response did not contain ok=true'']
                   | Inl e \<Rightarrow> [check_fail ''control.ping.json'' e])
             else [check_fail ''control.ping'' (exit_text out)]
         | Inl e \<Rightarrow> [check_fail ''control.ping'' (process_error_to_string (env_text V) e)]))"

definition check_interface_requirement ::
    "('v, 'r, 'j) crates \<Rightarrow> ('v, 'r, 'j) manifest \<Rightarrow> 'r interface_requirement \<Rightarrow> doctor_check" where
  "check_interface_requirement X m r =
     (case m_interface m (ir_id r) of
        Some i \<Rightarrow>
          if req_matches X (ir_version r) (im_version i)
          then check_pass (''interface.'' @ as_str (ir_id r))
                 (show_version X (im_version i) @ '' satisfies '' @ show_req X (ir_version r))
          else check_fail (''interface.'' @ as_str (ir_id r))
                 (show_version X (im_version i) @ '' does not satisfy '' @ show_req X (ir_version r))
      | None \<Rightarrow> check_fail (''interface.'' @ as_str (ir_id r)) ''interface missing'')"

definition check_identity :: "('v, 'r, 'j) manifest \<Rightarrow> 'r conformance_options \<Rightarrow> doctor_check list" where
  "check_identity m ops =
     (case co_expected_id ops of
        None \<Rightarrow> []
      | Some i \<Rightarrow>
          if pm_id (m_plugin m) = i then [check_pass ''manifest.identity'' (plugin_id_to_string i)]
          else [check_fail ''manifest.identity''
                  (''expected '' @ plugin_id_to_string i @ '', got '' @ plugin_id_to_string (pm_id (m_plugin m)))])"

definition worker_error_text :: "('v, 'r, 'j) conformance_env \<Rightarrow> ('v, 'r, 'j) worker_client_error \<Rightarrow> string" where
  "worker_error_text V e = worker_client_error_to_string (env_crates V) (env_text V) (cv_debug_frame V) e"

definition check_worker ::
    "('v, 'r, 'j) conformance_env \<Rightarrow> os_string \<Rightarrow> ('v, 'r, 'j) manifest \<Rightarrow> 'r conformance_options
     \<Rightarrow> doctor_check list" where
  "check_worker V path m ops =
     (if co_require_worker ops \<or> supports m Worker
      then
        (if \<not> supports m Worker
         then [check_fail ''worker.advertised'' ''worker was required but not advertised'']
         else
           (case spawn_with_interfaces_timeout (env_crates V) (cv_host_codec V) (cv_connector V)
                   \<lparr>rp_candidate = candidate_explicit (pm_id (m_plugin m)) path, rp_manifest = m\<rparr>
                   (co_required_interfaces ops) (co_timeout ops) of
              (Inr worker, _) \<Rightarrow>
                (case client_ping (cv_host_codec V) 0xBADF00D worker of
                   (r, worker') \<Rightarrow>
                     [check_pass ''worker.handshake'' ''handshake succeeded'',
                      (case r of
                         Inr _ \<Rightarrow> check_pass ''worker.ping'' ''pong received''
                       | Inl e \<Rightarrow> check_fail ''worker.ping'' (worker_error_text V e)),
                      (case fst (client_shutdown (cv_host_codec V) worker') of
                         Inr _ \<Rightarrow> check_pass ''worker.shutdown'' ''acknowledged and exited''
                       | Inl e \<Rightarrow> check_fail ''worker.shutdown'' (worker_error_text V e))])
            | (Inl e, _) \<Rightarrow> [check_fail ''worker.handshake'' (worker_error_text V e)]))
      else [])"

definition check_plugin ::
    "('v, 'r, 'j) conformance_env \<Rightarrow> os_string \<Rightarrow> 'r conformance_options \<Rightarrow> ('v, 'r, 'j) conformance_report" where
  "check_plugin V path ops =
     (if \<not> is_file (env_system V) path
      then \<lparr>cr_executable = path, cr_manifest = None,
            cr_checks = [check_fail ''executable.exists'' (to_string_lossy path @ '' is not a file'')]\<rparr>
      else
        let exists = check_pass ''executable.exists'' (to_string_lossy path) in
        (case run_control V path ''manifest'' ops of
           Inl e \<Rightarrow>
             \<lparr>cr_executable = path, cr_manifest = None,
              cr_checks = [exists, check_fail ''control.manifest'' (process_error_to_string (env_text V) e)]\<rparr>
         | Inr out \<Rightarrow>
             if \<not> exit_success (co_status out)
             then \<lparr>cr_executable = path, cr_manifest = None,
                   cr_checks = [exists, check_fail ''control.manifest'' (exit_text out)]\<rparr>
             else
               (case env_manifest_json V (co_stdout out) of
                  Inl e \<Rightarrow>
                    \<lparr>cr_executable = path, cr_manifest = None,
                     cr_checks = [exists, check_fail ''control.manifest.json'' e]\<rparr>
                | Inr m \<Rightarrow>
                    \<lparr>cr_executable = path, cr_manifest = Some m,
                     cr_checks =
                       [exists, check_pass ''control.manifest'' ''returned valid manifest JSON'',
                        (case validate m of
                           Inr _ \<Rightarrow> check_pass ''manifest.validate'' ''manifest is valid''
                         | Inl e \<Rightarrow> check_fail ''manifest.validate'' (manifest_error_to_string (env_text V) e))]
                       @ check_identity m ops
                       @ map (check_interface_requirement (env_crates V) m) (co_required_interfaces ops)
                       @ check_doctor V path m ops
                       @ check_cli_schema V path m ops
                       @ check_control_ping V path m ops
                       @ check_worker V path m ops\<rparr>)))"

section \<open>The contract\<close>

text \<open>The executable answers a control operation: in time, successfully, with bytes that satisfy \<open>P\<close>.\<close>

definition answers ::
    "('v, 'r, 'j) conformance_env \<Rightarrow> os_string \<Rightarrow> 'r conformance_options \<Rightarrow> string \<Rightarrow> (bytes \<Rightarrow> bool) \<Rightarrow> bool" where
  "answers V path ops op P \<longleftrightarrow>
     (\<exists>out. run_control V path op ops = Inr out \<and> exit_success (co_status out) \<and> P (co_stdout out))"

definition worker_works ::
    "('v, 'r, 'j) conformance_env \<Rightarrow> os_string \<Rightarrow> 'r conformance_options \<Rightarrow> ('v, 'r, 'j) manifest \<Rightarrow> bool" where
  "worker_works V path ops m \<longleftrightarrow>
     (\<exists>w ev w'. spawn_with_interfaces_timeout (env_crates V) (cv_host_codec V) (cv_connector V)
          \<lparr>rp_candidate = candidate_explicit (pm_id (m_plugin m)) path, rp_manifest = m\<rparr>
          (co_required_interfaces ops) (co_timeout ops) = (Inr w, ev)
        \<and> client_ping (cv_host_codec V) 0xBADF00D w = (Inr (), w')
        \<and> fst (client_shutdown (cv_host_codec V) w') = Inr ())"

definition conforms ::
    "('v, 'r, 'j) conformance_env \<Rightarrow> os_string \<Rightarrow> 'r conformance_options \<Rightarrow> ('v, 'r, 'j) manifest \<Rightarrow> bool" where
  "conforms V path ops m \<longleftrightarrow>
     is_file (env_system V) path
     \<and> answers V path ops ''manifest'' (\<lambda>b. env_manifest_json V b = Inr m)
     \<and> manifest_wf m
     \<and> (\<forall>i. co_expected_id ops = Some i \<longrightarrow> pm_id (m_plugin m) = i)
     \<and> (\<forall>r \<in> set (co_required_interfaces ops).
          \<exists>i. m_interface m (ir_id r) = Some i \<and> req_matches (env_crates V) (ir_version r) (im_version i))
     \<and> (co_require_doctor ops \<longrightarrow> cc_doctor (m_control m))
     \<and> (cc_doctor (m_control m) \<longrightarrow>
          answers V path ops ''doctor'' (\<lambda>b. \<exists>rep. cv_report V b = Inr rep \<and> is_healthy rep))
     \<and> (co_require_cli_schema ops \<longrightarrow> cc_cli_schema (m_control m))
     \<and> (cc_cli_schema (m_control m) \<longrightarrow>
          answers V path ops ''cli-schema'' (\<lambda>b. \<exists>v. cv_value V b = Inr v \<and> cv_is_object V v))
     \<and> (cc_ping (m_control m) \<longrightarrow>
          answers V path ops ''ping'' (\<lambda>b. \<exists>v. cv_value V b = Inr v \<and> cv_get_ok V v = Some True))
     \<and> (co_require_worker ops \<longrightarrow> supports m Worker)
     \<and> (supports m Worker \<longrightarrow> worker_works V path ops m)"

section \<open>Lemmas\<close>

definition none_failed :: "doctor_check list \<Rightarrow> bool" where
  "none_failed cs = list_all (\<lambda>c. dc_status c \<noteq> DoctorFail) cs"

lemma none_failed_simps [simp]:
  "none_failed []"
  "none_failed (c # cs) \<longleftrightarrow> dc_status c \<noteq> DoctorFail \<and> none_failed cs"
  "none_failed (cs @ ds) \<longleftrightarrow> none_failed cs \<and> none_failed ds"
  "none_failed (map f xs) \<longleftrightarrow> (\<forall>x \<in> set xs. dc_status (f x) \<noteq> DoctorFail)"
  by (auto simp: none_failed_def list_all_iff)

lemma check_status [simp]:
  "dc_status (check_pass n m) = DoctorPass" "dc_status (check_fail n m) = DoctorFail"
  by (simp_all add: check_pass_def check_fail_def)

lemma check_doctor_passes:
  "none_failed (check_doctor V path m ops) \<longleftrightarrow>
     (co_require_doctor ops \<longrightarrow> cc_doctor (m_control m))
     \<and> (cc_doctor (m_control m) \<longrightarrow>
          answers V path ops ''doctor'' (\<lambda>b. \<exists>rep. cv_report V b = Inr rep \<and> is_healthy rep))"
  by (auto simp: check_doctor_def answers_def split: sum.splits)

lemma check_cli_schema_passes:
  "none_failed (check_cli_schema V path m ops) \<longleftrightarrow>
     (co_require_cli_schema ops \<longrightarrow> cc_cli_schema (m_control m))
     \<and> (cc_cli_schema (m_control m) \<longrightarrow>
          answers V path ops ''cli-schema'' (\<lambda>b. \<exists>v. cv_value V b = Inr v \<and> cv_is_object V v))"
  by (auto simp: check_cli_schema_def answers_def split: sum.splits)

lemma check_control_ping_passes:
  "none_failed (check_control_ping V path m ops) \<longleftrightarrow>
     (cc_ping (m_control m) \<longrightarrow>
        answers V path ops ''ping'' (\<lambda>b. \<exists>v. cv_value V b = Inr v \<and> cv_get_ok V v = Some True))"
  by (auto simp: check_control_ping_def answers_def split: sum.splits)

lemma check_interface_passes:
  "dc_status (check_interface_requirement X m r) \<noteq> DoctorFail \<longleftrightarrow>
     (\<exists>i. m_interface m (ir_id r) = Some i \<and> req_matches X (ir_version r) (im_version i))"
  by (auto simp: check_interface_requirement_def split: option.splits)

lemma check_identity_passes:
  "none_failed (check_identity m ops) \<longleftrightarrow> (\<forall>i. co_expected_id ops = Some i \<longrightarrow> pm_id (m_plugin m) = i)"
  by (auto simp: check_identity_def split: option.splits)

lemma check_worker_passes:
  "none_failed (check_worker V path m ops) \<longleftrightarrow>
     (co_require_worker ops \<longrightarrow> supports m Worker) \<and> (supports m Worker \<longrightarrow> worker_works V path ops m)"
  by (auto simp: check_worker_def worker_works_def split: sum.splits prod.splits)

lemma validate_unit: "validate m = Inr u \<longleftrightarrow> manifest_wf m"
  using validate_ok[of m] by simp

lemma check_plugin_manifest:
  "cr_manifest (check_plugin V path ops) = Some m \<longleftrightarrow>
     is_file (env_system V) path \<and> answers V path ops ''manifest'' (\<lambda>b. env_manifest_json V b = Inr m)"
  by (auto simp: check_plugin_def answers_def Let_def split: sum.splits)

lemma check_plugin_none:
  "cr_manifest (check_plugin V path ops) = None \<Longrightarrow> \<not> none_failed (cr_checks (check_plugin V path ops))"
  by (auto simp: check_plugin_def Let_def split: sum.splits if_splits)

lemma check_plugin_checks:
  assumes "cr_manifest (check_plugin V path ops) = Some m"
  shows "none_failed (cr_checks (check_plugin V path ops)) \<longleftrightarrow>
    manifest_wf m \<and> none_failed (check_identity m ops)
    \<and> (\<forall>r \<in> set (co_required_interfaces ops). dc_status (check_interface_requirement (env_crates V) m r) \<noteq> DoctorFail)
    \<and> none_failed (check_doctor V path m ops) \<and> none_failed (check_cli_schema V path m ops)
    \<and> none_failed (check_control_ping V path m ops) \<and> none_failed (check_worker V path m ops)"
proof -
  have "dc_status (case validate m of Inr _ \<Rightarrow> check_pass ''manifest.validate'' ''manifest is valid''
      | Inl e \<Rightarrow> check_fail ''manifest.validate'' (manifest_error_to_string (env_text V) e)) \<noteq> DoctorFail
      \<longleftrightarrow> manifest_wf m"
    using validate_unit[of m] by (cases "validate m") auto
  then show ?thesis
    using assms by (auto simp: check_plugin_def Let_def split: sum.splits if_splits)
qed

text \<open>The two notions of health agree: a report is healthy when the doctor report made of it is.\<close>

lemma healthy_agrees: "is_healthy (into_doctor_report r) \<longleftrightarrow> conformance_is_healthy r"
  by (auto simp: is_healthy_def into_doctor_report_def conformance_is_healthy_def from_checks_def
      list_ex_iff list_all_iff)

lemma assert_healthy_ok: "assert_healthy dbg r = Inr () \<longleftrightarrow> failures r = []"
  by (auto simp: assert_healthy_def failures_def conformance_is_healthy_def list_all_iff filter_empty_conv)

section \<open>Properties\<close>

text \<open>C7. A conformance report is exact: it is healthy if and only if the executable keeps the whole
  contract, that is, it exists, reports a valid manifest with the expected identity and the required
  interfaces, answers every control operation it advertises, offers the required ones, and, where it
  advertises a worker, completes a handshake, a ping and a shutdown.\<close>

theorem conformance_report_exact:
  "conformance_is_healthy (check_plugin V path ops) \<longleftrightarrow>
     (\<exists>m. cr_manifest (check_plugin V path ops) = Some m \<and> conforms V path ops m)"
proof (cases "cr_manifest (check_plugin V path ops)")
  case None
  then show ?thesis using check_plugin_none[OF None] by (simp add: conformance_is_healthy_def none_failed_def)
next
  case (Some m)
  have "conformance_is_healthy (check_plugin V path ops) \<longleftrightarrow> conforms V path ops m"
    using check_plugin_checks[OF Some] iffD1[OF check_plugin_manifest Some]
    unfolding conforms_def conformance_is_healthy_def none_failed_def[symmetric]
    by (simp only: check_doctor_passes check_cli_schema_passes check_control_ping_passes check_identity_passes
        check_interface_passes check_worker_passes) blast
  with Some show ?thesis by simp
qed

end
