(* ===== verification/Demo_Host.thy ===== *)
theory Demo_Host
  imports Demo_Engine Management Conformance
begin

text \<open>
  The reference host, \<open>src/examples/demo-host/src/main.rs\<close>. A command returns its error or success and
  the lines it prints; \<open>None\<close> is a command that waits for ever. \<open>clap\<close>'s parsers and the JSON writers and
  readers of \<open>serde_json\<close> are arguments. The session of an asynchronous worker is what it meets on its
  way: the connection, the state of the client when it reads its invocations, and the answers to the
  shutdown.
\<close>

section \<open>Data\<close>

datatype host_command =
    HostPlugins plugin_command
  | HostEcho echo_args
  | HostWorkerEcho echo_args
  | HostWorkerBatch
  | HostWorkerCancel
  | HostConformance os_string

record host_cli =
  hc_plugin_dirs :: "os_string list"
  hc_no_path :: bool
  hc_echo_override :: "os_string option"
  hc_command :: host_command

datatype ('v, 'r, 'j) host_error =
    HostIdentifier identifier_error
  | HostRegistry registry_error
  | HostClap string
  | HostProcess process_error
  | HostJson json_error
  | HostCommandError "('v, 'r, 'j) command_error"
  | HostWorker "('v, 'r, 'j) async_client_error"
  | HostOptions conformance_error
  | HostMessage string
  | HostPanic

text \<open>A printed line: \<open>println!\<close> or \<open>eprintln!\<close>.\<close>

datatype line = Out string | Err string

record ('v, 'r, 'j) host_texts =
  ht_try_get_matches :: "os_string list \<Rightarrow> string + unit"
  ht_echo_result :: "bytes \<Rightarrow> json_error + echo_result"
  ht_echo_pretty :: "echo_result \<Rightarrow> json_error + string"
  ht_frame :: "('v, 'r, 'j) plugin_frame \<Rightarrow> json_error + string"
  ht_result_pretty :: "'j invocation_result \<Rightarrow> json_error + string"
  ht_report_pretty :: "('v, 'r, 'j) conformance_report \<Rightarrow> json_error + string"
  ht_process_id :: "'j \<Rightarrow> nat option"
  ht_debug_argv :: "os_string list \<Rightarrow> string"
  ht_debug_result :: "'j invocation_result \<Rightarrow> string"
  ht_debug_frame :: "('v, 'r, 'j) plugin_frame \<Rightarrow> string"

record ('v, 'r, 'j) session =
  se_codec :: "('v, 'r, 'j) host_codec"
  se_connector :: "command \<Rightarrow> io_error + ('v, 'r, 'j) async_connection"
  se_client :: "('v, 'r, 'j) client_inner"
  se_global_closed :: bool
  se_global :: "('v, 'r, 'j) plugin_frame list"
  se_child :: child_wait

section \<open>The registry and the requirement\<close>

definition build_registry ::
    "('v, 'r, 'j) host_env \<Rightarrow> disk \<Rightarrow> host_cli
     \<Rightarrow> ('v, 'r, 'j) host_error + registry \<times> ('v, 'r, 'j) store" where
  "build_registry E D cli =
     res_bind (res_map_err HostIdentifier (registry_builder_new ''outboard-demo'')) (\<lambda>b0.
       let b = fold rb_plugin_path (hc_plugin_dirs cli) (rb_include_path (\<not> hc_no_path cli) b0) in
       case hc_echo_override cli of
         None \<Rightarrow> Inr (rb_build E D b)
       | Some p \<Rightarrow>
           res_bind (res_map_err HostIdentifier (rb_override_plugin ''engine'' ''echo'' p b))
             (\<lambda>b'. Inr (rb_build E D b')))"

definition requirement ::
    "('v, 'r, 'j) demo_env \<Rightarrow> bool \<Rightarrow> ('v, 'r, 'j) host_error + ('r, 'j) plugin_requirement" where
  "requirement V worker =
     res_bind (res_map_err HostIdentifier (plugin_requirement_new ''engine'')) (\<lambda>r0.
     res_bind (res_map_err HostIdentifier (requirement_named ''echo'' r0)) (\<lambda>r1.
     case demo_interface_requirement V of
       None \<Rightarrow> Inl HostPanic
     | Some i \<Rightarrow>
         let r = requirement_interface i r1 in
         Inr (if worker then requirement_execution Worker r else r)))"

section \<open>One shot\<close>

definition one_shot ::
    "('v, 'r, 'j) host_env \<Rightarrow> ('v, 'r, 'j) demo_env \<Rightarrow> ('v, 'r, 'j) host_texts \<Rightarrow> registry \<Rightarrow> echo_args
     \<Rightarrow> ('v, 'r, 'j) store \<Rightarrow> (('v, 'r, 'j) host_error + unit) \<times> line list \<times> ('v, 'r, 'j) store" where
  "one_shot E V T rg args s =
     (case requirement V False of
        Inl e \<Rightarrow> (Inl e, [], s)
      | Inr req \<Rightarrow>
          (case resolve E rg req s of
             (Inl e, s') \<Rightarrow> (Inl (HostRegistry e), [], s')
           | (Inr p, s') \<Rightarrow>
               (case cli_to_argv V \<lparr>cli_command = EngineEcho args\<rparr> of
                  None \<Rightarrow> (Inl HostPanic, [], s')
                | Some encoded \<Rightarrow>
                    (case validate_parser (ht_try_get_matches T) encoded of
                       Inl e \<Rightarrow> (Inl (HostClap e), [], s')
                     | Inr argv \<Rightarrow>
                         (let told = [Err (''resolved '' @ plugin_id_to_string (rp_id p) @ '' -> ''
                                        @ to_string_lossy (c_path (rp_candidate p))),
                                      Err (''typed argv: '' @ ht_debug_argv T argv)] in
                          case rp_run_capture (env_spawn E) p argv None 10000 of
                            Inl e \<Rightarrow> (Inl (HostProcess e), told, s')
                          | Inr out \<Rightarrow>
                              if \<not> exit_success (co_status out)
                              then (Inl (HostMessage (''plugin failed: ''
                                      @ to_string_lossy (from_vec (co_stderr out)))), told, s')
                              else
                                (case ht_echo_result T (co_stdout out) of
                                   Inl e \<Rightarrow> (Inl (HostJson e), told, s')
                                 | Inr result \<Rightarrow>
                                     (case ht_echo_pretty T result of
                                        Inl e \<Rightarrow> (Inl (HostJson e), told, s')
                                      | Inr t \<Rightarrow> (Inr (), told @ [Out t], s'))))))))"

section \<open>Workers\<close>

text \<open>The common start of the worker commands: a client with its writer, or the error.\<close>

definition open_worker ::
    "('v, 'r, 'j) host_env \<Rightarrow> ('v, 'r, 'j) demo_env \<Rightarrow> ('v, 'r, 'j) session \<Rightarrow> registry \<Rightarrow> ('v, 'r, 'j) store
     \<Rightarrow> (('v, 'r, 'j) host_error + framed_writer) \<times> child_event list \<times> ('v, 'r, 'j) store" where
  "open_worker E V S rg s =
     (case requirement V True of
        Inl e \<Rightarrow> (Inl e, [], s)
      | Inr req \<Rightarrow>
          (case resolve E rg req s of
             (Inl e, s') \<Rightarrow> (Inl (HostRegistry e), [], s')
           | (Inr p, s') \<Rightarrow>
               (case demo_interface_requirement V of
                  None \<Rightarrow> (Inl HostPanic, [], s')
                | Some i \<Rightarrow>
                    (case async_spawn_with_interfaces (env_crates E) (se_codec S) (se_connector S) p [i] of
                       (Inl e, ev) \<Rightarrow> (Inl (HostWorker e), ev, s')
                     | (Inr (_, w), ev) \<Rightarrow> (Inr w, ev, s')))))"

text \<open>\<open>WorkerClient::invoke\<close> of the \<open>n\<close>-th invocation of the client: the write of its request.\<close>

definition invoke_nth ::
    "('v, 'r, 'j) session \<Rightarrow> nat \<Rightarrow> string \<Rightarrow> os_string list option \<Rightarrow> framed_writer
     \<Rightarrow> (('v, 'r, 'j) host_error + unit) \<times> framed_writer" where
  "invoke_nth S n command argv w =
     (case (demo_interface_id, argv) of
        (Some i, Some args) \<Rightarrow>
          (case async_write (se_codec S) (InvokeF (async_request n i command args)) w of
             (r, w') \<Rightarrow> (res_map_err (\<lambda>e. HostWorker (AsyncFrame e)) r, w'))
      | _ \<Rightarrow> (Inl HostPanic, w))"

definition finish_nth ::
    "('v, 'r, 'j) session \<Rightarrow> nat
     \<Rightarrow> (('v, 'r, 'j) async_client_error + ('v, 'r, 'j) invocation_transcript) option" where
  "finish_nth S n =
     finish (chan_id n) (channel_closed (se_client S) n) (ci_queue (se_client S) n) []"

definition shutdown_worker ::
    "('v, 'r, 'j) session \<Rightarrow> framed_writer \<Rightarrow> (('v, 'r, 'j) host_error + unit) \<times> child_event list" where
  "shutdown_worker S w =
     (case async_shutdown (se_codec S) DEFAULT_CONTROL_TIMEOUT (se_global_closed S) (se_global S) (se_child S) w of
        (r, ev, _) \<Rightarrow> (res_map_err HostWorker r, ev))"

text \<open>The loop over the events of an invocation.\<close>

fun print_events ::
    "('v, 'r, 'j) host_texts \<Rightarrow> bool \<Rightarrow> ('v, 'r, 'j) plugin_frame list
     \<Rightarrow> ((('v, 'r, 'j) host_error + unit) \<times> line list) option" where
  "print_events T closed [] = (if closed then Some (Inr (), []) else None)"
| "print_events T closed (f # fs) =
     (case ht_frame T f of
        Inl e \<Rightarrow> Some (Inl (HostJson e), [])
      | Inr t \<Rightarrow>
          if terminal f then Some (Inr (), [Out (''event: '' @ t)])
          else map_option (\<lambda>(r, ls). (r, Out (''event: '' @ t) # ls)) (print_events T closed fs))"

text \<open>What a worker command leaves: its result and lines, \<open>None\<close> while it waits, and what was done to the
  child. A client that is not shut down is dropped.\<close>

type_synonym ('v, 'r, 'j) worker_run =
  "((('v, 'r, 'j) host_error + unit) \<times> line list) option \<times> child_event list \<times> ('v, 'r, 'j) store"

definition end_worker ::
    "('v, 'r, 'j) session \<Rightarrow> framed_writer \<Rightarrow> child_event list \<Rightarrow> ('v, 'r, 'j) store
     \<Rightarrow> ((('v, 'r, 'j) host_error + unit) \<times> line list) option \<Rightarrow> ('v, 'r, 'j) worker_run" where
  "end_worker S w ev s r =
     (case r of
        None \<Rightarrow> (None, ev, s)
      | Some (Inl e, ls) \<Rightarrow> (Some (Inl e, ls), ev @ async_drop, s)
      | Some (Inr _, ls) \<Rightarrow> (case shutdown_worker S w of (q, ev') \<Rightarrow> (Some (q, ls), ev @ ev', s)))"

definition host_worker_echo ::
    "('v, 'r, 'j) host_env \<Rightarrow> ('v, 'r, 'j) demo_env \<Rightarrow> ('v, 'r, 'j) host_texts \<Rightarrow> ('v, 'r, 'j) session
     \<Rightarrow> registry \<Rightarrow> echo_args \<Rightarrow> ('v, 'r, 'j) store \<Rightarrow> ('v, 'r, 'j) worker_run" where
  "host_worker_echo E V T S rg args s =
     (case open_worker E V S rg s of
        (Inl e, ev, s') \<Rightarrow> (Some (Inl e, []), ev, s')
      | (Inr w, ev, s') \<Rightarrow>
          (case invoke_nth S 0 ''echo'' (echo_to_argv V args) w of
             (Inl e, w') \<Rightarrow> end_worker S w' ev s' (Some (Inl e, []))
           | (Inr _, w') \<Rightarrow>
               end_worker S w' ev s' (print_events T (channel_closed (se_client S) 0) (ci_queue (se_client S) 0))))"

definition pid :: "('v, 'r, 'j) host_texts \<Rightarrow> 'j invocation_result \<Rightarrow> nat option" where
  "pid T r = (case res_result r of Some (PJson v) \<Rightarrow> ht_process_id T v | _ \<Rightarrow> None)"

text \<open>What follows the two \<open>finish\<close> of \<open>worker_batch\<close>.\<close>

definition batch_report ::
    "('v, 'r, 'j) host_texts
     \<Rightarrow> ('v, 'r, 'j) async_client_error + ('v, 'r, 'j) invocation_transcript
     \<Rightarrow> ('v, 'r, 'j) async_client_error + ('v, 'r, 'j) invocation_transcript
     \<Rightarrow> (('v, 'r, 'j) host_error + unit) \<times> line list" where
  "batch_report T a b =
     (case a of
        Inl e \<Rightarrow> (Inl (HostWorker e), [])
      | Inr a \<Rightarrow>
          (case b of
             Inl e \<Rightarrow> (Inl (HostWorker e), [])
           | Inr b \<Rightarrow>
               (case ht_result_pretty T (it_result a) of
                  Inl e \<Rightarrow> (Inl (HostJson e), [])
                | Inr ta \<Rightarrow>
                    (case ht_result_pretty T (it_result b) of
                       Inl e \<Rightarrow> (Inl (HostJson e), [Out (''first: '' @ ta)])
                     | Inr tb \<Rightarrow>
                         (let lines = [Out (''first: '' @ ta), Out (''second: '' @ tb)];
                              ap = pid T (it_result a); bp = pid T (it_result b) in
                          case ap of
                            None \<Rightarrow> (Inl (HostMessage ''requests did not prove reuse of one worker process''), lines)
                          | Some p \<Rightarrow>
                              if ap \<noteq> bp
                              then (Inl (HostMessage ''requests did not prove reuse of one worker process''), lines)
                              else (Inr (), lines @
                                     [Out (''worker reuse verified: both requests ran in pid '' @ show_nat p)]))))))"

definition first_delay :: delay_args where
  "first_delay = \<lparr>dl_milliseconds = 250, dl_steps = 3, dl_result = ''first''\<rparr>"

definition second_delay :: delay_args where
  "second_delay = \<lparr>dl_milliseconds = 120, dl_steps = 2, dl_result = ''second''\<rparr>"

definition worker_batch ::
    "('v, 'r, 'j) host_env \<Rightarrow> ('v, 'r, 'j) demo_env \<Rightarrow> ('v, 'r, 'j) host_texts \<Rightarrow> ('v, 'r, 'j) session
     \<Rightarrow> registry \<Rightarrow> ('v, 'r, 'j) store \<Rightarrow> ('v, 'r, 'j) worker_run" where
  "worker_batch E V T S rg s =
     (case open_worker E V S rg s of
        (Inl e, ev, s') \<Rightarrow> (Some (Inl e, []), ev, s')
      | (Inr w, ev, s') \<Rightarrow>
          (case invoke_nth S 0 ''delay'' (delay_to_argv first_delay) w of
             (Inl e, w1) \<Rightarrow> end_worker S w1 ev s' (Some (Inl e, []))
           | (Inr _, w1) \<Rightarrow>
               (case invoke_nth S 1 ''delay'' (delay_to_argv second_delay) w1 of
                  (Inl e, w2) \<Rightarrow> end_worker S w2 ev s' (Some (Inl e, []))
                | (Inr _, w2) \<Rightarrow>
                    end_worker S w2 ev s'
                      (case (finish_nth S 0, finish_nth S 1) of
                         (Some a, Some b) \<Rightarrow> Some (batch_report T a b)
                       | _ \<Rightarrow> None))))"

definition async_client_error_to_string ::
    "('v, 'r, 'j) crates \<Rightarrow> std_text \<Rightarrow> (('v, 'r, 'j) plugin_frame \<Rightarrow> string)
     \<Rightarrow> ('v, 'r, 'j) async_client_error \<Rightarrow> string" where
  "async_client_error_to_string X T dbg e =
     (case e of
        AsyncWorkerNotSupported \<Rightarrow> ''plugin does not advertise persistent worker execution''
      | AsyncSpawn e \<Rightarrow> ''failed to spawn plugin worker: '' @ show_io T e
      | AsyncFrame e \<Rightarrow> ''worker framing error: '' @ frame_error_to_string T e
      | AsyncExpectedHello f \<Rightarrow> ''worker sent '' @ dbg f @ '' instead of hello''
      | AsyncManifestChanged \<Rightarrow> ''worker manifest changed between discovery and handshake''
      | AsyncProtocol v r \<Rightarrow>
          ''worker protocol '' @ show_version X v @ '' is not accepted by host requirement '' @ show_req X r
      | AsyncWorker e \<Rightarrow> ''worker returned '' @ worker_error_to_string e
      | AsyncChannelClosed i \<Rightarrow> ''worker response channel closed for invocation '' @ show_nat (unat i)
      | AsyncTimeout d \<Rightarrow> ''worker control operation timed out after '' @ debug_duration T d
      | AsyncWait e \<Rightarrow> ''worker process wait failed: '' @ show_io T e)"

fun contains_str :: "string \<Rightarrow> string \<Rightarrow> bool" where
  "contains_str [] t = (t = [])"
| "contains_str (c # cs) t = (take (length t) (c # cs) = t \<or> contains_str cs t)"

definition cancel_report ::
    "('v, 'r, 'j) host_env \<Rightarrow> ('v, 'r, 'j) host_texts
     \<Rightarrow> ('v, 'r, 'j) async_client_error + ('v, 'r, 'j) invocation_transcript
     \<Rightarrow> (('v, 'r, 'j) host_error + unit) \<times> line list" where
  "cancel_report E T r =
     (case r of
        Inl e \<Rightarrow>
          (let t = async_client_error_to_string (env_crates E) (env_text E) (ht_debug_frame T) e in
           if contains_str t ''cancelled'' then (Inr (), [Out (''cancellation verified: '' @ t)])
           else (Inl (HostMessage (''unexpected error: '' @ t)), []))
      | Inr v \<Rightarrow>
          (Inl (HostMessage (''cancelled request unexpectedly finished: '' @ ht_debug_result T (it_result v))), []))"

definition cancelled_delay :: delay_args where
  "cancelled_delay = \<lparr>dl_milliseconds = 5000, dl_steps = 50, dl_result = ''should-not-finish''\<rparr>"

definition worker_cancel ::
    "('v, 'r, 'j) host_env \<Rightarrow> ('v, 'r, 'j) demo_env \<Rightarrow> ('v, 'r, 'j) host_texts \<Rightarrow> ('v, 'r, 'j) session
     \<Rightarrow> registry \<Rightarrow> ('v, 'r, 'j) store \<Rightarrow> ('v, 'r, 'j) worker_run" where
  "worker_cancel E V T S rg s =
     (case open_worker E V S rg s of
        (Inl e, ev, s') \<Rightarrow> (Some (Inl e, []), ev, s')
      | (Inr w, ev, s') \<Rightarrow>
          (case invoke_nth S 0 ''delay'' (delay_to_argv cancelled_delay) w of
             (Inl e, w1) \<Rightarrow> end_worker S w1 ev s' (Some (Inl e, []))
           | (Inr _, w1) \<Rightarrow>
               (case async_cancel (se_codec S) (chan_id 0) w1 of
                  (Inl e, w2) \<Rightarrow> end_worker S w2 ev s' (Some (Inl (HostWorker e), []))
                | (Inr _, w2) \<Rightarrow>
                    end_worker S w2 ev s' (map_option (cancel_report E T) (finish_nth S 0)))))"

section \<open>Conformance and the main program\<close>

definition demo_options ::
    "('v, 'r, 'j) demo_env \<Rightarrow> ('v, 'r, 'j) host_error + 'r conformance_options" where
  "demo_options V =
     res_bind (res_map_err HostIdentifier (plugin_id_new ''outboard-demo'' ''engine'' ''echo'')) (\<lambda>i.
     res_bind (res_map_err HostOptions
         (options_require_interface (de_version_req V) ''demo.echo'' ''^1.0''
           (options_expected_id i options_default))) (\<lambda>ops.
     Inr (options_require_cli_schema (options_require_doctor (options_require_worker ops)))))"

definition host_conformance ::
    "('v, 'r, 'j) conformance_env \<Rightarrow> ('v, 'r, 'j) demo_env \<Rightarrow> ('v, 'r, 'j) host_texts \<Rightarrow> os_string
     \<Rightarrow> (('v, 'r, 'j) host_error + unit) \<times> line list" where
  "host_conformance K V T executable =
     (case demo_options V of
        Inl e \<Rightarrow> (Inl e, [])
      | Inr ops \<Rightarrow>
          (let r = check_plugin K executable ops in
           case ht_report_pretty T r of
             Inl e \<Rightarrow> (Inl (HostJson e), [])
           | Inr t \<Rightarrow>
               if \<not> conformance_is_healthy r
               then (Inl (HostMessage ''plugin failed conformance''), [Out t])
               else (Inr (), [Out t])))"

definition host_main ::
    "('v, 'r, 'j) conformance_env \<Rightarrow> ('v, 'r, 'j) command_env \<Rightarrow> ('v, 'r, 'j) demo_env \<Rightarrow> ('v, 'r, 'j) host_texts
     \<Rightarrow> ('v, 'r, 'j) session \<Rightarrow> disk \<Rightarrow> host_cli \<Rightarrow> ((('v, 'r, 'j) host_error + unit) \<times> line list) option" where
  "host_main K G V T S D cli =
     (let E = host_env.truncate G in
      case build_registry E D cli of
        Inl e \<Rightarrow> Some (Inl e, [])
      | Inr (rg, s) \<Rightarrow>
          (case hc_command cli of
             HostPlugins c \<Rightarrow>
               (case execute_plugin_command G rg c s of
                  (Inl e, _) \<Rightarrow> Some (Inl (HostCommandError e), [])
                | (Inr ls, _) \<Rightarrow> Some (Inr (), map Out ls))
           | HostEcho a \<Rightarrow> (case one_shot E V T rg a s of (r, ls, _) \<Rightarrow> Some (r, ls))
           | HostWorkerEcho a \<Rightarrow> fst (host_worker_echo E V T S rg a s)
           | HostWorkerBatch \<Rightarrow> fst (worker_batch E V T S rg s)
           | HostWorkerCancel \<Rightarrow> fst (worker_cancel E V T S rg s)
           | HostConformance executable \<Rightarrow> Some (host_conformance K V T executable)))"

section \<open>Lemmas\<close>

lemma requirement_eq:
  assumes "de_version_req V ''^1.0'' = Inr r"
  shows "requirement V worker =
    Inr \<lparr>pr_kind = Ident ''engine'', pr_name = Some (Ident ''echo''),
         pr_interface = Some \<lparr>ir_id = Ident ''demo.echo'', ir_version = r\<rparr>, pr_capabilities = [],
         pr_execution = (if worker then Some Worker else None)\<rparr>"
proof -
  have "plugin_kind_new ''engine'' = Inr (Ident ''engine'')" "plugin_name_new ''echo'' = Inr (Ident ''echo'')"
    by code_simp+
  then show ?thesis
    by (simp add: requirement_def plugin_requirement_new_def requirement_named_def requirement_interface_def
        requirement_execution_def demo_interface_requirement_eq[OF assms] res_map_err_def res_bind_def)
qed

text \<open>The plugin as a process: what it writes and how it exits.\<close>

fun engine_code :: "engine_exit \<Rightarrow> i32" where
  "engine_code EngineOk = 0"
| "engine_code EngineServes = 0"
| "engine_code (EngineUsage e) = 2"
| "engine_code EnginePanic = 101"
| "engine_code _ = 1"

definition engine_process ::
    "('v, 'r, 'j) demo_env \<Rightarrow> ('v, 'r, 'j) control_codec \<Rightarrow> string \<Rightarrow> 'j \<Rightarrow> os_string list \<Rightarrow> captured_output" where
  "engine_process V C pkg_version schema argv =
     (case engine_main V C pkg_version schema argv open_stream of
        (x, w) \<Rightarrow> \<lparr>co_status = ExitStatus (Some (engine_code x)), co_stdout = out_bytes w, co_stderr = []\<rparr>)"

lemma cli_argv_head:
  assumes "cli_to_argv V c = Some argv"
  shows "detect_control_request argv = Inr None"
proof -
  obtain a rest where "argv = a # rest" "a \<in> {''echo'', ''delay''}"
    using assms by (cases "cli_command c") (auto simp: cli_to_argv_eq command_to_argv_eq)
  then show ?thesis by (auto simp: detect_none_iff)
qed

lemma engine_process_echo:
  assumes "de_version V pkg = Inr v" "de_version V ''1.0.0'' = Inr iv"
    and "cli_to_argv V c = Some argv" "de_try_parse_from V (argv0 # argv) = Inr c" "cli_command c = EngineEcho a"
    and "de_echo_text V (run_echo V a) = Inr t"
  shows "engine_process V C pkg schema (argv0 # argv) =
    \<lparr>co_status = ExitStatus (Some 0), co_stdout = as_bytes (t @ [char_of (10 :: nat)]), co_stderr = []\<rparr>"
  using assms(4-6)
  by (simp add: engine_process_def engine_main_def engine_manifest_eq[OF assms(1,2)] dispatch_from_env_def
      dispatch_def cli_argv_head[OF assms(3)] println_def write_all_def open_stream_def)

lemma demo_handler_delay:
  assumes "rq_args rq = map from_os args" "rq_command rq = ''delay''"
    and "de_try_parse_from V (''demo-engine'' # ''delay'' # args) = Inr \<lparr>cli_command = EngineDelay d\<rparr>"
  shows "ah_invoke (demo_handler V) rq = engine_delay V d"
proof -
  have "res_collect (\<lambda>a. res_map_err f (into_os a)) (map from_os args) = Inr args" for f :: "_ \<Rightarrow> 'a worker_error"
    by (induction args) (simp_all add: res_map_err_def)
  then show ?thesis using assms by (simp add: demo_handler_def engine_invoke_def)
qed

section \<open>Properties\<close>

text \<open>The reference plugin meets the reference host: where Cargo's version requirements mean what they
  say, its manifest is valid and has no issue with what the host requires, with and without a worker.\<close>

theorem demo_plugin_compatible:
  assumes "de_version V pkg = Inr v" "de_version V ''1.0.0'' = Inr iv" "de_version_req V ''^1.0'' = Inr r"
    and "req_matches (de_crates V) r iv"
    and "req_matches (de_crates V) (caret_framework (de_crates V)) (framework_version (de_crates V))"
    and "req_matches (de_crates V) (caret_protocol (de_crates V)) (protocol_version (de_crates V))"
  shows "\<exists>m req. engine_manifest V pkg = Some m \<and> requirement V worker = Inr req
    \<and> validate m = Inr () \<and> compatibility_issues (de_crates V) m req = []"
proof -
  let ?m = "demo_manifest_of (de_crates V) v iv"
  have "validate ?m = Inr ()" by (rule iffD2[OF validate_ok demo_manifest_wf])
  moreover obtain req where req: "requirement V worker = Inr req"
    "pr_kind req = Ident ''engine''" "pr_name req = Some (Ident ''echo'')"
    "pr_interface req = Some \<lparr>ir_id = Ident ''demo.echo'', ir_version = r\<rparr>" "pr_capabilities req = []"
    "pr_execution req \<in> {None, Some Worker}"
    using requirement_eq[OF assms(3), of worker] by (cases worker) auto
  have "m_interface ?m (Ident ''demo.echo'') = Some \<lparr>im_id = Ident ''demo.echo'', im_version = iv\<rparr>"
    by (simp add: m_interface_iff[OF demo_manifest_wf]) (simp add: demo_manifest_of_def)
  then have "compatible (de_crates V) ?m req"
    using assms(4-6) req(2-6) by (auto simp: compatible_def) (auto simp: demo_manifest_of_def demo_id_def)
  then have "compatibility_issues (de_crates V) ?m req = []" by (simp add: no_compatibility_issues)
  ultimately show ?thesis using engine_manifest_eq[OF assms(1,2)] req(1) by blast
qed

theorem demo_plugin_compatible_witness:
  "\<exists>m req. engine_manifest sample_demo ''0.1.0'' = Some m \<and> requirement sample_demo True = Inr req
    \<and> validate m = Inr () \<and> compatibility_issues caret_crates m req = []"
proof -
  have c: "caret_matches (1, 0, 0) (1, 0, 0)" "caret_matches (0, 1, 0) (0, 1, 0)" by code_simp+
  show ?thesis
    using demo_plugin_compatible[of sample_demo "''0.1.0''" _ _ _ True] c by (simp add: sample_demo_def)
qed

text \<open>C18. A one-shot call works end to end: if the resolved executable behaves as the reference plugin, \<open>clap\<close>
  reads back the arguments the derived encoder wrote, and the host's JSON reader what the plugin's writer
  wrote, then the host prints exactly the result of \<open>run_echo\<close> on the arguments it was given. The
  arguments it encoded are never taken for a control request.\<close>

theorem one_shot_prints_echo:
  assumes "requirement V False = Inr req" "resolve E rg req s = (Inr p, s')"
    and "cli_to_argv V \<lparr>cli_command = EngineEcho args\<rparr> = Some argv"
    and "ht_try_get_matches T (''__outboard_validate'' # argv) = Inr ()"
    and "de_try_parse_from V (c_path (rp_candidate p) # argv) = Inr \<lparr>cli_command = EngineEcho args\<rparr>"
    and "de_version V pkg = Inr v" "de_version V ''1.0.0'' = Inr iv"
    and "rp_run_capture (env_spawn E) p argv None 10000 =
      Inr (engine_process V C pkg schema (c_path (rp_candidate p) # argv))"
    and "de_echo_text V (run_echo V args) = Inr t"
    and "ht_echo_result T (as_bytes (t @ [char_of (10 :: nat)])) = Inr (run_echo V args)"
    and "ht_echo_pretty T (run_echo V args) = Inr u"
  shows "one_shot E V T rg args s =
    (Inr (), [Err (''resolved '' @ plugin_id_to_string (rp_id p) @ '' -> '' @ to_string_lossy (c_path (rp_candidate p))),
              Err (''typed argv: '' @ ht_debug_argv T argv), Out u], s')"
proof -
  have o: "engine_process V C pkg schema (c_path (rp_candidate p) # argv) =
      \<lparr>co_status = ExitStatus (Some 0), co_stdout = as_bytes (t @ [char_of (10 :: nat)]), co_stderr = []\<rparr>"
    by (rule engine_process_echo[OF assms(6,7,3,5) _ assms(9)]) simp
  show ?thesis
    by (simp add: one_shot_def assms(1-4,8,10,11) o validate_parser_def res_bind_def exit_success_def)
qed

definition batch_texts :: "(version3, version3, string) host_texts" where
  "batch_texts =
     \<lparr>ht_try_get_matches = (\<lambda>_. Inr ()), ht_echo_result = (\<lambda>b. Inr \<lparr>er_text = ''hi hi'', er_tags = [], er_process_id = 7\<rparr>),
      ht_echo_pretty = (\<lambda>r. Inr (er_text r)), ht_frame = (\<lambda>_. Inr ''f''),
      ht_result_pretty = (\<lambda>_. Inr ''r''), ht_report_pretty = (\<lambda>_. Inr ''report''),
      ht_process_id = (\<lambda>v. Some (length v)), ht_debug_argv = concat, ht_debug_result = (\<lambda>_. []),
      ht_debug_frame = (\<lambda>_. [])\<rparr>"

definition echo_path :: os_string where
  "echo_path = ''/p/outboard-demo-engine-echo''"

definition echo_env :: "(version3, version3, string) host_env" where
  "echo_env = sample_env\<lparr>
     env_system := sample_system\<lparr>
       sys_read_dir := (\<lambda>d. if d = ''/p'' then Inr [Inr ''outboard-demo-engine-echo''] else Inl IoNotFound),
       sys_metadata := (\<lambda>p. if p = echo_path
         then Inr \<lparr>fm_is_file = True, fm_mode = 493, fm_len = 10, fm_modified = Some 7\<rparr> else Inl IoNotFound)\<rparr>,
     env_manifest_json := (\<lambda>_. Inr (demo_manifest_of caret_crates (1, 0, 0) (1, 0, 0))),
     env_spawn := (\<lambda>_. Inr (sample_child\<lparr>ch_stdout :=
       (\<lambda>_. Some (Inr (as_bytes (''hi hi'' @ [char_of (10 :: nat)]))))\<rparr>))\<rparr>"

definition echo_registry :: registry where
  "echo_registry = sample_registry\<lparr>rg_namespace := Ident ''outboard-demo''\<rparr>"

definition hi_args :: echo_args where
  "hi_args = \<lparr>ea_message = ''hi'', ea_repeat = 2, ea_case = Keep, ea_tags = [], ea_prefix = None\<rparr>"

definition hi_argv :: "os_string list" where
  "hi_argv = [''echo'', ''hi'', ''--repeat'', ''2'', ''--case'', ''keep'']"

lemma echo_resolves:
  "case resolve echo_env echo_registry (projr (requirement sample_demo False)) (memory_cache, empty_disk) of
     (Inr p, _) \<Rightarrow> c_path (rp_candidate p) = echo_path \<and> plugin_id_to_string (rp_id p) = ''outboard-demo/engine/echo''
   | _ \<Rightarrow> False"
  by code_simp

theorem one_shot_prints_echo_witness:
  "case one_shot echo_env sample_demo batch_texts echo_registry hi_args (memory_cache, empty_disk) of
     (r, lines, _) \<Rightarrow> r = Inr () \<and> lines =
       [Err ''resolved outboard-demo/engine/echo -> /p/outboard-demo-engine-echo'',
        Err ''typed argv: echohi--repeat2--casekeep'', Out ''hi hi'']"
proof -
  have "is_ok (requirement sample_demo False)" by code_simp
  then have req: "requirement sample_demo False = Inr (projr (requirement sample_demo False))"
    by (auto simp: is_ok_iff)
  obtain p s' where p: "resolve echo_env echo_registry (projr (requirement sample_demo False)) (memory_cache, empty_disk)
      = (Inr p, s')" "c_path (rp_candidate p) = echo_path" "plugin_id_to_string (rp_id p) = ''outboard-demo/engine/echo''"
    using echo_resolves by (auto split: prod.splits sum.splits)
  have a: "cli_to_argv sample_demo \<lparr>cli_command = EngineEcho hi_args\<rparr> = Some hi_argv"
    "ht_try_get_matches batch_texts (''__outboard_validate'' # hi_argv) = Inr ()"
    "de_try_parse_from sample_demo (echo_path # hi_argv) = Inr \<lparr>cli_command = EngineEcho hi_args\<rparr>"
    "de_version sample_demo ''0.1.0'' = Inr (1, 0, 0)" "de_version sample_demo ''1.0.0'' = Inr (1, 0, 0)"
    "run_capture_args (env_spawn echo_env) echo_path hi_argv None 10000 =
       Inr (engine_process sample_demo sample_control_codec ''0.1.0'' ''schema'' (echo_path # hi_argv))"
    "de_echo_text sample_demo (run_echo sample_demo hi_args) = Inr ''hi hi''"
    "ht_echo_result batch_texts (as_bytes (''hi hi'' @ [char_of (10 :: nat)])) = Inr (run_echo sample_demo hi_args)"
    "ht_echo_pretty batch_texts (run_echo sample_demo hi_args) = Inr ''hi hi''"
    "to_string_lossy echo_path = ''/p/outboard-demo-engine-echo''"
    "ht_debug_argv batch_texts hi_argv = ''echohi--repeat2--casekeep''"
    by code_simp+
  have run: "rp_run_capture (env_spawn echo_env) p hi_argv None 10000 =
      Inr (engine_process sample_demo sample_control_codec ''0.1.0'' ''schema'' (c_path (rp_candidate p) # hi_argv))"
    using a(6) by (simp add: rp_run_capture_def p(2))
  show ?thesis
    using one_shot_prints_echo[OF req p(1) a(1,2) a(3)[folded p(2)] a(4,5) run a(7,8,9)] by (simp add: p a(10,11))
qed

text \<open>C19. The reuse check of \<open>worker-batch\<close> holds: if its two delays were served by two tasks of one reference
  plugin, however interleaved, and both calls succeeded, the host sees the id of the plugin's process in
  both results and reports it, and not the error that reuse was not proved.\<close>

theorem batch_verifies_reuse:
  assumes "serves (demo_handler (V :: ('v, 'r, 'j) demo_env)) (t :: ('v, 'r, 'j) server_state) (se_client S) k0 0"
    and "serves (demo_handler V) t (se_client S) k1 1"
    and "tk_request (sv_tasks t ! k0) = async_request 0 i ''delay'' args0"
    and "tk_request (sv_tasks t ! k1) = async_request 1 i ''delay'' args1"
    and "de_try_parse_from V (''demo-engine'' # ''delay'' # args0) = Inr \<lparr>cli_command = EngineDelay first_delay\<rparr>"
    and "de_try_parse_from V (''demo-engine'' # ''delay'' # args1) = Inr \<lparr>cli_command = EngineDelay second_delay\<rparr>"
    and "finish_nth S 0 = Some (Inr a)" "finish_nth S 1 = Some (Inr b)"
    and "ht_result_pretty T (it_result a) = Inr ta" "ht_result_pretty T (it_result b) = Inr tb"
    and "\<And>res n. ht_process_id T (de_delay_value V res n) = Some (unat n)"
  shows "batch_report T (Inr a) (Inr b) =
    (Inr (), [Out (''first: '' @ ta), Out (''second: '' @ tb),
       Out (''worker reuse verified: both requests ran in pid '' @ show_nat (unat (de_process_id V)))])"
proof -
  have r: "it_result x = result_success (PJson (de_delay_value V (dl_result d) (de_process_id V)))"
    if "serves (demo_handler V) t (se_client S) k n" "tk_request (sv_tasks t ! k) = async_request n i ''delay'' as1"
      "de_try_parse_from V (''demo-engine'' # ''delay'' # as1) = Inr \<lparr>cli_command = EngineDelay d\<rparr>"
      "finish_nth S n = Some (Inr x)" for k n as1 d x
  proof -
    have "ah_invoke (demo_handler V) (tk_request (sv_tasks t ! k)) = engine_delay V d"
      by (rule demo_handler_delay[OF _ _ that(3)]) (simp_all add: that(2) async_request_def)
    with served_result[OF that(1) that(4)[unfolded finish_nth_def]] obtain gs :: "('v, 'r, 'j) plugin_frame list"
      where "handler_run (chan_id n) (engine_delay V d) gs (AReturn (Inr (it_result x)))"
      by auto
    from delay_returns[OF this] show ?thesis by (auto split: if_splits)
  qed
  have "it_result a = result_success (PJson (de_delay_value V (dl_result first_delay) (de_process_id V)))"
    "it_result b = result_success (PJson (de_delay_value V (dl_result second_delay) (de_process_id V)))"
    using r[OF assms(1,3,5,7)] r[OF assms(2,4,6,8)] by simp_all
  then have "pid T (it_result a) = Some (unat (de_process_id V))" "pid T (it_result b) = Some (unat (de_process_id V))"
    by (simp_all add: pid_def result_success_def assms(11))
  then show ?thesis by (simp add: batch_report_def assms(9,10))
qed

definition batch_demo :: "(version3, version3, string) demo_env" where
  "batch_demo = sample_demo\<lparr>
     de_try_parse_from := (\<lambda>argv. Inr \<lparr>cli_command = EngineDelay (if argv ! 3 = ''250'' then first_delay else second_delay)\<rparr>),
     de_delay_value := (\<lambda>_ n. replicate (unat n) (CHR ''x''))\<rparr>"

definition batch_request :: "nat \<Rightarrow> delay_args \<Rightarrow> string invoke_request" where
  "batch_request n d =
     async_request n (Ident ''demo.echo'') ''delay''
       [''--milliseconds'', show_nat (unat (dl_milliseconds d)), ''--steps'', show_nat (unat (dl_steps d)),
        ''--result'', dl_result d]"

text \<open>The two delays, step by step in turn.\<close>

definition batch_server :: sample_server where
  "batch_server = the (perform_all (demo_handler batch_demo)
     ([DoFrame (InvokeF (batch_request 0 first_delay)), DoFrame (InvokeF (batch_request 1 second_delay))]
      @ concat (replicate 5 [DoTask 0 0, DoTask 1 0]) @ [DoTask 0 0, DoTask 0 0]) server_init)"

definition batch_client :: "(version3, version3, string) client_inner" where
  "batch_client = fold deliver (map snd (sv_sent batch_server)) (register (register client_init))"

definition batch_session :: "(version3, version3, string) session" where
  "batch_session =
     \<lparr>se_codec = table_codec [], se_connector = (\<lambda>_. Inl IoNotFound), se_client = batch_client,
      se_global_closed = False, se_global = [], se_child = ChildExited\<rparr>"

lemma batch_server_reachable: "server_reachable (demo_handler batch_demo) batch_server"
  unfolding batch_server_def by (rule perform_all_reachable) code_simp

lemma batch_server_state:
  "sv_writer batch_server = Writing" "length (sv_tasks batch_server) = 2"
  "tk_request (sv_tasks batch_server ! 0) = batch_request 0 first_delay"
  "tk_request (sv_tasks batch_server ! 1) = batch_request 1 second_delay"
  "list_all (\<lambda>(org, f). frame_request_id f = Some 1 \<and> org = FromTask 0 \<or> frame_request_id f = Some 2 \<and> org = FromTask 1)
     (sv_sent batch_server)"
  by code_simp+

lemma batch_client_state:
  "client_reachable batch_client" "ci_log batch_client = map snd (sv_sent batch_server)"
  "ci_channels batch_client = 2" "ci_failed batch_client = {}"
proof -
  let ?s = "register (register client_init) :: (version3, version3, string) client_inner"
  have "client_reachable ?s" by (intro reach_step[OF _ step_register] reach_init)
  moreover have "ci_reader ?s = Reading" by (simp add: client_init_def)
  moreover have "solicited ?s f" if "frame_request_id f = Some 1 \<or> frame_request_id f = Some 2" for f
  proof -
    have "(1 :: u64) = chan_id 0" "(2 :: u64) = chan_id 1" by (simp_all add: chan_id_def)
    then show ?thesis using that by (auto simp: solicited_def client_init_def)
  qed
  then have "list_all (solicited ?s) (map snd (sv_sent batch_server))"
    using batch_server_state(5) by (fastforce simp: list_all_iff)
  ultimately have "client_reachable batch_client \<and> ci_log batch_client = ci_log ?s @ map snd (sv_sent batch_server)
      \<and> ci_channels batch_client = ci_channels ?s \<and> ci_failed batch_client = ci_failed ?s"
    unfolding batch_client_def by (rule delivered)
  then show "client_reachable batch_client" "ci_log batch_client = map snd (sv_sent batch_server)"
    "ci_channels batch_client = 2" "ci_failed batch_client = {}"
    by (simp_all add: client_init_def)
qed

lemma batch_serves: "n < 2 \<Longrightarrow> serves (demo_handler batch_demo) batch_server batch_client n n"
  using batch_server_state(5)
  by (auto simp: serves_def batch_client_state batch_server_reachable batch_server_state
      batch_server_state(4)[unfolded One_nat_def] write_failed_pc_def
      speaks_for_def own_def list_all_iff less_2_cases_iff chan_id_def batch_request_def async_request_def)

theorem batch_verifies_reuse_witness:
  "\<exists>a b. finish_nth batch_session 0 = Some (Inr a) \<and> finish_nth batch_session 1 = Some (Inr b)
    \<and> batch_report batch_texts (Inr a) (Inr b) =
      (Inr (), [Out ''first: r'', Out ''second: r'', Out ''worker reuse verified: both requests ran in pid 7''])"
proof -
  have "case finish (chan_id 0) c (ci_queue batch_client 0) [] of Some (Inr _) \<Rightarrow> True | _ \<Rightarrow> False"
    "case finish (chan_id 1) c (ci_queue batch_client 1) [] of Some (Inr _) \<Rightarrow> True | _ \<Rightarrow> False" for c
    by (cases c; code_simp)+
  then have "case finish_nth batch_session n of Some (Inr _) \<Rightarrow> True | _ \<Rightarrow> False" if "n = 0 \<or> n = 1" for n
    using that by (auto simp: finish_nth_def batch_session_def)
  from this[of 0] this[of 1] obtain a b where f: "finish_nth batch_session 0 = Some (Inr a)" "finish_nth batch_session 1 = Some (Inr b)"
    by (auto split: option.splits sum.splits)
  let ?args = "\<lambda>d. [''--milliseconds'', show_nat (unat (dl_milliseconds d)), ''--steps'', show_nat (unat (dl_steps d)),
        ''--result'', dl_result d]"
  have p: "de_try_parse_from batch_demo (''demo-engine'' # ''delay'' # ?args first_delay) = Inr \<lparr>cli_command = EngineDelay first_delay\<rparr>"
    "de_try_parse_from batch_demo (''demo-engine'' # ''delay'' # ?args second_delay) = Inr \<lparr>cli_command = EngineDelay second_delay\<rparr>"
    by code_simp+
  have s: "serves (demo_handler batch_demo) batch_server (se_client batch_session) 0 0"
    "serves (demo_handler batch_demo) batch_server (se_client batch_session) 1 1"
    using batch_serves by (simp_all add: batch_session_def)
  have t: "ht_result_pretty batch_texts (it_result a) = Inr ''r''" "ht_result_pretty batch_texts (it_result b) = Inr ''r''"
    "ht_process_id batch_texts (de_delay_value batch_demo res n) = Some (unat n)" for res n
    by (simp_all add: batch_texts_def batch_demo_def)
  have "show_nat (unat (de_process_id batch_demo)) = ''7''" by code_simp
  then show ?thesis
    using batch_verifies_reuse[OF s batch_server_state(3,4)[unfolded batch_request_def] p f t] f by simp
qed

end
