(* ===== verification/Schema.thy ===== *)
theory Schema
  imports Text
begin

text \<open>
  The command-line schema a plugin reports: \<open>src/crates/outboard-clap/src/schema.rs\<close>. A \<open>clap\<close> argument
  or command is what its getters return, with the \<open>Debug\<close> texts of its action and its range of values;
  \<open>Command::build\<close> and the JSON writer are arguments.
\<close>

section \<open>What clap tells\<close>

record clap_arg =
  get_id :: string
  get_short :: "string option"
  get_long :: "string option"
  get_index :: "nat option"
  debug_action :: string
  is_required_set :: bool
  debug_num_args :: "string option"
  get_value_names :: "string list option"
  get_possible_values :: "string list"
  get_default_values :: "os_string list"
  get_value_delimiter :: "string option"
  is_require_equals_set :: bool
  is_trailing_var_arg_set :: bool
  is_last_set :: bool
  get_help :: "string option"

datatype clap_command =
  ClapCommand (get_name: string) (get_about: "string option") (get_version: "string option")
    (get_arguments: "clap_arg list") (get_subcommands: "clap_command list")

section \<open>The schema\<close>

record cli_arg_schema =
  as_id :: string
  as_short :: "string option"
  as_long :: "string option"
  as_positional_index :: "nat option"
  as_action :: string
  as_required :: bool
  as_num_args :: "string option"
  as_value_names :: "string list"
  as_possible_values :: "string list"
  as_default_values :: "string list"
  as_value_delimiter :: "string option"
  as_require_equals :: bool
  as_trailing_var_arg :: bool
  as_last :: bool
  as_help :: "string option"

datatype cli_command_schema =
  CliCommandSchema (cs_name: string) (cs_about: "string option") (cs_version: "string option")
    (cs_arguments: "cli_arg_schema list") (cs_subcommands: "cli_command_schema list")

definition arg_schema :: "clap_arg \<Rightarrow> cli_arg_schema" where
  "arg_schema arg =
     \<lparr>as_id = get_id arg, as_short = get_short arg, as_long = get_long arg,
      as_positional_index = get_index arg, as_action = debug_action arg, as_required = is_required_set arg,
      as_num_args = debug_num_args arg,
      as_value_names = (case get_value_names arg of None \<Rightarrow> [] | Some ns \<Rightarrow> ns),
      as_possible_values = get_possible_values arg,
      as_default_values = map to_string_lossy (get_default_values arg),
      as_value_delimiter = get_value_delimiter arg, as_require_equals = is_require_equals_set arg,
      as_trailing_var_arg = is_trailing_var_arg_set arg, as_last = is_last_set arg, as_help = get_help arg\<rparr>"

fun command_schema :: "clap_command \<Rightarrow> cli_command_schema" where
  "command_schema (ClapCommand name about version arguments subcommands) =
     CliCommandSchema name about version (map arg_schema arguments) (map command_schema subcommands)"

definition cli_schema_from_command :: "(clap_command \<Rightarrow> clap_command) \<Rightarrow> clap_command \<Rightarrow> cli_command_schema" where
  "cli_schema_from_command build_command command = command_schema (build_command command)"

definition cli_schema_value ::
    "(cli_command_schema \<Rightarrow> json_error + 'j) \<Rightarrow> (clap_command \<Rightarrow> clap_command) \<Rightarrow> clap_command \<Rightarrow> 'j option" where
  "cli_schema_value to_value build_command command =
     (case to_value (cli_schema_from_command build_command command) of Inl _ \<Rightarrow> None | Inr v \<Rightarrow> Some v)"

section \<open>The schema mirrors the command\<close>

text \<open>The command at a path of subcommand names.\<close>

fun clap_at :: "string list \<Rightarrow> clap_command \<Rightarrow> clap_command option" where
  "clap_at [] c = Some c"
| "clap_at (n # ns) c = Option.bind (find (\<lambda>x. get_name x = n) (get_subcommands c)) (clap_at ns)"

fun schema_at :: "string list \<Rightarrow> cli_command_schema \<Rightarrow> cli_command_schema option" where
  "schema_at [] c = Some c"
| "schema_at (n # ns) c = Option.bind (find (\<lambda>x. cs_name x = n) (cs_subcommands c)) (schema_at ns)"

lemma command_schema_sel [simp]:
  "cs_name (command_schema c) = get_name c" "cs_about (command_schema c) = get_about c"
  "cs_version (command_schema c) = get_version c"
  "cs_arguments (command_schema c) = map arg_schema (get_arguments c)"
  "cs_subcommands (command_schema c) = map command_schema (get_subcommands c)"
  by (cases c; simp)+

lemma find_map: "find P (map f xs) = map_option f (find (\<lambda>x. P (f x)) xs)"
  by (induction xs) auto

lemma schema_at_path: "schema_at path (command_schema c) = map_option command_schema (clap_at path c)"
proof (induction path arbitrary: c)
  case (Cons n ns)
  then show ?case
    by (cases "find (\<lambda>x. get_name x = n) (get_subcommands c)") (simp_all add: find_map)
qed simp

section \<open>Properties\<close>

text \<open>The reported schema mirrors the command: a path of subcommand names leads to a command of the schema
  exactly when it leads to a command of the program, which has the same arguments in the same order, and
  the identifier, the flags and the position of each.\<close>

theorem schema_mirrors_command:
  "map_option (\<lambda>c. map (\<lambda>a. (as_id a, as_short a, as_long a, as_positional_index a)) (cs_arguments c))
      (schema_at path (cli_schema_from_command b command)) =
   map_option (\<lambda>c. map (\<lambda>a. (get_id a, get_short a, get_long a, get_index a)) (get_arguments c))
      (clap_at path (b command))"
  by (simp add: cli_schema_from_command_def schema_at_path option.map_comp comp_def arg_schema_def)

end
