(* ===== verification/Spec2Isabelle.thy ===== *)
theory Spec2Isabelle
  imports Demo_Host Schema
begin

text \<open>
  A verification library for \<open>outboard\<close>, a framework in which a host program finds, inspects and runs
  plugins that are separate executables. A host discovers executables by their names in search roots,
  asks each for its manifest through the reserved arguments \<open>__outboard manifest\<close>, chooses the best one that
  satisfies a requirement, and then runs it once with typed arguments or keeps it as a worker that
  answers framed requests on its standard streams.

  \<^bold>\<open>The theories\<close>, from the leaves up, with the sources they model (under \<open>src/\<close>):

  \<^item> \<open>Outboard_Prelude\<close>: results as sums, ordered maps as sorted association lists, words and the named
    collections. \<open>External\<close>: what the program takes from \<open>semver\<close> and \<open>serde_json\<close>, as records of functions.
    \<open>Os_String\<close>: OS strings as byte strings and the lossy UTF-8 decoding of the standard library.
  \<^item> \<open>Identifier\<close> (\<open>crates/outboard-core/src/id.rs\<close>), \<open>Manifest\<close> (\<open>manifest.rs\<close>), \<open>Doctor\<close> (\<open>doctor.rs\<close>),
    \<open>Process\<close> (\<open>process.rs\<close>), \<open>Discovery\<close> (\<open>discovery.rs\<close>), \<open>Cache\<close> (\<open>cache.rs\<close>), \<open>Text\<close> and \<open>Registry\<close>
    (\<open>registry.rs\<close> and the texts of its errors): the host's side. A \<open>store\<close> is the cache behind its lock and
    the disk; the file system, the clock and child processes are arguments.
  \<^item> \<open>Protocol\<close> (\<open>crates/outboard-protocol/src/lib.rs\<close> and the framing of \<open>crates/outboard-tokio\<close>): wire
    strings, frames, and length-prefixed reading and writing over streams that may fail at any byte.
  \<^item> \<open>Control\<close> (\<open>crates/outboard/src/control.rs\<close>), \<open>Worker_Server\<close> and \<open>Worker_Client\<close>
    (\<open>crates/outboard/src/worker.rs\<close>): the plugin's dispatcher and the synchronous worker, as functions on
    streams and channels.
  \<^item> \<open>Tokio_Client\<close>, \<open>Tokio_Server\<close> and \<open>Tokio_Session\<close> (\<open>crates/outboard-tokio/src/lib.rs\<close>): the concurrent
    worker as step relations; a step is the code between two points at which another task can run.
  \<^item> \<open>Derive\<close> (\<open>crates/outboard-clap-derive/src/lib.rs\<close>) and \<open>Argv\<close> (\<open>crates/outboard-clap/src/lib.rs\<close>): the
    derive macro as a compiler to a small language and the semantics of that language. \<open>Schema\<close>
    (\<open>crates/outboard-clap/src/schema.rs\<close>), \<open>Management\<close> (\<open>management.rs\<close>), \<open>Conformance\<close>
    (\<open>crates/outboard-testing/src/lib.rs\<close>).
  \<^item> \<open>Demo_Engine\<close> (\<open>examples/demo-api\<close>, \<open>examples/demo-engine-echo\<close>) and \<open>Demo_Host\<close>
    (\<open>examples/demo-host\<close>): the reference plugin and the reference host, over all of the above.
  \<^item> This theory: what follows when the plugin's side and the host's side meet.

  \<^bold>\<open>What is shown.\<close> Identifiers, manifests and requirements: validation accepts exactly the well-formed
  manifests, and a manifest has no issue exactly when it satisfies every clause. Discovery refines the
  rule that the first executable of a name wins; resolution returns an acceptable candidate of the highest
  score and names every rejected one. The cache answers only for an unchanged file, survives a restart
  and is never torn by a failing disk. A control command is polled a bounded number of times and its
  child is reaped. Frames survive the round trip, a frame above the limit is refused before it is read,
  and a failed write leaves a prefix of one frame. The synchronous server on bytes refines the
  protocol on frames, and a call of the synchronous client returns what the handler returned. For the
  concurrent worker an invariant over all interleavings gives that no frame is lost, duplicated or sent to
  another caller, that each request is told from \<open>Started\<close> to its last frame, that a shutdown ends after every
  request and can always be completed. The generated argument encoder appends exactly what the
  attributes of a type prescribe, and a conformance report is healthy exactly for a plugin that keeps the
  whole contract. The properties about what the program gets wrong are in the same form: a panicking
  handler loses its request, an invocation after the end of the stream waits for ever, two names of one
  file share a cache entry.

  \<^bold>\<open>Interfaces.\<close> Locales state the contracts that several components share, each interpreted on the
  definitions of the model: the identifier newtypes (\<open>Identifier\<close>), lossless encodings and the sink of frames
  (\<open>Protocol\<close>), the index of discovered candidates (\<open>Discovery\<close>), the store of manifests (\<open>Cache\<close>), and the
  collector of the frames of a call, which the synchronous and the concurrent client both are
  (\<open>Worker_Client\<close>, \<open>Tokio_Client\<close>).

  \<^bold>\<open>Bounds.\<close> No definition uses fuel. The polling loop of \<open>Process\<close> and the receive loop of
  \<open>Worker_Client\<close> have termination proofs; a wait that no one ends is the value \<open>None\<close>. Request ids, frame
  lengths, nonces and exit codes are words of their width; the theorems on concurrent clients assume
  fewer than \<open>2 ^ 64\<close> invocations, after which the ids of the program repeat. Sizes of files and times are
  natural numbers.

  \<^bold>\<open>Assumptions.\<close> The JSON readers and writers, \<open>semver\<close>, \<open>clap\<close>, \<open>syn\<close> and the operating system are
  arguments; where a theorem needs a law of one of them it is a hypothesis, with a witness. A worker is
  assumed to name only requests the host made, and the context of an invocation to be used by its own
  task. A thread that drains a pipe ends when the child is gone. Paths are those of Unix: the Windows
  variants behind \<open>cfg\<close> are not modelled.

  \<^bold>\<open>Not modelled\<close>: the re-exports of \<open>crates/outboard/src/lib.rs\<close> and \<open>crates/outboard-core/src/lib.rs\<close>, which
  hold no code; the JSON schemas derived by \<open>schemars\<close>; conversions and getters that only return a field; the
  tests and the scripts.
\<close>

section \<open>From the plugin's dispatcher to the host's registry\<close>

text \<open>A plugin process that runs \<open>dispatch_from_env\<close> on its arguments and exits with success when its
  request was handled.\<close>

definition dispatching_plugin ::
    "('v, 'r, 'j) crates \<Rightarrow> ('v, 'r, 'j) control_codec \<Rightarrow> ('v, 'r, 'j) control_dispatcher
     \<Rightarrow> os_string list \<Rightarrow> captured_output" where
  "dispatching_plugin X C d args =
     (case dispatch_from_env X C d args open_stream of
        (r, w) \<Rightarrow> \<lparr>co_status = ExitStatus (Some (if r = Inr Handled then 0 else 1)),
                   co_stdout = out_bytes w, co_stderr = []\<rparr>)"

lemma dispatching_plugin_manifest:
  "dispatching_plugin X C d (argv0 # ''__outboard'' # ''manifest'' # rest) =
     \<lparr>co_status = ExitStatus (Some 0), co_stdout = cj_manifest C (cd_manifest d) @ [10], co_stderr = []\<rparr>"
proof -
  have "detect_control_request (''__outboard'' # control_keyword CtlManifest # rest) = Inr (Some CtlManifest)"
    by (simp only: detect_some_iff) blast
  then show ?thesis
    by (simp add: dispatching_plugin_def dispatch_from_env_def dispatch_def handled_total open_stream_def)
qed

text \<open>C16. A plugin's manifest reaches the host unchanged: if the executable answers as a plugin that
  dispatches its arguments does, and the host's JSON reader reads back what the plugin's writer wrote
  (white space after the document ignored), then inspecting the executable gives exactly the manifest
  the plugin was built with, provided it is valid and declares the id the executable was found under.\<close>

theorem plugin_manifest_reaches_host:
  assumes "run_capture_args (env_spawn E) path [''__outboard'', ''manifest''] None t =
      Inr (dispatching_plugin X C d [path, ''__outboard'', ''manifest''])"
    and "env_manifest_json E (cj_manifest C (cd_manifest d) @ [10]) = Inr (cd_manifest d)"
    and "manifest_wf (cd_manifest d)" and "pm_id (m_plugin (cd_manifest d)) = i"
  shows "inspect_manifest_at E i path t = Inr (cd_manifest d)"
  using assms(2-4) validate_ok[of "cd_manifest d"]
  by (simp add: inspect_manifest_at_def assms(1) dispatching_plugin_manifest exit_success_def)

definition answering_child :: child where
  "answering_child = sample_child\<lparr>ch_stdout := (\<lambda>_. Some (Inr [1, 10]))\<rparr>"

definition answering_env :: "(version3, version3, string) host_env" where
  "answering_env = sample_env\<lparr>env_spawn := (\<lambda>_. Inr answering_child),
     env_manifest_json := (\<lambda>b. if b = [1, 10] then Inr sample_manifest else Inl ''no manifest'')\<rparr>"

theorem plugin_manifest_reaches_host_witness:
  "inspect_manifest_at answering_env sample_id ''/p/app-engine-test'' 5000 = Inr sample_manifest"
proof -
  have run: "run_capture_args (env_spawn answering_env) ''/p/app-engine-test'' [''__outboard'', ''manifest''] None 5000 =
      Inr (dispatching_plugin caret_crates sample_control_codec (dispatcher_new sample_manifest)
        [''/p/app-engine-test'', ''__outboard'', ''manifest''])"
    unfolding dispatching_plugin_manifest
    by (simp add: run_capture_args_def run_capture_def answering_env_def dispatcher_new_def
        sample_control_codec_def) code_simp
  have "pm_id (m_plugin sample_manifest) = sample_id" by code_simp
  then show ?thesis
    using plugin_manifest_reaches_host[OF run] sample_manifest_wf
    by (simp add: answering_env_def dispatcher_new_def sample_control_codec_def)
qed

section \<open>From the conformance checks to the registry\<close>

text \<open>C36. A plugin that passes the conformance checks under its id can be inspected by a host under
  that id, within the same time limit, and the host sees the manifest the report names.\<close>

theorem conforming_plugin_is_inspectable:
  assumes "conformance_is_healthy (check_plugin V path ops)" and "co_expected_id ops = Some i"
  shows "\<exists>m. cr_manifest (check_plugin V path ops) = Some m
    \<and> inspect_manifest_at (host_env.truncate V) i path (co_timeout ops) = Inr m"
proof (cases "cr_manifest (check_plugin V path ops)")
  case None
  from check_plugin_none[OF this] assms(1) show ?thesis
    by (simp add: conformance_is_healthy_def none_failed_def)
next
  case (Some m)
  have "manifest_wf m" "pm_id (m_plugin m) = i"
    using check_plugin_checks[OF Some] assms
    by (auto simp: conformance_is_healthy_def none_failed_def[symmetric] check_identity_passes)
  moreover obtain out where "run_control V path ''manifest'' ops = Inr out" "exit_success (co_status out)"
    "env_manifest_json V (co_stdout out) = Inr m"
    using Some by (auto simp: check_plugin_manifest answers_def)
  ultimately have "inspect_manifest_at (host_env.truncate V) i path (co_timeout ops) = Inr m"
    using validate_ok[of m] by (simp add: inspect_manifest_at_def run_control_def host_env.truncate_def)
  with Some show ?thesis by blast
qed

definition plain_manifest :: "(version3, version3, string) manifest" where
  "plain_manifest = sample_manifest\<lparr>m_execution := [OneShot],
     m_control := \<lparr>cc_doctor = False, cc_cli_schema = False, cc_ping = False\<rparr>\<rparr>"

definition plain_conformance :: "(version3, version3, string) conformance_env" where
  "plain_conformance =
     host_env.extend (sample_env\<lparr>env_manifest_json := (\<lambda>_. Inr plain_manifest)\<rparr>)
       \<lparr>cv_report = (\<lambda>_. Inr report_healthy), cv_value = (\<lambda>_. Inl ''no value''), cv_is_object = (\<lambda>_. False),
        cv_get_ok = (\<lambda>_. None), cv_debug_status = (\<lambda>_. []), cv_debug_frame = (\<lambda>_. []),
        cv_connector = (\<lambda>_. Inl IoNotFound), cv_host_codec = table_codec []\<rparr>"

theorem conforming_plugin_is_inspectable_witness:
  "\<exists>m. cr_manifest (check_plugin plain_conformance ''/p/app-engine-test''
        (options_expected_id sample_id options_default)) = Some m
    \<and> inspect_manifest_at (host_env.truncate plain_conformance) sample_id ''/p/app-engine-test'' 10000 = Inr m"
proof -
  have "conformance_is_healthy (check_plugin plain_conformance ''/p/app-engine-test''
      (options_expected_id sample_id options_default))"
    by code_simp
  from conforming_plugin_is_inspectable[OF this, of sample_id] show ?thesis
    by (simp add: options_expected_id_def options_default_def)
qed

section \<open>From resolution to the worker's handshake\<close>

text \<open>C17. A plugin resolved for worker execution accepts the host that resolved it: the hello the host
  then sends, with the interface the requirement names, passes every check of the worker.\<close>

theorem resolved_worker_accepts_host:
  assumes "resolve_best E rg req score s = (Inr p, s')" and "pr_execution req = Some Worker"
  shows "validate_hello (env_crates E) (rp_manifest p)
    (host_protocol_hello (env_crates E) (case pr_interface req of None \<Rightarrow> [] | Some r \<Rightarrow> [r])) = Inr ()
    \<and> supports (rp_manifest p) Worker"
proof -
  obtain d where d: "discover (env_system E) rg (as_str (pr_kind req)) = Inr d"
    using assms by (auto simp: resolve_best_def split: sum.splits)
  from resolve_best_cases[OF d refl refl, of s score] assms(1) obtain i where
    i: "i \<in> set (acceptable E req (inspect_each E rg (filter (name_matches req) (ds_selected d)) s))"
    and p: "rp_manifest p = ins_manifest i" by auto
  from acceptable_mem[OF i] have "compatible (env_crates E) (rp_manifest p) req" by (simp add: p)
  then show ?thesis
    using assms(2)
    by (auto simp: validate_hello_ok host_protocol_hello_def compatible_def supports_def split: option.splits)
qed

definition worker_requirement :: "(version3, string) plugin_requirement" where
  "worker_requirement =
     \<lparr>pr_kind = Ident ''engine'', pr_name = None,
      pr_interface = Some \<lparr>ir_id = Ident ''app.engine'', ir_version = (1, 0, 0)\<rparr>, pr_capabilities = [],
      pr_execution = Some Worker\<rparr>"

theorem resolved_worker_accepts_host_witness:
  "\<exists>p. fst (resolve_best sample_env sample_registry worker_requirement (\<lambda>_. 0) (memory_cache, empty_disk)) = Inr p
    \<and> validate_hello caret_crates (rp_manifest p)
        (host_protocol_hello caret_crates [\<lparr>ir_id = Ident ''app.engine'', ir_version = (1, 0, 0)\<rparr>]) = Inr ()"
proof -
  let ?r = "resolve_best sample_env sample_registry worker_requirement (\<lambda>_. 0) (memory_cache, empty_disk)"
  have k: "as_str (pr_kind worker_requirement) = ''engine''" "name_matches worker_requirement found_candidate"
    by (simp_all add: worker_requirement_def name_matches_def)
  have "compatibility_issues caret_crates sample_manifest worker_requirement = []" by code_simp
  then have r: "fst ?r = Inr \<lparr>rp_candidate = found_candidate, rp_manifest = sample_manifest\<rparr>"
    using sample_inspect
    by (cases "inspect sample_env sample_registry found_candidate (memory_cache, empty_disk)")
      (simp add: resolve_best_def sample_discover k)
  then have "?r = (Inr \<lparr>rp_candidate = found_candidate, rp_manifest = sample_manifest\<rparr>, snd ?r)"
    by (simp add: prod_eq_iff)
  from resolved_worker_accepts_host[OF this] r show ?thesis by (simp add: worker_requirement_def)
qed

end
